(* ===== verification/Prelude.thy ===== *)
theory Prelude
  imports Main "HOL-Library.Word"
begin

text \<open>
  What every component of the development shares: machine types, the error codes of the
  \<open>dterr_t*\<close> results, the results of the kernel calls the code makes, the C string functions
  the code calls, and generic lemmas on lists and chunks.

  A function of the source that returns \<open>dterr_t*\<close> returns a \<open>dterr\<close> here: \<open>None\<close> for NULL
  (success) and \<open>Some c\<close> for an error whose \<open>error_code\<close> is \<open>c\<close>. Message texts, source
  locations and the chain of inner errors are not modelled. \<open>DTERR_C(call)\<close>, which jumps to the
  cleanup label when the call fails, is a case distinction on the call's result.
\<close>

unbundle bit_operations_syntax

type_synonym byte = "8 word"
type_synonym u16 = "16 word"
type_synonym u32 = "32 word"
type_synonym u64 = "64 word"

named_theorems sink_simps \<open>what a byte sink accepted and left over\<close>
named_theorems inv_intros \<open>preservation of component invariants\<close>

section \<open>Errors\<close>

text \<open>
  The codes named in the source. \<open>DTERR_ASSERT\<close> stands for the code that the macro
  \<open>DTERR_ASSERT_NOT_NULL\<close> of dtcore reports; that macro is not part of the repository.
\<close>

datatype errcode =
    DTERR_FAIL | DTERR_OS | DTERR_IO | DTERR_NOMEM | DTERR_STATE | DTERR_BADARG
  | DTERR_RANGE | DTERR_OVERFLOW | DTERR_NOTFOUND | DTERR_TIMEOUT | DTERR_BUSY
  | DTERR_INTERNAL | DTERR_INFRASTRUCTURE | DTERR_NOTIMPL | DTERR_ARGUMENT_NULL | DTERR_BADCONFIG | DTERR_ASSERT

type_synonym dterr = "errcode option"

section \<open>C integers\<close>

text \<open>The value range of \<open>int32_t\<close>, and the conversion to it (two's complement).\<close>

definition INT32_MAX :: int where "INT32_MAX = 2147483647"

definition to_int32 :: "int \<Rightarrow> int" where
  "to_int32 x = (x + 2147483648) mod 4294967296 - 2147483648"

definition is_int32 :: "int \<Rightarrow> bool" where
  "is_int32 x \<longleftrightarrow> -2147483648 \<le> x \<and> x \<le> 2147483647"

lemma to_int32_id [simp]: "is_int32 x \<Longrightarrow> to_int32 x = x"
  by (simp add: to_int32_def is_int32_def)

lemma is_int32_to_int32 [simp]: "is_int32 (to_int32 x)"
proof -
  have "0 \<le> (x + 2147483648) mod 4294967296" "(x + 2147483648) mod 4294967296 < 4294967296"
    by simp_all
  then show ?thesis unfolding to_int32_def is_int32_def by linarith
qed

lemma unat_word_dec: "(w :: u32) \<noteq> 0 \<Longrightarrow> unat (w - 1) = unat w - 1"
  by (simp add: unat_minus_one)

lemma unat_word_inc: "(w :: u32) < v \<Longrightarrow> unat (w + 1) = unat w + 1"
proof -
  assume "w < v"
  then have "unat w < unat v" by (simp add: word_less_nat_alt)
  moreover have "unat v < 2 ^ 32" using unsigned_less [of v] by simp
  ultimately show ?thesis using unat_add_lem [of w 1] by simp
qed

section \<open>Kernel calls\<close>

text \<open>
  A system call answers what the kernel decides. The answers to the successive calls of an
  operation are a list (a script) that the operation consumes from the front; an operation
  whose script runs out is blocked in the call, which the loops report as \<open>None\<close>.
\<close>

datatype errno = EINTR | EAGAIN | EBADF | EINVAL | ENOENT | EPERM | EDEADLK | ETIMEDOUT | EIO | ENODEV | EOTHER

datatype send_result = Sent nat | SendErr errno

datatype recv_result = Recvd string | RecvErr errno

section \<open>Lists\<close>

lemma take_drop_split: "take n xs @ take m (drop n xs) = take (n + m) xs"
  by (simp add: take_add)

fun chunks :: "nat \<Rightarrow> nat \<Rightarrow> 'a list \<Rightarrow> 'a list list" where
  "chunks w 0 xs = []"
| "chunks w (Suc k) xs = take w xs # chunks w k (drop w xs)"

lemma length_chunks [simp]: "length (chunks w k xs) = k"
  by (induction k arbitrary: xs) auto

lemma concat_chunks: "length xs = w * k \<Longrightarrow> concat (chunks w k xs) = xs"
  by (induction k arbitrary: xs) auto

lemma chunks_snoc:
  "chunks w (Suc k) xs = chunks w k xs @ [take w (drop (w * k) xs)]"
proof (induction k arbitrary: xs)
  case 0
  show ?case by simp
next
  case (Suc k)
  have "chunks w (Suc (Suc k)) xs = take w xs # chunks w (Suc k) (drop w xs)"
    by (rule chunks.simps(2))
  then show ?case
    unfolding Suc.IH [of "drop w xs"] by (simp add: add.commute)
qed

lemma chunks_take: "w * k \<le> n \<Longrightarrow> chunks w k (take n xs) = chunks w k xs"
proof (induction k arbitrary: xs n)
  case 0
  show ?case by simp
next
  case (Suc k)
  then have "w \<le> n" "w * k \<le> n - w" by simp_all
  then show ?case by (simp add: Suc.IH min_def drop_take)
qed

lemma chunks_append [simp]:
  "length xs = w * k \<Longrightarrow> chunks w (k + j) (xs @ ys) = chunks w k xs @ chunks w j ys"
  by (induction k arbitrary: xs) auto

text \<open>\<open>memcpy(dst + off, src, n)\<close> with \<open>n = length src\<close>, inside \<open>dst\<close>.\<close>

definition overwrite :: "nat \<Rightarrow> 'a list \<Rightarrow> 'a list \<Rightarrow> 'a list" where
  "overwrite off src dst = take off dst @ src @ drop (off + length src) dst"

lemma length_overwrite [simp]:
  "off + length src \<le> length dst \<Longrightarrow> length (overwrite off src dst) = length dst"
  by (simp add: overwrite_def)

lemma take_overwrite:
  "off \<le> length dst \<Longrightarrow> take (off + length src) (overwrite off src dst) = take off dst @ src"
  by (simp add: overwrite_def)

section \<open>Bits\<close>

lemma bit_255: "bit (255 :: int) n \<longleftrightarrow> n < 8"
proof -
  have m: "(255 :: int) = mask 8" by (simp add: mask_eq_exp_minus_1)
  show ?thesis unfolding m by (auto simp: bit_mask_iff)
qed

end
