(* ===== verification/Sha1.thy ===== *)
theory Sha1
  imports Prelude
begin

text \<open>
  \<open>dtmc_linux_library/src/dtsha1.c\<close>: the incremental SHA-1. The context record has the
  fields of \<open>dtsha1_ctx_t\<close>; 32- and 64-bit words wrap as in C. The two loops whose
  termination rests on the context's invariant (\<open>buffer_len\<close> below 64) are partial functions:
  \<open>None\<close> is a run that does not return or that writes outside the 64-byte buffer. The lemmas
  show that neither happens from \<open>dtsha1_init\<close> on, that updating in pieces is updating at once,
  and that the digest is the one of the specification (padding to whole blocks, one
  compression per block).
\<close>

section \<open>Words and bytes\<close>

definition rotl32 :: "u32 \<Rightarrow> nat \<Rightarrow> u32" where
  "rotl32 x n = push_bit n x OR drop_bit (32 - n) x"

definition load_be32 :: "byte list \<Rightarrow> u32" where
  "load_be32 p = push_bit 24 (ucast (p ! 0)) OR push_bit 16 (ucast (p ! 1))
     OR push_bit 8 (ucast (p ! 2)) OR ucast (p ! 3)"

definition store_be64 :: "u64 \<Rightarrow> byte list" where
  "store_be64 x =
     [ucast (drop_bit 56 x AND 0xFF), ucast (drop_bit 48 x AND 0xFF),
      ucast (drop_bit 40 x AND 0xFF), ucast (drop_bit 32 x AND 0xFF),
      ucast (drop_bit 24 x AND 0xFF), ucast (drop_bit 16 x AND 0xFF),
      ucast (drop_bit 8 x AND 0xFF), ucast (x AND 0xFF)]"

definition store_be32 :: "u32 \<Rightarrow> byte list" where
  "store_be32 x =
     [ucast (drop_bit 24 x AND 0xFF), ucast (drop_bit 16 x AND 0xFF),
      ucast (drop_bit 8 x AND 0xFF), ucast (x AND 0xFF)]"

section \<open>One block\<close>

text \<open>The message schedule \<open>w\<close>: 16 loaded words, then 64 derived ones.\<close>

fun schedule_ext :: "nat \<Rightarrow> u32 list \<Rightarrow> u32 list" where
  "schedule_ext 0 w = w"
| "schedule_ext (Suc k) w =
     (let t = length w in
      schedule_ext k (w @ [rotl32 (w ! (t - 3) XOR w ! (t - 8) XOR w ! (t - 14) XOR w ! (t - 16)) 1]))"

definition message_schedule :: "byte list \<Rightarrow> u32 list" where
  "message_schedule block =
     schedule_ext 64 (map (\<lambda>t. load_be32 (drop (t * 4) block)) [0..<16])"

type_synonym working = "u32 \<times> u32 \<times> u32 \<times> u32 \<times> u32"

definition round_fk :: "nat \<Rightarrow> u32 \<Rightarrow> u32 \<Rightarrow> u32 \<Rightarrow> u32 \<times> u32" where
  "round_fk t b c d =
     (if t < 20 then ((b AND c) OR (NOT b AND d), 0x5A827999)
      else if t < 40 then (b XOR c XOR d, 0x6ED9EBA1)
      else if t < 60 then ((b AND c) OR (b AND d) OR (c AND d), 0x8F1BBCDC)
      else (b XOR c XOR d, 0xCA62C1D6))"

fun sha1_round :: "nat \<Rightarrow> u32 \<Rightarrow> working \<Rightarrow> working" where
  "sha1_round t wt (a, b, c, d, e) =
     (let (f, k) = round_fk t b c d;
          temp = rotl32 a 5 + f + e + k + wt
      in (temp, a, rotl32 b 30, c, d))"

fun sha1_rounds :: "nat \<Rightarrow> u32 list \<Rightarrow> working \<Rightarrow> working" where
  "sha1_rounds t [] v = v"
| "sha1_rounds t (wt # w) v = sha1_rounds (Suc t) w (sha1_round t wt v)"

text \<open>The chaining value \<open>ctx->state[0..4]\<close>, and what a block does to it.\<close>

type_synonym chain = working

fun sha1_compress :: "chain \<Rightarrow> byte list \<Rightarrow> chain" where
  "sha1_compress (s0, s1, s2, s3, s4) block =
     (let (a, b, c, d, e) = sha1_rounds 0 (message_schedule block) (s0, s1, s2, s3, s4)
      in (s0 + a, s1 + b, s2 + c, s3 + d, s4 + e))"

section \<open>The context\<close>

record dtsha1_ctx_t =
  ctx_state :: chain
  ctx_total_len_bytes :: u64
  ctx_buffer :: "byte list"
  ctx_buffer_len :: nat

definition process_block :: "dtsha1_ctx_t \<Rightarrow> byte list \<Rightarrow> dtsha1_ctx_t" where
  "process_block ctx block = ctx\<lparr>ctx_state := sha1_compress (ctx_state ctx) block\<rparr>"

definition sha1_iv :: chain where
  "sha1_iv = (0x67452301, 0xEFCDAB89, 0x98BADCFE, 0x10325476, 0xC3D2E1F0)"

text \<open>\<open>dtsha1_init\<close> leaves the 64 buffer bytes as they are.\<close>

definition dtsha1_init :: "dtsha1_ctx_t \<Rightarrow> dtsha1_ctx_t" where
  "dtsha1_init ctx = ctx\<lparr>ctx_state := sha1_iv, ctx_total_len_bytes := 0, ctx_buffer_len := 0\<rparr>"

partial_function (option) update_loop :: "dtsha1_ctx_t \<Rightarrow> byte list \<Rightarrow> dtsha1_ctx_t option" where
  "update_loop ctx p =
     (if p = [] then Some ctx
      else if 64 < ctx_buffer_len ctx then None
      else
        let to_copy = min (64 - ctx_buffer_len ctx) (length p);
            ctx1 = ctx\<lparr>ctx_buffer := overwrite (ctx_buffer_len ctx) (take to_copy p) (ctx_buffer ctx),
                       ctx_buffer_len := ctx_buffer_len ctx + to_copy\<rparr>;
            ctx2 = (if ctx_buffer_len ctx1 = 64
                    then (process_block ctx1 (ctx_buffer ctx1))\<lparr>ctx_buffer_len := 0\<rparr>
                    else ctx1)
        in update_loop ctx2 (drop to_copy p))"

declare update_loop.simps [code]

text \<open>
  \<open>data\<close> is \<open>None\<close> for a NULL pointer, which returns at once when \<open>len\<close> is positive and has
  nothing to add when it is zero.
\<close>

definition dtsha1_update :: "dtsha1_ctx_t \<Rightarrow> byte list option \<Rightarrow> dtsha1_ctx_t option" where
  "dtsha1_update ctx data =
     (case data of
        None \<Rightarrow> Some ctx
      | Some p \<Rightarrow>
          update_loop (ctx\<lparr>ctx_total_len_bytes := ctx_total_len_bytes ctx + of_nat (length p)\<rparr>) p)"

partial_function (option) pad_zeros :: "dtsha1_ctx_t \<Rightarrow> dtsha1_ctx_t option" where
  "pad_zeros ctx =
     (if ctx_buffer_len ctx = 56 then Some ctx
      else Option.bind (dtsha1_update ctx (Some [0])) pad_zeros)"

declare pad_zeros.simps [code]

fun chain_digest :: "chain \<Rightarrow> byte list" where
  "chain_digest (s0, s1, s2, s3, s4) =
     store_be32 s0 @ store_be32 s1 @ store_be32 s2 @ store_be32 s3 @ store_be32 s4"

definition dtsha1_final :: "dtsha1_ctx_t \<Rightarrow> byte list option" where
  "dtsha1_final ctx =
     (let total_bits = ctx_total_len_bytes ctx * 8;
          len_block = store_be64 total_bits
      in Option.bind (dtsha1_update ctx (Some [0x80])) (\<lambda>c1.
         Option.bind (pad_zeros c1) (\<lambda>c2.
         Option.bind (dtsha1_update c2 (Some len_block)) (\<lambda>c3.
         Some (chain_digest (ctx_state c3))))))"

text \<open>\<open>ctx0\<close> is the uninitialised stack context of the one-shot function.\<close>

definition dtsha1_compute :: "dtsha1_ctx_t \<Rightarrow> byte list option \<Rightarrow> byte list option" where
  "dtsha1_compute ctx0 data =
     Option.bind (dtsha1_update (dtsha1_init ctx0) data) dtsha1_final"


section \<open>The context invariant and the byte-wise reference\<close>

definition ctx_ok :: "dtsha1_ctx_t \<Rightarrow> bool" where
  "ctx_ok ctx \<longleftrightarrow> length (ctx_buffer ctx) = 64 \<and> ctx_buffer_len ctx < 64"

text \<open>The reference for \<open>update_loop\<close>: one byte goes into the buffer, a full buffer is compressed.\<close>

definition absorb_byte :: "dtsha1_ctx_t \<Rightarrow> byte \<Rightarrow> dtsha1_ctx_t" where
  "absorb_byte ctx b =
     (let buf = (ctx_buffer ctx)[ctx_buffer_len ctx := b]; n = Suc (ctx_buffer_len ctx) in
      if n = 64 then ctx\<lparr>ctx_buffer := buf, ctx_buffer_len := 0,
                         ctx_state := sha1_compress (ctx_state ctx) buf\<rparr>
      else ctx\<lparr>ctx_buffer := buf, ctx_buffer_len := n\<rparr>)"

text \<open>One iteration of the loop, with \<open>q\<close> the bytes it copies.\<close>

definition absorb_piece :: "dtsha1_ctx_t \<Rightarrow> byte list \<Rightarrow> dtsha1_ctx_t" where
  "absorb_piece ctx q =
     (let ctx1 = ctx\<lparr>ctx_buffer := overwrite (ctx_buffer_len ctx) q (ctx_buffer ctx),
                     ctx_buffer_len := ctx_buffer_len ctx + length q\<rparr>
      in if ctx_buffer_len ctx1 = 64
         then (process_block ctx1 (ctx_buffer ctx1))\<lparr>ctx_buffer_len := 0\<rparr> else ctx1)"

lemma overwrite_Cons:
  "off < length dst \<Longrightarrow> overwrite off (b # q) dst = overwrite (Suc off) q (dst[off := b])"
  by (simp add: overwrite_def take_Suc_conv_app_nth list_update_append)

lemma overwrite_single: "off < length dst \<Longrightarrow> overwrite off [b] dst = dst[off := b]"
  by (simp add: overwrite_def upd_conv_take_nth_drop)

lemma absorb_byte_ok [inv_intros]: "ctx_ok ctx \<Longrightarrow> ctx_ok (absorb_byte ctx b)"
  by (auto simp: ctx_ok_def absorb_byte_def Let_def)

lemma foldl_absorb_ok [inv_intros]: "ctx_ok ctx \<Longrightarrow> ctx_ok (foldl absorb_byte ctx p)"
  by (induction p arbitrary: ctx) (auto intro: inv_intros)

lemma absorb_piece_bytes:
  assumes "length (ctx_buffer ctx) = 64" "q \<noteq> []" "ctx_buffer_len ctx + length q \<le> 64"
  shows "absorb_piece ctx q = foldl absorb_byte ctx q"
  using assms
proof (induction q arbitrary: ctx)
  case Nil
  then show ?case by simp
next
  case (Cons b q)
  show ?case
  proof (cases "q = []")
    case True
    with Cons.prems show ?thesis
      by (simp add: absorb_piece_def absorb_byte_def process_block_def overwrite_single Let_def)
  next
    case False
    let ?c = "ctx\<lparr>ctx_buffer := (ctx_buffer ctx)[ctx_buffer_len ctx := b],
                  ctx_buffer_len := Suc (ctx_buffer_len ctx)\<rparr>"
    from False Cons.prems have byte: "absorb_byte ctx b = ?c"
      by (cases q) (simp_all add: absorb_byte_def)
    from False Cons.prems have "absorb_piece ?c q = foldl absorb_byte ?c q"
      by (intro Cons.IH) simp_all
    moreover have "absorb_piece ctx (b # q) = absorb_piece ?c q"
      using Cons.prems
      by (simp add: absorb_piece_def process_block_def overwrite_Cons Let_def)
    ultimately show ?thesis by (simp add: byte)
  qed
qed

lemma update_loop_piece:
  assumes "ctx_ok ctx" "p \<noteq> []"
  shows "update_loop ctx p =
    update_loop (absorb_piece ctx (take (64 - ctx_buffer_len ctx) p)) (drop (64 - ctx_buffer_len ctx) p)"
proof -
  have "drop (min (64 - ctx_buffer_len ctx) (length p)) p = drop (64 - ctx_buffer_len ctx) p"
    by (simp add: min_def)
  moreover have "take (min (64 - ctx_buffer_len ctx) (length p)) p = take (64 - ctx_buffer_len ctx) p"
    by (simp add: min_def)
  ultimately show ?thesis
    using assms by (subst update_loop.simps) (simp add: ctx_ok_def absorb_piece_def Let_def min.commute)
qed

lemma update_loop_bytes: "ctx_ok ctx \<Longrightarrow> update_loop ctx p = Some (foldl absorb_byte ctx p)"
proof (induction p arbitrary: ctx rule: length_induct)
  case (1 p)
  show ?case
  proof (cases "p = []")
    case True
    then show ?thesis by (subst update_loop.simps) simp
  next
    case False
    let ?n = "64 - ctx_buffer_len ctx"
    have n: "0 < ?n" "ctx_buffer_len ctx + length (take ?n p) \<le> 64"
      using 1(2) by (auto simp: ctx_ok_def)
    have "length (drop ?n p) < length p" using False n(1) by (cases p) auto
    have q: "absorb_piece ctx (take ?n p) = foldl absorb_byte ctx (take ?n p)"
      using False n 1(2) by (intro absorb_piece_bytes) (auto simp: ctx_ok_def)
    have "update_loop ctx p = update_loop (foldl absorb_byte ctx (take ?n p)) (drop ?n p)"
      using update_loop_piece [OF 1(2) False] q by simp
    also have "\<dots> = Some (foldl absorb_byte (foldl absorb_byte ctx (take ?n p)) (drop ?n p))"
      by (intro 1(1) [rule_format] foldl_absorb_ok 1(2)) fact
    finally show ?thesis by (simp flip: foldl_append)
  qed
qed

text \<open>The length counter is the only field \<open>dtsha1_update\<close> changes besides.\<close>

definition add_total :: "nat \<Rightarrow> dtsha1_ctx_t \<Rightarrow> dtsha1_ctx_t" where
  "add_total n ctx = ctx\<lparr>ctx_total_len_bytes := ctx_total_len_bytes ctx + of_nat n\<rparr>"

lemma absorb_add_total: "absorb_byte (add_total n ctx) b = add_total n (absorb_byte ctx b)"
  by (simp add: absorb_byte_def add_total_def Let_def)

lemma foldl_absorb_add_total:
  "foldl absorb_byte (add_total n ctx) p = add_total n (foldl absorb_byte ctx p)"
  by (induction p arbitrary: ctx) (simp_all add: absorb_add_total)

lemma add_total_ok [simp]: "ctx_ok (add_total n ctx) = ctx_ok ctx"
  by (simp add: ctx_ok_def add_total_def)

lemma add_total_add: "add_total n (add_total k ctx) = add_total (k + n) ctx"
  by (simp add: add_total_def add.assoc)

lemma add_total_fields [simp]:
  "ctx_state (add_total n ctx) = ctx_state ctx"
  "ctx_buffer (add_total n ctx) = ctx_buffer ctx"
  "ctx_buffer_len (add_total n ctx) = ctx_buffer_len ctx"
  by (simp_all add: add_total_def)

lemma update_bytes:
  "ctx_ok ctx \<Longrightarrow>
     dtsha1_update ctx (Some p) = Some (add_total (length p) (foldl absorb_byte ctx p))"
  by (simp add: dtsha1_update_def update_loop_bytes flip: add_total_def foldl_absorb_add_total)

section \<open>What a context has absorbed\<close>

definition absorbed :: "dtsha1_ctx_t \<Rightarrow> byte list \<Rightarrow> bool" where
  "absorbed ctx m \<longleftrightarrow> length (ctx_buffer ctx) = 64 \<and> ctx_buffer_len ctx = length m mod 64 \<and>
     take (ctx_buffer_len ctx) (ctx_buffer ctx) = drop (64 * (length m div 64)) m \<and>
     ctx_state ctx = foldl sha1_compress sha1_iv (chunks 64 (length m div 64) m)"

lemma absorbed_ok: "absorbed ctx m \<Longrightarrow> ctx_ok ctx"
  by (simp add: absorbed_def ctx_ok_def)

lemma absorbed_init: "length (ctx_buffer ctx0) = 64 \<Longrightarrow> absorbed (dtsha1_init ctx0) []"
  by (simp add: absorbed_def dtsha1_init_def)

lemma absorbed_add_total [simp]: "absorbed (add_total n ctx) m = absorbed ctx m"
  by (simp add: absorbed_def)

lemma absorbed_byte:
  assumes "absorbed ctx m"
  shows "absorbed (absorb_byte ctx b) (m @ [b])"
proof -
  define d r where "d = length m div 64" and "r = length m mod 64"
  have len: "length m = 64 * d + r" "r < 64" by (simp_all add: d_def r_def)
  from assms have buf: "length (ctx_buffer ctx) = 64" and bl: "ctx_buffer_len ctx = r"
    and tk: "take r (ctx_buffer ctx) = drop (64 * d) m"
    and st: "ctx_state ctx = foldl sha1_compress sha1_iv (chunks 64 d m)"
    unfolding absorbed_def d_def r_def by auto
  have ch: "chunks 64 d (m @ [b]) = chunks 64 d m"
    using chunks_take [of 64 d "length m" "m @ [b]"] len by simp
  have tk': "take (Suc r) ((ctx_buffer ctx)[r := b]) = drop (64 * d) (m @ [b])"
    using tk len buf by (simp add: take_Suc_conv_app_nth)
  show ?thesis
  proof (cases "Suc r = 64")
    case True
    then have dm: "length (m @ [b]) div 64 = Suc d" "length (m @ [b]) mod 64 = 0"
      using len by simp_all
    have "(ctx_buffer ctx)[r := b] = take 64 (drop (64 * d) (m @ [b]))"
      using tk' True buf len by simp
    then have "chunks 64 (Suc d) (m @ [b]) = chunks 64 d m @ [(ctx_buffer ctx)[r := b]]"
      unfolding chunks_snoc ch by simp
    with dm True show ?thesis
      using buf bl st len
      by (simp add: absorbed_def absorb_byte_def Let_def del: chunks.simps)
  next
    case False
    then have dm: "length (m @ [b]) div 64 = d" "length (m @ [b]) mod 64 = Suc r"
      using len by simp_all
    with False show ?thesis
      using buf bl st ch tk' by (simp add: absorbed_def absorb_byte_def Let_def)
  qed
qed

lemma absorbed_bytes:
  "absorbed ctx m \<Longrightarrow> absorbed (foldl absorb_byte ctx p) (m @ p)"
proof (induction p arbitrary: ctx m)
  case Nil
  then show ?case by simp
next
  case (Cons b p)
  from Cons.IH [OF absorbed_byte [OF Cons.prems]] show ?case by simp
qed

lemma absorb_total [simp]:
  "ctx_total_len_bytes (absorb_byte ctx b) = ctx_total_len_bytes ctx"
  by (simp add: absorb_byte_def Let_def)

lemma foldl_absorb_total [simp]:
  "ctx_total_len_bytes (foldl absorb_byte ctx p) = ctx_total_len_bytes ctx"
  by (induction p arbitrary: ctx) simp_all

section \<open>Padding\<close>

definition pad_len :: "nat \<Rightarrow> nat" where
  "pad_len n = (120 - n mod 64) mod 64"

lemma pad_val: "r < 64 \<Longrightarrow> (120 - r) mod 64 = (if r \<le> 56 then 56 - r else 120 - r)" for r :: nat
  by (auto simp: le_mod_geq)

lemma pad_len_mod: "(n + pad_len n) mod 64 = 56"
proof -
  define r where "r = n mod 64"
  have r: "r < 64" by (simp add: r_def)
  have "(r + (if r \<le> 56 then 56 - r else 120 - r)) mod 64 = 56"
    using r by simp
  then have "(r + (120 - r) mod 64) mod 64 = 56"
    by (simp only: pad_val [OF r])
  moreover have "(n + (120 - r) mod 64) mod 64 = (r + (120 - r) mod 64) mod 64"
    unfolding r_def by (rule mod_add_left_eq [symmetric])
  ultimately show ?thesis by (simp only: pad_len_def r_def)
qed

lemma absorb_len:
  "ctx_ok ctx \<Longrightarrow> ctx_buffer_len (absorb_byte ctx b) = Suc (ctx_buffer_len ctx) mod 64"
  by (auto simp: ctx_ok_def absorb_byte_def Let_def)

lemma pad_len_Suc: "n mod 64 \<noteq> 56 \<Longrightarrow> pad_len n = Suc (pad_len (Suc n mod 64))"
proof -
  assume a: "n mod 64 \<noteq> 56"
  define r where "r = n mod 64"
  have r: "r < 64" "r \<noteq> 56" using a by (simp_all add: r_def)
  have s: "Suc n mod 64 = Suc r mod 64" by (simp add: r_def mod_Suc_eq)
  have "(120 - r) mod 64 = Suc ((120 - Suc r mod 64) mod 64)"
    using r pad_val [of r] pad_val [of "Suc r mod 64"] by (cases "r = 63") auto
  then show ?thesis by (simp add: pad_len_def s r_def)
qed

lemma pad_zeros_bytes:
  "ctx_ok ctx \<Longrightarrow>
     \<exists>n. pad_zeros ctx =
       Some (add_total n (foldl absorb_byte ctx (replicate (pad_len (ctx_buffer_len ctx)) 0)))"
proof (induction "pad_len (ctx_buffer_len ctx)" arbitrary: ctx)
  case 0
  then have "ctx_buffer_len ctx = 56"
    using pad_len_mod [of "ctx_buffer_len ctx"] by (simp add: ctx_ok_def)
  then have "pad_zeros ctx = Some (add_total 0 ctx)"
    by (subst pad_zeros.simps) (simp add: add_total_def)
  with 0 show ?case by (intro exI [of _ 0]) simp
next
  case (Suc k)
  let ?c = "absorb_byte ctx 0"
  from Suc.prems have lt: "ctx_buffer_len ctx < 64" by (simp add: ctx_ok_def)
  have ne: "ctx_buffer_len ctx \<noteq> 56"
    using Suc.hyps(2) by (auto simp: pad_len_def)
  have k: "k = pad_len (ctx_buffer_len (add_total 1 ?c))"
    using Suc.hyps(2) pad_len_Suc [of "ctx_buffer_len ctx"] ne lt absorb_len [OF Suc.prems]
    by simp
  have "pad_zeros ctx = pad_zeros (add_total 1 ?c)"
    using ne by (subst pad_zeros.simps) (simp add: update_bytes [OF Suc.prems])
  moreover obtain n where "pad_zeros (add_total 1 ?c) =
      Some (add_total n (foldl absorb_byte (add_total 1 ?c) (replicate k 0)))"
    using Suc.hyps(1) [OF k] Suc.prems k by (auto intro: inv_intros)
  ultimately show ?case
    using Suc.hyps(2) [symmetric] by (auto simp: foldl_absorb_add_total add_total_add)
qed

section \<open>Specification\<close>

text \<open>
  SHA-1 as the standard states it: the message, a 0x80 byte, zeros up to 56 modulo 64, the bit
  length in 8 big-endian bytes; then one compression per 64-byte block.
\<close>

definition sha1_pad :: "byte list \<Rightarrow> byte list" where
  "sha1_pad m = m @ [0x80] @ replicate (pad_len (Suc (length m))) 0 @ store_be64 (of_nat (length m) * 8)"

definition sha1_spec :: "byte list \<Rightarrow> byte list" where
  "sha1_spec m =
     (let padded = sha1_pad m in
      chain_digest (foldl sha1_compress sha1_iv (chunks 64 (length padded div 64) padded)))"

lemma length_sha1_pad: "64 dvd length (sha1_pad m)"
proof -
  have "length (sha1_pad m) mod 64 = ((Suc (length m) + pad_len (Suc (length m))) mod 64 + 8) mod 64"
    by (simp add: sha1_pad_def store_be64_def mod_simps add.assoc)
  then show ?thesis unfolding pad_len_mod by (simp add: dvd_eq_mod_eq_0)
qed

lemma length_chain_digest [simp]: "length (chain_digest c) = 20"
  by (cases c) (simp add: store_be32_def)

lemma final_absorbed:
  assumes abs: "absorbed ctx m" and tot: "ctx_total_len_bytes ctx = of_nat (length m)"
  shows "dtsha1_final ctx = Some (sha1_spec m)"
proof -
  let ?L = "store_be64 (of_nat (length m) * 8)"
  define c1 where "c1 = add_total 1 (absorb_byte ctx 0x80)"
  have u1: "dtsha1_update ctx (Some [0x80]) = Some c1"
    using update_bytes [OF absorbed_ok [OF abs], of "[0x80]"] by (simp add: c1_def)
  have a1: "absorbed c1 (m @ [0x80])"
    using absorbed_byte [OF abs] by (simp add: c1_def)
  define z where "z = (replicate (pad_len (Suc (length m))) 0 :: byte list)"
  have "pad_len (ctx_buffer_len c1) = pad_len (Suc (length m))"
    using a1 by (simp add: absorbed_def pad_len_def)
  then obtain n where u2: "pad_zeros c1 = Some (add_total n (foldl absorb_byte c1 z))"
    using pad_zeros_bytes [OF absorbed_ok [OF a1]] by (auto simp: z_def)
  define c2 where "c2 = add_total n (foldl absorb_byte c1 z)"
  have a2: "absorbed c2 ((m @ [0x80]) @ z)"
    unfolding c2_def using absorbed_bytes [OF a1] by simp
  define c3 where "c3 = add_total (length ?L) (foldl absorb_byte c2 ?L)"
  have u3: "dtsha1_update c2 (Some ?L) = Some c3"
    using update_bytes [OF absorbed_ok [OF a2]] by (simp add: c3_def)
  have "absorbed c3 (((m @ [0x80]) @ z) @ ?L)"
    unfolding c3_def using absorbed_bytes [OF a2] by simp
  then have "absorbed c3 (sha1_pad m)"
    by (simp add: sha1_pad_def z_def)
  then have "chain_digest (ctx_state c3) = sha1_spec m"
    by (simp add: absorbed_def sha1_spec_def Let_def)
  then show ?thesis
    by (simp add: dtsha1_final_def Let_def u1 u2 u3 tot flip: c2_def)
qed

lemma compute_spec:
  assumes "length (ctx_buffer ctx0) = 64"
  shows "dtsha1_compute ctx0 (Some m) = Some (sha1_spec m)"
proof -
  let ?i = "dtsha1_init ctx0"
  have i: "absorbed ?i []" using assms by (rule absorbed_init)
  let ?c = "add_total (length m) (foldl absorb_byte ?i m)"
  have "dtsha1_update ?i (Some m) = Some ?c"
    by (rule update_bytes [OF absorbed_ok [OF i]])
  moreover have "dtsha1_final ?c = Some (sha1_spec m)"
  proof (rule final_absorbed)
    show "absorbed ?c m" using absorbed_bytes [OF i] by simp
    show "ctx_total_len_bytes ?c = of_nat (length m)"
      by (simp add: add_total_def dtsha1_init_def)
  qed
  ultimately show ?thesis by (simp add: dtsha1_compute_def)
qed

lemma length_sha1_spec [simp]: "length (sha1_spec m) = 20"
  by (simp add: sha1_spec_def Let_def)


section \<open>Loads and stores\<close>

lemma load_store_be32: "load_be32 (store_be32 x) = x"
proof (rule bit_word_eqI)
  fix n assume "n < LENGTH(32)"
  then consider "n < 8" | "8 \<le> n" "n < 16" | "16 \<le> n" "n < 24" | "24 \<le> n" "n < 32" by fastforce
  then show "bit (load_be32 (store_be32 x)) n = bit x n"
    by cases (auto simp: load_be32_def store_be32_def bit_simps bit_255)
qed

section \<open>The test vector of the standard\<close>

text \<open>
  Rules that evaluate the word functions inside the kernel: a numeral above the width is reduced,
  the schedule is extended one word at a time.
\<close>

lemma schedule_ext_numeral:
  "schedule_ext (numeral k) w =
     schedule_ext (pred_numeral k)
       (w @ [rotl32 (w ! (length w - 3) XOR w ! (length w - 8) XOR w ! (length w - 14)
               XOR w ! (length w - 16)) 1])"
  "schedule_ext (Suc 0) w =
       (w @ [rotl32 (w ! (length w - 3) XOR w ! (length w - 8) XOR w ! (length w - 14)
               XOR w ! (length w - 16)) 1])"
  by (simp_all add: numeral_eq_Suc Let_def)

lemma word32_of_nat_mod: "(of_nat (n mod 4294967296) :: u32) = of_nat n"
  by (simp add: word_of_nat_eq_iff take_bit_eq_mod)

lemma word32_numeral_mod:
  "4294967296 \<le> (numeral k :: nat) \<Longrightarrow> (numeral k :: u32) = of_nat (numeral k mod 4294967296)"
  unfolding word32_of_nat_mod by simp

lemma upt16: "[0..<16] = [0,1,2,3,4,5,6,7,8,9,10,11,12,13,14,15::nat]"
  by (simp add: upt_rec)

lemma replicate_num: "replicate (numeral k) x = x # replicate (pred_numeral k) x"
  by (simp add: numeral_eq_Suc)

definition abc_block :: "byte list" where
  "abc_block = [97,98,99,128,0,0,0,0,0,0,0,0,0,0,0,0, 0,0,0,0,0,0,0,0,0,0,0,0,0,0,0,0,
     0,0,0,0,0,0,0,0,0,0,0,0,0,0,0,0, 0,0,0,0,0,0,0,0,0,0,0,0,0,0,0,24]"

lemma abc_pad: "sha1_pad [97, 98, 99] = abc_block"
  by (simp add: sha1_pad_def pad_len_def store_be64_def replicate_num abc_block_def)

definition abc_w0 :: "u32 list" where
  "abc_w0 = [0x61626380, 0, 0, 0, 0, 0, 0, 0, 0, 0, 0, 0, 0, 0, 0, 0x18, 0xc2c4c700, 0, 0x30,
     0x85898e01]"

definition abc_w1 :: "u32 list" where
  "abc_w1 = [0, 0x60, 0xb131c03, 0x30, 0x85898ec1, 0x16263806, 0, 0x180, 0x2c4c700c, 0xf0, 0x93afb507,
     0x5898e048, 0x8e9a9202, 0x600, 0xb131c0f0, 0x16263bc6, 0x4ebed41e, 0x626380a1, 0x16263806,
     0x18c0]"

definition abc_w2 :: "u32 list" where
  "abc_w2 = [0xd2e138c4, 0xf00, 0x3afb5079, 0x898e04e5, 0xe2ba3c2b, 0x60c0, 0x53a37cd, 0x74458547,
     0xda9415ed, 0x26380a16, 0x626383a1, 0x4ebf54de, 0x3835b44b, 0xf600, 0x1e84c7a3, 0x98e04d98,
     0x651d16a0, 0x62658ca1, 0x458544d6, 0x44584cb7]"

definition abc_w3 :: "u32 list" where
  "abc_w3 = [0x7ba06619, 0x6380aea2, 0xae55269, 0x627b49a1, 0x7cd45c9d, 0xf0000, 0xfb50753a, 0xec6765e8,
     0xba3c2be2, 0x60c000, 0x3a37cd05, 0x458546f4, 0xb8599dd6, 0x380a1a26, 0x1e02203, 0xe7cc3456,
     0xe6e60b69, 0xf60a00, 0x5795ef4f, 0x822e0879]"

lemmas abc_w_defs = abc_w0_def abc_w1_def abc_w2_def abc_w3_def

lemma abc_schedule: "message_schedule abc_block = abc_w0 @ abc_w1 @ abc_w2 @ abc_w3"
  by (simp add: abc_block_def abc_w_defs message_schedule_def upt16 load_be32_def
       schedule_ext_numeral rotl32_def word32_numeral_mod del: schedule_ext.simps(2))

lemma abc_lengths: "length abc_w0 = 20" "length abc_w1 = 20" "length abc_w2 = 20"
  by (simp_all add: abc_w_defs)

lemmas round_eval = round_fk_def rotl32_def word32_numeral_mod abc_w_defs

lemma abc_rounds0: "sha1_rounds 0 abc_w0
    sha1_iv =
    (0xfd9e1d7d, 0xdc64901d, 0x20aa99ca, 0xd3a49608, 0xc82f758b)"
  by (simp add: round_eval sha1_iv_def)

lemma abc_rounds1: "sha1_rounds 20 abc_w1
    (0xfd9e1d7d, 0xdc64901d, 0x20aa99ca, 0xd3a49608, 0xc82f758b) =
    (0x32de1cba, 0x4c986405, 0xf718e5cf, 0x3d447f6, 0xf72eec32)"
  by (simp add: round_eval)

lemma abc_rounds2: "sha1_rounds 40 abc_w2
    (0x32de1cba, 0x4c986405, 0xf718e5cf, 0x3d447f6, 0xf72eec32) =
    (0x3f52de5a, 0x9d785fd, 0x3498bfd4, 0xf211824f, 0xd79915ab)"
  by (simp add: round_eval)

lemma abc_rounds3: "sha1_rounds 60 abc_w3
    (0x3f52de5a, 0x9d785fd, 0x3498bfd4, 0xf211824f, 0xd79915ab) =
    (0x42541b35, 0x5738d5e1, 0x21834873, 0x681e6df6, 0xd8fdf6ad)"
  by (simp add: round_eval)

lemma sha1_rounds_append:
  "sha1_rounds t (u @ w) v = sha1_rounds (t + length u) w (sha1_rounds t u v)"
  by (induction u arbitrary: t v) simp_all

lemma abc_rounds:
  "sha1_rounds 0 (message_schedule abc_block) sha1_iv =
     (0x42541b35, 0x5738d5e1, 0x21834873, 0x681e6df6, 0xd8fdf6ad)"
proof -
  have "sha1_rounds 0 (message_schedule abc_block) sha1_iv =
      sha1_rounds 60 abc_w3 (sha1_rounds 40 abc_w2 (sha1_rounds 20 abc_w1 (sha1_rounds 0 abc_w0 sha1_iv)))"
    by (simp add: abc_schedule sha1_rounds_append abc_lengths)
  then show ?thesis by (simp only: abc_rounds0 abc_rounds1 abc_rounds2 abc_rounds3)
qed

lemma abc_compress:
  "sha1_compress sha1_iv abc_block = (0xA9993E36, 0x4706816A, 0xBA3E2571, 0x7850C26C, 0x9CD0D89D)"
proof -
  note r = abc_rounds [unfolded sha1_iv_def]
  show ?thesis unfolding sha1_iv_def sha1_compress.simps r by simp
qed

lemma sha1_spec_abc:
  "sha1_spec [97, 98, 99] =
     [0xA9, 0x99, 0x3E, 0x36, 0x47, 0x06, 0x81, 0x6A, 0xBA, 0x3E, 0x25, 0x71,
      0x78, 0x50, 0xC2, 0x6C, 0x9C, 0xD0, 0xD8, 0x9D]"
proof -
  have "chunks 64 (length abc_block div 64) abc_block = [abc_block]"
    by (simp add: abc_block_def)
  then show ?thesis
    by (simp add: sha1_spec_def abc_pad abc_compress store_be32_def)
qed

section \<open>Properties\<close>

definition ctx_zero :: dtsha1_ctx_t where
  "ctx_zero = \<lparr>ctx_state = (0, 0, 0, 0, 0), ctx_total_len_bytes = 0,
                ctx_buffer = replicate 64 0, ctx_buffer_len = 0\<rparr>"

lemma ctx_zero_ok: "length (ctx_buffer ctx_zero) = 64" "ctx_ok ctx_zero"
  by (simp_all add: ctx_zero_def ctx_ok_def)

text \<open>
  C1: the one-shot digest of any byte string is the SHA-1 of the standard, 20 bytes long,
  whatever the uninitialised context held: the call returns, no write leaves the buffer, and
  the padding and block structure are the specified ones.
\<close>

theorem sha1_compute_correct:
  assumes "length (ctx_buffer ctx0) = 64"
  shows "dtsha1_compute ctx0 (Some m) = Some (sha1_spec m) \<and> length (sha1_spec m) = 20"
  using compute_spec [OF assms] by simp

theorem sha1_compute_correct_witness:
  "dtsha1_compute ctx_zero (Some [97, 98, 99]) =
     Some [0xA9, 0x99, 0x3E, 0x36, 0x47, 0x06, 0x81, 0x6A, 0xBA, 0x3E, 0x25, 0x71,
           0x78, 0x50, 0xC2, 0x6C, 0x9C, 0xD0, 0xD8, 0x9D]"
  using sha1_compute_correct [OF ctx_zero_ok(1), of "[97, 98, 99]"] by (simp add: sha1_spec_abc)

text \<open>
  C2: feeding a message in two pieces leaves the same context as feeding it at once, and every
  update of a valid context returns a valid one.
\<close>

theorem sha1_update_append:
  assumes "ctx_ok ctx"
  shows "dtsha1_update ctx (Some (p @ q)) =
           Option.bind (dtsha1_update ctx (Some p)) (\<lambda>c. dtsha1_update c (Some q)) \<and>
         (\<exists>c. dtsha1_update ctx (Some (p @ q)) = Some c \<and> ctx_ok c)"
  using assms
  by (auto simp: update_bytes foldl_absorb_ok foldl_absorb_add_total add_total_add)

theorem sha1_update_append_witness:
  "dtsha1_update ctx_zero (Some ([1, 2] @ [3])) =
     Option.bind (dtsha1_update ctx_zero (Some [1, 2])) (\<lambda>c. dtsha1_update c (Some [3]))"
  using sha1_update_append [OF ctx_zero_ok(2), of "[1, 2]" "[3]"] by blast

end
