(* ===== verification/Cstring.thy ===== *)
theory Cstring
  imports Prelude "HOL-Library.Sublist"
begin

text \<open>
  The C library functions on strings that the HTTP and websocket code calls, on \<open>string\<close> values:
  a C string is the list of its characters before the NUL terminator. \<open>strstr\<close> gives the offset
  of the first occurrence, \<open>strcasecmp\<close> and \<open>strncasecmp\<close> compare after folding ASCII letters.
\<close>

abbreviation CR :: char where "CR \<equiv> CHR 0x0D"
abbreviation LF :: char where "LF \<equiv> CHR 0x0A"
abbreviation TAB :: char where "TAB \<equiv> CHR 0x09"
abbreviation SP :: char where "SP \<equiv> CHR 0x20"
abbreviation NUL :: char where "NUL \<equiv> CHR 0x00"

definition CRLF :: string where "CRLF = [CR, LF]"

text \<open>The C string at the front of a received buffer: the bytes before the first NUL.\<close>

definition cstr :: "string \<Rightarrow> string" where
  "cstr bs = takeWhile (\<lambda>c. c \<noteq> NUL) bs"

lemma length_cstr: "length (cstr bs) \<le> length bs"
  by (simp add: cstr_def length_takeWhile_le)

fun strstr :: "string \<Rightarrow> string \<Rightarrow> nat option" where
  "strstr [] needle = (if needle = [] then Some 0 else None)"
| "strstr (c # s) needle =
     (if prefix needle (c # s) then Some 0 else map_option Suc (strstr s needle))"

lemma strstr_Some:
  "strstr s needle = Some k \<Longrightarrow>
     prefix needle (drop k s) \<and> k \<le> length s \<and> (\<forall>j<k. \<not> prefix needle (drop j s))"
proof (induction s arbitrary: k)
  case Nil
  then show ?case by (simp split: if_splits)
next
  case (Cons c s)
  show ?case
  proof (cases "prefix needle (c # s)")
    case True
    with Cons.prems show ?thesis by simp
  next
    case False
    with Cons.prems obtain i where i: "strstr s needle = Some i" "k = Suc i" by auto
    with Cons.IH [OF i(1)] False show ?thesis by (auto simp: less_Suc_eq_0_disj)
  qed
qed

lemma strstr_None: "strstr s needle = None \<longleftrightarrow> \<not> sublist needle s"
  by (induction s) (auto simp: sublist_Cons_right)

lemma strstr_split:
  assumes "strstr s needle = Some k"
  shows "s = take k s @ needle @ drop (k + length needle) s"
proof -
  from strstr_Some [OF assms] obtain z where z: "drop k s = needle @ z"
    by (auto elim: prefixE)
  then have "drop (k + length needle) s = z"
    by (metis add.commute append_eq_conv_conj drop_drop)
  with z show ?thesis by (metis append_take_drop_id)
qed

lemma strstr_bound:
  assumes "strstr s needle = Some k"
  shows "k + length needle \<le> length s"
proof -
  from strstr_Some [OF assms] have "length needle \<le> length s - k" "k \<le> length s"
    by (auto dest: prefix_length_le)
  then show ?thesis by simp
qed

definition tolower :: "char \<Rightarrow> char" where
  "tolower c = (if 65 \<le> (of_char c :: nat) \<and> (of_char c :: nat) \<le> 90
                then char_of ((of_char c :: nat) + 32) else c)"

text \<open>\<open>strcasecmp(a, b) == 0\<close> and \<open>strncasecmp(a, b, n) == 0\<close>.\<close>

definition strcaseeq :: "string \<Rightarrow> string \<Rightarrow> bool" where
  "strcaseeq a b \<longleftrightarrow> map tolower a = map tolower b"

definition strncaseeq :: "string \<Rightarrow> string \<Rightarrow> nat \<Rightarrow> bool" where
  "strncaseeq a b n \<longleftrightarrow> map tolower (take n a) = map tolower (take n b)"

text \<open>\<open>while (*p == ' ' || *p == TAB) p++\<close>, and the same from the right end.\<close>

definition is_blank :: "char \<Rightarrow> bool" where
  "is_blank c \<longleftrightarrow> c = SP \<or> c = TAB"

definition skip_blanks :: "string \<Rightarrow> string" where
  "skip_blanks s = dropWhile is_blank s"

definition trim_right :: "string \<Rightarrow> string" where
  "trim_right s = rev (dropWhile is_blank (rev s))"

lemma trim_right_prefix: "prefix (trim_right s) s"
proof -
  have "suffix (dropWhile is_blank (rev s)) (rev s)" by (rule suffix_dropWhile)
  then show ?thesis by (simp add: trim_right_def suffix_to_prefix)
qed

lemma length_trim_right: "length (trim_right s) \<le> length s"
  by (rule prefix_length_le [OF trim_right_prefix])

text \<open>Is the rest of the string at its end or at a line end?\<close>

definition at_eol :: "string \<Rightarrow> bool" where
  "at_eol s \<longleftrightarrow> s = [] \<or> prefix CRLF s"

definition bytes_of :: "string \<Rightarrow> byte list" where
  "bytes_of s = map of_char s"

lemma length_bytes_of [simp]: "length (bytes_of s) = length s"
  by (simp add: bytes_of_def)

lemma bytes_of_append [simp]: "bytes_of (a @ b) = bytes_of a @ bytes_of b"
  by (simp add: bytes_of_def)

lemma bytes_of_Nil [simp]: "bytes_of s = [] \<longleftrightarrow> s = []"
  by (simp add: bytes_of_def)

text \<open>\<open>"%d"\<close> for a non-negative number.\<close>

fun show_nat :: "nat \<Rightarrow> string" where
  "show_nat n = (if n < 10 then [char_of (48 + n)] else show_nat (n div 10) @ [char_of (48 + n mod 10)])"

declare show_nat.simps [simp del]

text \<open>\<open>"%d"\<close>.\<close>

definition show_int :: "int \<Rightarrow> string" where
  "show_int x = (if x < 0 then ''-'' @ show_nat (nat (- x)) else show_nat (nat x))"

text \<open>\<open>"%s"\<close>, which prints \<open>(null)\<close> for NULL.\<close>

definition show_text :: "string option \<Rightarrow> string" where
  "show_text s = (case s of None \<Rightarrow> ''(null)'' | Some t \<Rightarrow> t)"

text \<open>\<open>snprintf\<close> into \<open>n\<close> bytes.\<close>

definition fit :: "nat \<Rightarrow> string \<Rightarrow> string" where
  "fit n s = take (n - 1) s"


section \<open>Lines\<close>

lemma strstr_line: "CR \<notin> set l \<Longrightarrow> strstr (l @ CRLF @ rest) CRLF = Some (length l)"
proof (induction l)
  case Nil
  show ?case by (simp add: CRLF_def)
next
  case (Cons c l)
  then show ?case by (auto simp: CRLF_def)
qed

lemma drop_line: "drop (length l + 2) (l @ CRLF @ rest) = rest"
  by (simp add: CRLF_def)

text \<open>A block of lines, each ended by CRLF.\<close>

definition lines_of :: "string list \<Rightarrow> string" where
  "lines_of ls = concat (map (\<lambda>l. l @ CRLF) ls)"

lemma lines_of_simps [simp]:
  "lines_of [] = []" "lines_of (l # ls) = l @ CRLF @ lines_of ls"
  by (simp_all add: lines_of_def)

definition wf_line :: "string \<Rightarrow> bool" where
  "wf_line l \<longleftrightarrow> l \<noteq> [] \<and> CR \<notin> set l \<and> LF \<notin> set l \<and> NUL \<notin> set l"

text \<open>A header line \<open>name ':' value\<close>, the name compared without case.\<close>

definition header_match :: "string \<Rightarrow> string \<Rightarrow> bool" where
  "header_match name l \<longleftrightarrow>
     length name < length l \<and> strncaseeq l name (length name) \<and> l ! length name = CHR '':''"

lemma strncaseeq_append: "n \<le> length l \<Longrightarrow> strncaseeq (l @ r) name n = strncaseeq l name n"
  by (simp add: strncaseeq_def)

lemma cstr_id: "NUL \<notin> set s \<Longrightarrow> cstr s = s"
  by (auto simp: cstr_def takeWhile_eq_all_conv)

lemma NUL_CRLF [simp]: "NUL \<notin> set CRLF" "CRLF \<noteq> []" "length CRLF = 2"
  by (simp_all add: CRLF_def)

lemma prefix_take_iff: "prefix xs (take n ys) \<longleftrightarrow> prefix xs ys \<and> length xs \<le> n"
proof
  assume pre: "prefix xs (take n ys)"
  have "length xs \<le> n" using prefix_length_le [OF pre] by simp
  with prefix_order.trans [OF pre take_is_prefix] show "prefix xs ys \<and> length xs \<le> n" by simp
next
  assume "prefix xs ys \<and> length xs \<le> n"
  then obtain z where "ys = xs @ z" "length xs \<le> n" by (auto simp: prefix_def)
  then show "prefix xs (take n ys)" by simp
qed

lemma strstr_take:
  "strstr s nd = Some k \<Longrightarrow> nd \<noteq> [] \<Longrightarrow>
     strstr (take n s) nd = (if k + length nd \<le> n then Some k else None)"
proof (induction s arbitrary: n k)
  case Nil
  then show ?case by simp
next
  case (Cons c s)
  show ?case
  proof (cases n)
    case 0
    with Cons.prems(2) show ?thesis by simp
  next
    case (Suc m)
    have pre: "prefix nd (take n (c # s)) \<longleftrightarrow> prefix nd (c # s) \<and> length nd \<le> n"
      by (rule prefix_take_iff)
    show ?thesis
    proof (cases "prefix nd (c # s)")
      case True
      with Cons.prems have "k = 0" by simp
      show ?thesis
      proof (cases "length nd \<le> n")
        case True
        with pre \<open>prefix nd (c # s)\<close> \<open>k = 0\<close> Suc show ?thesis by simp
      next
        case False
        then have "\<not> sublist nd (take n (c # s))"
          by (auto dest: sublist_length_le)
        with False \<open>k = 0\<close> show ?thesis by (simp add: strstr_None)
      qed
    next
      case False
      with Cons.prems obtain i where "strstr s nd = Some i" "k = Suc i" by auto
      with Cons.IH [of i m] Cons.prems(2) False pre Suc show ?thesis by auto
    qed
  qed
qed

lemma strstr_append: "strstr s nd = Some k \<Longrightarrow> strstr (s @ r) nd = Some k"
proof (induction s arbitrary: k)
  case Nil
  then show ?case by (cases r) (auto split: if_splits)
next
  case (Cons c s)
  show ?case
  proof (cases "prefix nd (c # s)")
    case True
    with Cons.prems show ?thesis by (auto dest: prefix_prefix)
  next
    case False
    with Cons.prems obtain i where i: "strstr s nd = Some i" "k = Suc i" by auto
    from strstr_bound [OF i(1)] have "length nd \<le> length s" by simp
    with False have "\<not> prefix nd (c # s @ r)"
      by (metis append_Cons le_SucI length_Cons prefix_length_prefix prefixI)
    with i Cons.IH [OF i(1)] show ?thesis by simp
  qed
qed

lemma strstr_blank:
  "list_all wf_line ls \<Longrightarrow> ls \<noteq> [] \<Longrightarrow>
     strstr (lines_of ls @ CRLF) (CRLF @ CRLF) = Some (length (lines_of ls) - 2)"
proof (induction ls)
  case Nil
  then show ?case by simp
next
  case (Cons l ls)
  have skip: "strstr (l @ r) (CRLF @ CRLF) = map_option (\<lambda>k. length l + k) (strstr r (CRLF @ CRLF))"
    if "CR \<notin> set l" for l r :: string
    using that by (induction l) (cases "strstr r (CRLF @ CRLF)"; auto simp: CRLF_def)+
  show ?case
  proof (cases ls)
    case Nil
    with Cons.prems skip [of l] show ?thesis by (simp add: wf_line_def CRLF_def)
  next
    case (Cons l' ls')
    with Cons.prems obtain c r where "l' = c # r" "c \<noteq> CR" by (cases l') (auto simp: wf_line_def)
    then have "strstr (CRLF @ lines_of ls @ CRLF) (CRLF @ CRLF) =
      map_option (\<lambda>k. 2 + k) (strstr (lines_of ls @ CRLF) (CRLF @ CRLF))"
      using Cons by (auto simp: CRLF_def option.map_comp comp_def)
    with Cons.IH Cons.prems Cons skip [of l] show ?thesis by (simp add: wf_line_def)
  qed
qed

end
