(* ===== verification/Sockets.thy ===== *)
theory Sockets
  imports Cstring
begin

text \<open>
  What the socket users (HTTP server, websocket, TCP) share: the open file descriptors of the
  process as a list, \<open>_close_if_open\<close>, the bind loop over the addresses that \<open>getaddrinfo\<close>
  returns, the sequencing of sends with \<open>DTERR_C\<close>, and the interface of their send-everything
  loops as a locale.
\<close>

section \<open>Descriptors\<close>

type_synonym fd = int

text \<open>\<open>_close_if_open(&fd)\<close>: the new value of the variable and the descriptors still open.\<close>

definition close_if_open :: "fd \<Rightarrow> fd list \<Rightarrow> fd \<times> fd list" where
  "close_if_open fd fds = (if fd < 0 then (fd, fds) else (-1, removeAll fd fds))"

lemma close_if_open_fst [simp]: "fst (close_if_open fd fds) < 0"
  by (simp add: close_if_open_def)

lemma close_if_open_snd: "snd (close_if_open fd fds) = (if fd < 0 then fds else removeAll fd fds)"
  by (simp add: close_if_open_def)

text \<open>
  One address of the \<open>getaddrinfo\<close> list: what \<open>socket\<close> returned for it, and whether
  \<open>setsockopt(SO_REUSEADDR)\<close> and \<open>bind\<close> succeeded.
\<close>

record addr_try =
  at_sock :: fd
  at_reuse_ok :: bool
  at_bind_ok :: bool

fun bind_loop :: "fd \<Rightarrow> addr_try list \<Rightarrow> fd list \<Rightarrow> dterr \<times> fd \<times> fd list" where
  "bind_loop fd [] fds = (None, fd, fds)"
| "bind_loop fd (t # ts) fds =
     (let s = at_sock t in
      if s < 0 then bind_loop s ts fds
      else if \<not> at_reuse_ok t then (Some DTERR_IO, s, s # fds)
      else if at_bind_ok t then (None, s, s # fds)
      else bind_loop (-1) ts (removeAll s (s # fds)))"

text \<open>The kernel hands out descriptors that are not open.\<close>

definition fresh_tries :: "addr_try list \<Rightarrow> fd list \<Rightarrow> bool" where
  "fresh_tries ts fds \<longleftrightarrow> list_all (\<lambda>t. at_sock t \<notin> set fds) ts"

lemma fresh_tries_Cons [simp]:
  "fresh_tries (t # ts) fds \<longleftrightarrow> at_sock t \<notin> set fds \<and> fresh_tries ts fds"
  by (simp add: fresh_tries_def)

lemma bind_loop_fds:
  "fresh_tries ts fds \<Longrightarrow> fd < 0 \<Longrightarrow> bind_loop fd ts fds = (e, s, fds') \<Longrightarrow>
     (if 0 \<le> s then fds' = s # fds \<and> s \<notin> set fds else fds' = fds \<and> e = None)"
proof (induction ts arbitrary: fd)
  case Nil
  then show ?case by auto
next
  case (Cons t ts)
  show ?case
  proof (cases "at_sock t < 0 \<or> at_reuse_ok t \<and> \<not> at_bind_ok t")
    case True
    with Cons.prems have "bind_loop (if at_sock t < 0 then at_sock t else -1) ts fds = (e, s, fds')"
      by (auto simp: Let_def split: if_splits)
    with Cons.IH [of "if at_sock t < 0 then at_sock t else -1"] Cons.prems(1) show ?thesis
      by (auto split: if_splits)
  next
    case False
    with Cons.prems show ?thesis by (auto simp: Let_def split: if_splits)
  qed
qed

lemma bind_loop_sock:
  "bind_loop fd ts fds = (e, s, fds') \<Longrightarrow> s = fd \<or> s = -1 \<or> s \<in> at_sock ` set ts"
  by (induction ts arbitrary: fd fds) (fastforce simp: Let_def split: if_splits)+

section \<open>Sending\<close>

text \<open>
  The result of a sending operation: its error, the bytes the kernel took, and the kernel
  answers not used. \<open>None\<close>: the operation is still blocked in a call.
\<close>

type_synonym sink_result = "(dterr \<times> byte list \<times> send_result list) option"

text \<open>\<open>DTERR_C(first); then\<close> on sending operations.\<close>

definition sink_then :: "sink_result \<Rightarrow> (send_result list \<Rightarrow> sink_result) \<Rightarrow> sink_result" where
  "sink_then r f =
     (case r of
        None \<Rightarrow> None
      | Some (Some e, out, ks) \<Rightarrow> Some (Some e, out, ks)
      | Some (None, out, ks) \<Rightarrow>
          (case f ks of None \<Rightarrow> None | Some (e, out', ks') \<Rightarrow> Some (e, out @ out', ks')))"

text \<open>
  \<open>kernel_takes ks n\<close>: the answers \<open>ks\<close> take \<open>n\<close> bytes without an error other than
  \<open>EINTR\<close>, and what is left of them.
\<close>

fun kernel_takes :: "send_result list \<Rightarrow> nat \<Rightarrow> send_result list option" where
  "kernel_takes ks 0 = Some ks"
| "kernel_takes [] (Suc n) = None"
| "kernel_takes (Sent k # ks) (Suc n) = (if 0 < k then kernel_takes ks (Suc n - k) else None)"
| "kernel_takes (SendErr e # ks) (Suc n) = (if e = EINTR then kernel_takes ks (Suc n) else None)"

text \<open>The contract of a send-everything loop.\<close>

locale byte_sink =
  fixes send_all :: "byte list \<Rightarrow> send_result list \<Rightarrow> sink_result"
  assumes sink_ok: "send_all buf ks = Some (None, out, ks') \<Longrightarrow> out = buf"
    and sink_err: "send_all buf ks = Some (Some e, out, ks') \<Longrightarrow>
      e = DTERR_IO \<and> (\<exists>rest. rest \<noteq> [] \<and> buf = out @ rest)"
    and sink_takes: "kernel_takes ks (length buf) = Some ks' \<Longrightarrow> send_all buf ks = Some (None, buf, ks')"
begin

lemma two_ok:
  assumes "sink_then (send_all h ks) (send_all b) = Some (None, out, ks')"
  shows "out = h @ b"
  using assms by (auto simp: sink_then_def dest: sink_ok split: option.splits prod.splits)

lemma two_err:
  assumes two: "sink_then (send_all h ks) (send_all b) = Some (Some e, out, ks')"
  shows "e = DTERR_IO \<and> (\<exists>rest. rest \<noteq> [] \<and> h @ b = out @ rest)"
proof (cases "send_all h ks")
  case None
  with two show ?thesis by (simp add: sink_then_def)
next
  case (Some r)
  obtain e1 o1 k1 where r: "r = (e1, o1, k1)" by (cases r)
  show ?thesis
  proof (cases e1)
    case (Some x)
    with \<open>send_all h ks = Some r\<close> r two have "send_all h ks = Some (Some e, out, ks')"
      by (simp add: sink_then_def)
    from sink_err [OF this] obtain rest where "e = DTERR_IO" "rest \<noteq> []" "h = out @ rest"
      by blast
    then show ?thesis by (intro conjI exI [of _ "rest @ b"]) simp_all
  next
    case None
    then have h: "send_all h ks = Some (None, o1, k1)"
      using \<open>send_all h ks = Some r\<close> r by simp
    with two obtain o2 where o2: "send_all b k1 = Some (Some e, o2, ks')" and out: "out = o1 @ o2"
      by (auto simp: sink_then_def split: option.splits)
    from sink_err [OF o2] obtain rest where "e = DTERR_IO" "rest \<noteq> []" "b = o2 @ rest"
      by blast
    then show ?thesis by (intro conjI exI [of _ rest]) (simp_all add: out sink_ok [OF h])
  qed
qed

lemma two_takes:
  assumes "kernel_takes ks (length h) = Some ks1" "kernel_takes ks1 (length b) = Some ks2"
  shows "sink_then (send_all h ks) (send_all b) = Some (None, h @ b, ks2)"
  using sink_takes [OF assms(1)] sink_takes [OF assms(2)] by (simp add: sink_then_def)

end

end
