(* ===== verification/WsHandshake.thy ===== *)
theory WsHandshake
  imports Sockets Sha1
begin

text \<open>
  The opening handshake of \<open>dtmc_linux_library/src/dtiox_linux_websocket.c\<close>: the base64 of a
  20-byte digest, the header search and token match on the request, the receive loop with its
  8192-byte buffer, and \<open>_do_websocket_handshake\<close>. Pointers into the request are the rest of
  the string from there. The kernel's answers to \<open>select\<close>, \<open>recv\<close> and \<open>send\<close> are
  scripts.
\<close>

section \<open>Sending\<close>

fun ws_send_all :: "byte list \<Rightarrow> send_result list \<Rightarrow> sink_result" where
  "ws_send_all [] ks = Some (None, [], ks)"
| "ws_send_all (b # buf) [] = None"
| "ws_send_all (b # buf) (Sent n # ks) =
     (if 0 < n then
        (case ws_send_all (drop n (b # buf)) ks of
           None \<Rightarrow> None
         | Some (e, out, ks') \<Rightarrow> Some (e, take n (b # buf) @ out, ks'))
      else Some (Some DTERR_IO, [], ks))"
| "ws_send_all (b # buf) (SendErr e # ks) =
     (if e = EINTR then ws_send_all (b # buf) ks else Some (Some DTERR_IO, [], ks))"

lemma ws_send_ok: "ws_send_all buf ks = Some (None, out, ks') \<Longrightarrow> out = buf"
proof (induction buf ks arbitrary: out rule: ws_send_all.induct)
  case (3 b buf n ks)
  then obtain out' where "0 < n" and o: "ws_send_all (drop n (b # buf)) ks = Some (None, out', ks')"
    and out: "out = take n (b # buf) @ out'"
    by (auto split: if_splits option.splits)
  from "3.IH" [OF \<open>0 < n\<close> o] have "out' = drop n (b # buf)" .
  then show ?case unfolding out by (simp only: append_take_drop_id)
qed (auto split: if_splits)

lemma ws_send_err:
  "ws_send_all buf ks = Some (Some e, out, ks') \<Longrightarrow>
     e = DTERR_IO \<and> (\<exists>rest. rest \<noteq> [] \<and> buf = out @ rest)"
proof (induction buf ks arbitrary: out rule: ws_send_all.induct)
  case (3 b buf n ks)
  show ?case
  proof (cases "0 < n")
    case False
    with "3.prems" show ?thesis by simp
  next
    case True
    with "3.prems" obtain out' where o: "ws_send_all (drop n (b # buf)) ks = Some (Some e, out', ks')"
      and out: "out = take n (b # buf) @ out'"
      by (auto split: option.splits)
    from "3.IH" [OF True o] obtain rest
      where r: "e = DTERR_IO" "rest \<noteq> []" "drop n (b # buf) = out' @ rest" by blast
    then have "b # buf = out @ rest"
      unfolding out by (metis append.assoc append_take_drop_id)
    with r show ?thesis by blast
  qed
qed (auto split: if_splits)

lemma ws_send_takes:
  "kernel_takes ks (length buf) = Some ks' \<Longrightarrow> ws_send_all buf ks = Some (None, buf, ks')"
proof (induction buf ks rule: ws_send_all.induct)
  case (3 b buf n ks)
  then have "0 < n" "kernel_takes ks (length (drop n (b # buf))) = Some ks'"
    by (auto split: if_splits)
  with "3.IH" show ?case by simp
qed (auto split: if_splits)

interpretation ws_sink: byte_sink ws_send_all
  by unfold_locales (fact ws_send_ok ws_send_err ws_send_takes)+

section \<open>Base64 of the digest\<close>

definition b64_tbl :: string where
  "b64_tbl = ''ABCDEFGHIJKLMNOPQRSTUVWXYZabcdefghijklmnopqrstuvwxyz0123456789+/''"

definition b64_char :: "u32 \<Rightarrow> char" where
  "b64_char v = b64_tbl ! unat (v AND 0x3F)"

definition base64_encode_20bytes :: "byte list \<Rightarrow> string" where
  "base64_encode_20bytes d =
     concat (map (\<lambda>i. let v = push_bit 16 (ucast (d ! i)) OR push_bit 8 (ucast (d ! (i + 1)))
                             OR ucast (d ! (i + 2))
                     in [b64_char (drop_bit 18 v), b64_char (drop_bit 12 v),
                         b64_char (drop_bit 6 v), b64_char v])
            [0, 3, 6, 9, 12, 15])
     @ (let v = push_bit 16 (ucast (d ! 18)) OR push_bit 8 (ucast (d ! 19))
        in [b64_char (drop_bit 18 v), b64_char (drop_bit 12 v), b64_char (drop_bit 6 v), CHR ''=''])"

text \<open>Base64 decoding as RFC 4648 states it, for one trailing pad character.\<close>

definition b64_val :: "char \<Rightarrow> u32 option" where
  "b64_val c = (if c \<in> set b64_tbl then Some (of_nat (length (takeWhile (\<lambda>x. x \<noteq> c) b64_tbl))) else None)"

definition join_sextets :: "u32 \<Rightarrow> u32 \<Rightarrow> u32 \<Rightarrow> u32 \<Rightarrow> u32" where
  "join_sextets x y z u = push_bit 18 x OR push_bit 12 y OR push_bit 6 z OR u"

fun base64_decode :: "string \<Rightarrow> byte list option" where
  "base64_decode [] = Some []"
| "base64_decode (a # b # c # d # s) =
     (case (b64_val a, b64_val b, b64_val c) of
        (Some x, Some y, Some z) \<Rightarrow>
          if d = CHR ''='' \<and> s = [] then
            (let v = join_sextets x y z 0
             in Some [ucast (drop_bit 16 v), ucast (drop_bit 8 v)])
          else
            (case (b64_val d, base64_decode s) of
               (Some u, Some r) \<Rightarrow>
                 (let v = join_sextets x y z u
                  in Some (ucast (drop_bit 16 v) # ucast (drop_bit 8 v) # ucast v # r))
             | _ \<Rightarrow> None)
      | _ \<Rightarrow> None)"
| "base64_decode s = None"

lemma b64_tbl_facts: "distinct b64_tbl" "length b64_tbl = 64" "CHR ''='' \<notin> set b64_tbl"
  by (simp_all add: b64_tbl_def)

lemma takeWhile_neq_nth:
  "distinct xs \<Longrightarrow> i < length xs \<Longrightarrow> length (takeWhile (\<lambda>x. x \<noteq> xs ! i) xs) = i"
proof (induction xs arbitrary: i)
  case (Cons x xs)
  then show ?case by (cases i) auto
qed simp

lemma and_3F_bound: "unat (v AND 0x3F :: u32) < 64"
proof -
  have "v AND 0x3F \<le> 0x3F" by (rule word_and_le1)
  then have "unat (v AND 0x3F) \<le> unat (0x3F :: u32)" by (rule word_le_nat_alt [THEN iffD1])
  then show ?thesis by simp
qed

lemma b64_char_mem: "b64_char v \<in> set b64_tbl"
  using and_3F_bound [of v] by (simp add: b64_char_def b64_tbl_facts)

lemma b64_char_neq_pad: "b64_char v \<noteq> CHR ''=''"
  using b64_char_mem [of v] b64_tbl_facts(3) by metis

lemma b64_val_char [simp]: "b64_val (b64_char v) = Some (v AND 0x3F)"
proof -
  have "length (takeWhile (\<lambda>x. x \<noteq> b64_char v) b64_tbl) = unat (v AND 0x3F)"
    unfolding b64_char_def
    by (rule takeWhile_neq_nth) (simp_all add: b64_tbl_facts and_3F_bound)
  then show ?thesis by (simp add: b64_val_def b64_char_mem)
qed

lemma mask6: "(0x3F :: u32) = mask 6"
  by (simp add: mask_eq_exp_minus_1)

text \<open>Four sextets of a 24-bit value put together again, and the bytes of such a value.\<close>

lemma sextets_join:
  fixes v :: u32
  assumes "\<And>n. bit v n \<Longrightarrow> n < 24"
  shows "push_bit 18 (drop_bit 18 v AND 0x3F) OR push_bit 12 (drop_bit 12 v AND 0x3F)
    OR push_bit 6 (drop_bit 6 v AND 0x3F) OR (v AND 0x3F) = v"
proof (rule bit_word_eqI)
  fix n assume "n < LENGTH(32)"
  then consider "n < 6" | "6 \<le> n" "n < 12" | "12 \<le> n" "n < 18" | "18 \<le> n" "n < 24" | "24 \<le> n"
    by fastforce
  then show "bit (push_bit 18 (drop_bit 18 v AND 0x3F) OR push_bit 12 (drop_bit 12 v AND 0x3F)
    OR push_bit 6 (drop_bit 6 v AND 0x3F) OR (v AND 0x3F)) n = bit v n"
    using assms [of n] \<open>n < LENGTH(32)\<close> unfolding mask6 by cases (auto simp: bit_simps)
qed

definition join3 :: "byte \<Rightarrow> byte \<Rightarrow> byte \<Rightarrow> u32" where
  "join3 a b c = push_bit 16 (ucast a) OR push_bit 8 (ucast b) OR ucast c"

lemma join3_bits: "bit (join3 a b c) n \<Longrightarrow> n < 24"
  using bit_imp_le_length [of a "n - 16"] bit_imp_le_length [of b "n - 8"] bit_imp_le_length [of c n]
  by (auto simp: join3_def bit_simps)

lemma join3_bytes:
  "ucast (drop_bit 16 (join3 a b c)) = a" "ucast (drop_bit 8 (join3 a b c)) = b"
  "ucast (join3 a b c) = c"
  by (rule bit_word_eqI, auto simp: join3_def bit_simps dest: bit_imp_le_length)+

lemma join3_sextets [simp]:
  "join_sextets (drop_bit 18 (join3 a b c) AND 0x3F) (drop_bit 12 (join3 a b c) AND 0x3F)
     (drop_bit 6 (join3 a b c) AND 0x3F) (join3 a b c AND 0x3F) = join3 a b c"
  unfolding join_sextets_def by (rule sextets_join) (rule join3_bits)

text \<open>The last group has two bytes; its fourth sextet is zero and is not written.\<close>

lemma join2_sextets [simp]:
  "join_sextets (drop_bit 18 (join3 a b 0) AND 0x3F) (drop_bit 12 (join3 a b 0) AND 0x3F)
     (drop_bit 6 (join3 a b 0) AND 0x3F) 0 = join3 a b 0"
proof -
  have "join3 a b 0 AND 0x3F = 0"
    unfolding mask6 by (rule bit_word_eqI) (auto simp: join3_def bit_simps)
  then show ?thesis using join3_sextets [of a b 0] by simp
qed

definition group3 :: "byte \<Rightarrow> byte \<Rightarrow> byte \<Rightarrow> string" where
  "group3 a b c = [b64_char (drop_bit 18 (join3 a b c)), b64_char (drop_bit 12 (join3 a b c)),
                   b64_char (drop_bit 6 (join3 a b c)), b64_char (join3 a b c)]"

lemma decode_group3: "base64_decode (group3 a b c @ s) = map_option (\<lambda>r. a # b # c # r) (base64_decode s)"
  by (simp add: group3_def b64_char_neq_pad join3_bytes Let_def split: option.split)

lemma encode_groups:
  "base64_encode_20bytes [d0, d1, d2, d3, d4, d5, d6, d7, d8, d9, d10, d11, d12, d13, d14, d15, d16,
     d17, d18, d19] =
   group3 d0 d1 d2 @ group3 d3 d4 d5 @ group3 d6 d7 d8 @ group3 d9 d10 d11 @ group3 d12 d13 d14 @
   group3 d15 d16 d17 @
   [b64_char (drop_bit 18 (join3 d18 d19 0)), b64_char (drop_bit 12 (join3 d18 d19 0)),
    b64_char (drop_bit 6 (join3 d18 d19 0)), CHR ''='']"
  by (simp add: base64_encode_20bytes_def group3_def join3_def Let_def eval_nat_numeral)

lemma length20_cases:
  assumes "length d = 20"
  obtains d0 d1 d2 d3 d4 d5 d6 d7 d8 d9 d10 d11 d12 d13 d14 d15 d16 d17 d18 d19
  where "d = [d0, d1, d2, d3, d4, d5, d6, d7, d8, d9, d10, d11, d12, d13, d14, d15, d16, d17, d18, d19]"
  using assms by (auto simp: numeral_eq_Suc length_Suc_conv)

lemma base64_round:
  assumes "length d = 20"
  shows "base64_decode (base64_encode_20bytes d) = Some d" "length (base64_encode_20bytes d) = 28"
proof -
  from assms obtain d0 d1 d2 d3 d4 d5 d6 d7 d8 d9 d10 d11 d12 d13 d14 d15 d16 d17 d18 d19
    where d: "d = [d0, d1, d2, d3, d4, d5, d6, d7, d8, d9, d10, d11, d12, d13, d14, d15, d16, d17, d18, d19]"
    by (rule length20_cases)
  show "base64_decode (base64_encode_20bytes d) = Some d"
    unfolding d encode_groups decode_group3
    by (simp add: Let_def join3_bytes)
  show "length (base64_encode_20bytes d) = 28"
    unfolding d encode_groups by (simp add: group3_def)
qed


section \<open>Headers\<close>

text \<open>\<open>_find_header_value\<close>: the rest of the request from the header's value on.\<close>

function ws_find_header_value :: "string \<Rightarrow> string \<Rightarrow> string option" where
  "ws_find_header_value p hdr =
     (if p = [] then None
      else
        let line_end = strstr p CRLF;
            line_len = (case line_end of Some k \<Rightarrow> k | None \<Rightarrow> length p)
        in if line_len = 0 then None
           else if length hdr < line_len \<and> strncaseeq p hdr (length hdr) \<and> p ! length hdr = CHR '':''
           then Some (skip_blanks (drop (length hdr + 1) p))
           else (case line_end of
                   None \<Rightarrow> None
                 | Some k \<Rightarrow> ws_find_header_value (drop (k + 2) p) hdr))"
  by pat_completeness auto
termination
  by (relation "measure (\<lambda>(p, hdr). length p)") auto

declare ws_find_header_value.simps [simp del]

text \<open>
  On a request in lines the search is a search among the header lines: the first match decides
  and nothing behind the blank line is looked at.
\<close>

lemma ws_find_line:
  assumes "wf_line l"
  shows "ws_find_header_value (l @ CRLF @ rest) hdr =
    (if header_match hdr l then Some (skip_blanks (drop (length hdr + 1) l @ CRLF @ rest))
     else ws_find_header_value rest hdr)"
proof -
  from assms have cr: "CR \<notin> set l" and ne: "l \<noteq> []" by (simp_all add: wf_line_def)
  show ?thesis
    using ne drop_line [of l rest]
    by (subst ws_find_header_value.simps, cases "length hdr < length l")
      (simp_all add: strstr_line [OF cr] header_match_def strncaseeq_append nth_append Let_def)
qed

lemma ws_find_blank: "ws_find_header_value (CRLF @ body) hdr = None"
  using strstr_line [of "[]" body]
  by (subst ws_find_header_value.simps) simp

lemma ws_find_lines:
  "list_all wf_line ls \<Longrightarrow>
     (ws_find_header_value (lines_of ls @ CRLF @ body) hdr \<noteq> None) = list_ex (header_match hdr) ls"
  by (induction ls) (simp_all add: ws_find_line ws_find_blank)

text \<open>The token scan: characters up to the end, a comma or a line end.\<close>

fun span_token :: "string \<Rightarrow> string \<times> string" where
  "span_token [] = ([], [])"
| "span_token (c # s) =
     (if c = CHR '','' \<or> prefix CRLF (c # s) then ([], c # s)
      else (c # fst (span_token s), snd (span_token s)))"

definition is_sep :: "char \<Rightarrow> bool" where
  "is_sep c \<longleftrightarrow> c = SP \<or> c = TAB \<or> c = CHR '',''"

definition skip_comma :: "string \<Rightarrow> string" where
  "skip_comma p = (case p of [] \<Rightarrow> [] | c # s \<Rightarrow> if c = CHR '','' then s else p)"

lemma length_span_token: "length (snd (span_token s)) \<le> length s"
  by (induction s rule: span_token.induct) auto

lemma length_skip_comma: "length (skip_comma p) \<le> length p"
  by (cases p) (auto simp: skip_comma_def)

lemma token_progress:
  assumes "\<not> at_eol p"
  shows "length (skip_comma (snd (span_token (dropWhile is_sep p)))) < length p"
proof (cases p)
  case Nil
  with assms show ?thesis by (simp add: at_eol_def)
next
  case (Cons c s)
  show ?thesis
  proof (cases "is_sep c")
    case True
    then have "length (dropWhile is_sep p) < length p"
      using Cons by (simp add: less_Suc_eq_le length_dropWhile_le)
    then show ?thesis
      using length_span_token [of "dropWhile is_sep p"] length_skip_comma
      by (meson le_less_trans order_trans)
  next
    case False
    then have "length (snd (span_token (dropWhile is_sep p))) < length p"
      using Cons assms length_span_token [of s]
      by (auto simp: is_sep_def at_eol_def less_Suc_eq_le)
    then show ?thesis using length_skip_comma by (meson le_less_trans)
  qed
qed

function value_contains_token :: "string \<Rightarrow> string \<Rightarrow> bool" where
  "value_contains_token p token =
     (if at_eol p then False
      else
        let (start, rest) = span_token (dropWhile is_sep p);
            tok = trim_right start
        in if length tok = length token \<and> strncaseeq tok token (length token) then True
           else value_contains_token (skip_comma rest) token)"
  by pat_completeness auto
termination
proof (relation "measure (\<lambda>(p, token). length p)", goal_cases)
  case (2 p token x start rest tok)
  then have "rest = snd (span_token (dropWhile is_sep p))" by (metis snd_conv)
  with 2 show ?case using token_progress [of p] by simp
qed simp

declare value_contains_token.simps [simp del]

text \<open>\<open>line_value\<close> may be NULL.\<close>

definition header_value_contains_token :: "string option \<Rightarrow> string \<Rightarrow> bool" where
  "header_value_contains_token line_value token =
     (case line_value of None \<Rightarrow> False | Some p \<Rightarrow> value_contains_token p token)"

section \<open>Receiving the request\<close>

datatype select_result = SelReady | SelTimeout | SelErr errno

text \<open>
  \<open>_recv_http_upgrade_request\<close> with the bytes received so far. The result is the error or
  the request buffer; \<open>None\<close> is still waiting for the kernel. \<open>recv\<close> returns at most the room
  it is offered.
\<close>

function recv_upgrade_loop ::
  "int \<Rightarrow> nat \<Rightarrow> string \<Rightarrow> select_result list \<Rightarrow> recv_result list \<Rightarrow> (errcode + string) option" where
  "recv_upgrade_loop timeout_ms cap buf sels recvs =
     (if strstr (cstr buf) (CRLF @ CRLF) \<noteq> None then Some (Inr buf)
      else if cap \<le> length buf + 1 then Some (Inl DTERR_IO)
      else if 0 < timeout_ms \<and> sels = [] then None
      else if 0 < timeout_ms \<and> hd sels = SelTimeout then Some (Inl DTERR_TIMEOUT)
      else if 0 < timeout_ms \<and> hd sels = SelErr EINTR then
        recv_upgrade_loop timeout_ms cap buf (tl sels) recvs
      else if 0 < timeout_ms \<and> hd sels \<noteq> SelReady then Some (Inl DTERR_IO)
      else
        let sels' = (if 0 < timeout_ms then tl sels else sels) in
        (case recvs of
           [] \<Rightarrow> None
         | Recvd d # recvs' \<Rightarrow>
             if d = [] then Some (Inl DTERR_IO)
             else recv_upgrade_loop timeout_ms cap (buf @ take (cap - length buf - 1) d) sels' recvs'
         | RecvErr e # recvs' \<Rightarrow>
             if e = EINTR then recv_upgrade_loop timeout_ms cap buf sels' recvs'
             else Some (Inl DTERR_IO)))"
  by pat_completeness auto
termination
  by (relation "measure (\<lambda>(t, s, b, sels, recvs). length sels + length recvs)")
    (auto simp: neq_Nil_conv)

declare recv_upgrade_loop.simps [simp del]

text \<open>\<open>out_request\<close> is \<open>None\<close> for a NULL buffer.\<close>

definition recv_http_upgrade_request ::
  "int \<Rightarrow> nat option \<Rightarrow> select_result list \<Rightarrow> recv_result list \<Rightarrow> (errcode + string) option" where
  "recv_http_upgrade_request timeout_ms out_request_size sels recvs =
     (case out_request_size of
        None \<Rightarrow> Some (Inl DTERR_BADARG)
      | Some cap \<Rightarrow>
          if cap < 8 then Some (Inl DTERR_BADARG)
          else recv_upgrade_loop timeout_ms cap [] sels recvs)"

lemma recv_upgrade_bounds:
  "recv_upgrade_loop t cap buf sels recvs = Some (Inr req) \<Longrightarrow> length buf < cap \<Longrightarrow>
     length req < cap \<and> sublist (CRLF @ CRLF) (cstr req)"
proof (induction "length sels + length recvs" arbitrary: buf sels recvs rule: less_induct)
  case less
  have IH: "recv_upgrade_loop t cap b s r = Some (Inr req) \<Longrightarrow> length b < cap \<Longrightarrow>
      length s + length r < length sels + length recvs \<Longrightarrow>
      length req < cap \<and> sublist (CRLF @ CRLF) (cstr req)" for b s r
    by (rule less.hyps)
  show ?case
  proof (cases "strstr (cstr buf) (CRLF @ CRLF) \<noteq> None")
    case True
    with less.prems show ?thesis
      by (subst (asm) recv_upgrade_loop.simps) (auto simp: strstr_None)
  next
    case False
    with less.prems(1) show ?thesis
      by (subst (asm) recv_upgrade_loop.simps)
        (auto simp: Let_def neq_Nil_conv split: if_splits list.splits recv_result.splits
          dest!: IH)
  qed
qed


section \<open>The handshake\<close>

definition WS_GUID :: string where
  "WS_GUID = ''258EAFA5-E914-47DA-95CA-C5AB0DC85B11''"

text \<open>The key is copied up to the line end, at most 255 characters, then trimmed on the right.\<close>

fun key_chars :: "nat \<Rightarrow> string \<Rightarrow> string" where
  "key_chars n [] = []"
| "key_chars n (c # s) =
     (if prefix CRLF (c # s) \<or> n = 0 then [] else c # key_chars (n - 1) s)"

definition trim_key :: "string \<Rightarrow> string" where
  "trim_key sec_key = trim_right (key_chars 255 sec_key)"

definition accept_response :: "string \<Rightarrow> string" where
  "accept_response accept_b64 =
     ''HTTP/1.1 101 Switching Protocols'' @ CRLF @
     ''Upgrade: websocket'' @ CRLF @
     ''Connection: Upgrade'' @ CRLF @
     ''Sec-WebSocket-Accept: '' @ accept_b64 @ CRLF @
     CRLF"

definition do_websocket_handshake ::
  "dtsha1_ctx_t \<Rightarrow> int \<Rightarrow> select_result list \<Rightarrow> recv_result list \<Rightarrow> send_result list \<Rightarrow> sink_result" where
  "do_websocket_handshake ctx0 timeout_ms sels recvs ks =
     (case recv_http_upgrade_request timeout_ms (Some 8192) sels recvs of
        None \<Rightarrow> None
      | Some (Inl e) \<Rightarrow> Some (Some e, [], ks)
      | Some (Inr buf) \<Rightarrow>
          let request = cstr buf;
              upgrade = ws_find_header_value request ''Upgrade'';
              connection = ws_find_header_value request ''Connection'';
              sec_key = ws_find_header_value request ''Sec-WebSocket-Key''
          in if \<not> prefix ''GET '' request then Some (Some DTERR_IO, [], ks)
             else if upgrade = None \<or> \<not> header_value_contains_token upgrade ''websocket''
             then Some (Some DTERR_IO, [], ks)
             else if connection = None \<or> \<not> header_value_contains_token connection ''Upgrade''
             then Some (Some DTERR_IO, [], ks)
             else (case sec_key of
                     None \<Rightarrow> Some (Some DTERR_IO, [], ks)
                   | Some key \<Rightarrow>
                       let sha1_input = trim_key key @ WS_GUID in
                       if 512 \<le> length sha1_input then Some (Some DTERR_IO, [], ks)
                       else (case dtsha1_compute ctx0 (Some (bytes_of sha1_input)) of
                               None \<Rightarrow> None
                             | Some digest \<Rightarrow>
                                 let response = take 511 (accept_response (base64_encode_20bytes digest))
                                 in ws_send_all (bytes_of response) ks)))"

lemma length_key_chars: "length (key_chars n s) \<le> n"
  by (induction n s rule: key_chars.induct) auto

lemma length_trim_key: "length (trim_key s) \<le> 255"
  using length_trim_right [of "key_chars 255 s"] length_key_chars [of 255 s]
  by (simp add: trim_key_def)

lemma key_never_too_long: "length (trim_key key @ WS_GUID) < 512"
  using length_trim_key [of key] by (simp add: WS_GUID_def)

lemma response_fits:
  assumes "length d = 20"
  shows "take 511 (accept_response (base64_encode_20bytes d)) = accept_response (base64_encode_20bytes d)"
proof -
  have "length (accept_response (base64_encode_20bytes d)) = 129"
    using base64_round(2) [OF assms] by (simp add: accept_response_def CRLF_def)
  then show ?thesis by simp
qed

text \<open>What a request must contain for the handshake to answer it.\<close>

definition upgrade_key :: "string \<Rightarrow> string option" where
  "upgrade_key request =
     (if prefix ''GET '' request
       \<and> header_value_contains_token (ws_find_header_value request ''Upgrade'') ''websocket''
       \<and> header_value_contains_token (ws_find_header_value request ''Connection'') ''Upgrade''
      then map_option trim_key (ws_find_header_value request ''Sec-WebSocket-Key'') else None)"

definition accept_bytes :: "string \<Rightarrow> byte list" where
  "accept_bytes key =
     bytes_of (accept_response (base64_encode_20bytes (sha1_spec (bytes_of (key @ WS_GUID)))))"

lemma token_None [simp]: "\<not> header_value_contains_token None t"
  by (simp add: header_value_contains_token_def)

lemma handshake_cases:
  assumes ctx: "length (ctx_buffer ctx0) = 64"
  shows "do_websocket_handshake ctx0 t sels recvs ks =
    (case recv_http_upgrade_request t (Some 8192) sels recvs of
       None \<Rightarrow> None
     | Some (Inl e) \<Rightarrow> Some (Some e, [], ks)
     | Some (Inr buf) \<Rightarrow>
         (case upgrade_key (cstr buf) of
            None \<Rightarrow> Some (Some DTERR_IO, [], ks)
          | Some key \<Rightarrow> ws_send_all (accept_bytes key) ks))"
proof -
  have short: "\<not> 512 \<le> length (trim_key key @ WS_GUID)" for key
    using key_never_too_long [of key] by linarith
  show ?thesis
    unfolding do_websocket_handshake_def upgrade_key_def accept_bytes_def
    by (auto simp: Let_def compute_spec [OF ctx] response_fits short
        simp del: length_append not_le split: option.split sum.split)
qed

end
