(* ===== verification/Websocket.thy ===== *)
theory Websocket
  imports WsHandshake
begin

text \<open>
  The rest of \<open>dtmc_linux_library/src/dtiox_linux_websocket.c\<close>: binary frames, and the
  \<open>dtiox\<close> operations of the one-client server on the fields of \<open>dtiox_linux_websocket_t\<close>
  and the open descriptors of the process. An operation is \<open>None\<close> where it does not return:
  it is blocked in a call, or it reads outside the caller's buffer.
\<close>

section \<open>Binary frames\<close>

definition ws_frame_header :: "u64 \<Rightarrow> byte list" where
  "ws_frame_header payload_len =
     (if payload_len \<le> 125 then [0x82, ucast payload_len]
      else if payload_len \<le> 0xFFFF then
        [0x82, 126, ucast (drop_bit 8 payload_len AND 0xFF), ucast (payload_len AND 0xFF)]
      else 0x82 # 127 # store_be64 payload_len)"

definition send_ws_binary_frame :: "byte list \<Rightarrow> u64 \<Rightarrow> send_result list \<Rightarrow> sink_result" where
  "send_ws_binary_frame buf payload_len ks =
     sink_then (ws_send_all (ws_frame_header payload_len) ks)
       (\<lambda>ks'. if 0 < payload_len then
                 if unat payload_len \<le> length buf then ws_send_all (take (unat payload_len) buf) ks'
                 else None
               else Some (None, [], ks'))"

text \<open>
  The receiver of RFC 6455: final binary frame, no mask, shortest length encoding. The result is
  the payload and the bytes behind the frame.
\<close>

definition load_be64 :: "byte list \<Rightarrow> u64" where
  "load_be64 p = push_bit 32 (ucast (load_be32 p)) OR ucast (load_be32 (drop 4 p))"

definition take_payload :: "nat \<Rightarrow> byte list \<Rightarrow> (byte list \<times> byte list) option" where
  "take_payload n s = (if n \<le> length s then Some (take n s, drop n s) else None)"

definition ws_decode :: "byte list \<Rightarrow> (byte list \<times> byte list) option" where
  "ws_decode s =
     (case s of
        b0 # b1 # r \<Rightarrow>
          if b0 \<noteq> 0x82 then None
          else if b1 \<le> 125 then take_payload (unat b1) r
          else if b1 = 126 then
            (case r of
               h # l # r' \<Rightarrow>
                 (let n = unat h * 256 + unat l in if n \<le> 125 then None else take_payload n r')
             | _ \<Rightarrow> None)
          else if b1 = 127 then
            (if length r < 8 then None
             else let n = unat (load_be64 r) in
                  if n \<le> 65535 then None else take_payload n (drop 8 r))
          else None
      | _ \<Rightarrow> None)"

lemma load_store_be64: "load_be64 (store_be64 x @ s) = x"
proof -
  have "store_be64 x = store_be32 (ucast (drop_bit 32 x)) @ store_be32 (ucast x)"
    unfolding store_be64_def store_be32_def
    by (simp, intro conjI; rule bit_word_eqI; simp add: bit_simps bit_255; linarith?)
  then have "load_be64 (store_be64 x @ s) = push_bit 32 (ucast (ucast (drop_bit 32 x) :: u32)) OR ucast (ucast x :: u32)"
    using load_store_be32 [of "ucast (drop_bit 32 x)"] load_store_be32 [of "ucast x"]
    by (simp add: load_be64_def load_be32_def store_be32_def)
  also have "\<dots> = x"
    by (rule bit_word_eqI) (auto simp: bit_simps dest: bit_imp_le_length)
  finally show ?thesis .
qed

lemma byte_mask: "(ucast (x AND 0xFF) :: byte) = ucast (x :: u64)"
  by (rule bit_word_eqI) (auto simp: bit_simps bit_255)

lemma unat_byte: "unat (ucast (x :: u64) :: byte) = unat x mod 256"
  by (simp add: unsigned_ucast_eq take_bit_eq_mod)

lemma unat_shift8: "unat (drop_bit 8 (x :: u64)) = unat x div 256"
  by (simp add: drop_bit_eq_div unat_div_distrib)

lemma take_payload_append [simp]: "n = length p \<Longrightarrow> take_payload n (p @ s) = Some (p, s)"
  by (simp add: take_payload_def)

lemma ws_decode_frame:
  assumes "length p < 2 ^ 64"
  shows "ws_decode (ws_frame_header (of_nat (length p)) @ p @ s) = Some (p, s)"
proof -
  define n :: u64 where "n = of_nat (length p)"
  have un: "unat n = length p"
    using assms by (simp add: n_def unsigned_of_nat take_bit_nat_eq_self)
  consider (short) "n \<le> 125" | (mid) "\<not> n \<le> 125" "n \<le> 0xFFFF" | (long) "\<not> n \<le> 125" "\<not> n \<le> 0xFFFF"
    by blast
  then show ?thesis
  proof cases
    case short
    then have l: "length p \<le> 125" by (simp add: un word_le_nat_alt)
    then have "unat (ucast n :: byte) = length p"
      unfolding unat_byte un by simp
    with short l show ?thesis
      by (simp add: ws_frame_header_def ws_decode_def word_le_nat_alt flip: n_def)
  next
    case mid
    then have l: "125 < length p" "length p \<le> 65535" by (simp_all add: un word_le_nat_alt)
    have h: "unat (ucast (drop_bit 8 n AND 0xFF) :: byte) = length p div 256"
      using l unfolding byte_mask unat_byte unat_shift8 un by simp
    have lo: "unat (ucast (n AND 0xFF) :: byte) = length p mod 256"
      unfolding byte_mask unat_byte un ..
    from mid l show ?thesis
      by (simp add: ws_frame_header_def ws_decode_def h lo Let_def flip: n_def)
  next
    case long
    then have "65535 < length p" by (simp add: un word_le_nat_alt)
    with long show ?thesis
      by (simp add: ws_frame_header_def ws_decode_def load_store_be64 Let_def un flip: n_def)
        (simp add: store_be64_def)
  qed
qed


section \<open>The object\<close>

record ws_config =
  wc_local_bind_host :: "string option"
  wc_local_bind_port :: int
  wc_keepalive :: bool
  wc_tcp_nodelay :: bool
  wc_handshake_timeout_ms :: int

record dtiox_linux_websocket_t =
  ws_model_number :: int
  ws_is_malloced :: bool
  ws_cfg :: ws_config
  ws_listen_fd :: fd
  ws_client_fd :: fd
  ws_is_connected :: bool
  ws_write_enabled :: bool

text \<open>
  What the kernel answers while a listening socket is opened and a client accepted: the
  addresses (\<open>None\<close>: \<open>getaddrinfo\<close> failed), \<open>listen\<close>, the descriptor \<open>accept\<close> returned,
  and the two socket options.
\<close>

record listen_env =
  le_tries :: "addr_try list option"
  le_listen_ok :: bool
  le_accept :: fd
  le_keepalive_ok :: bool
  le_nodelay_ok :: bool

definition zero_ws_config :: ws_config where
  "zero_ws_config = \<lparr>wc_local_bind_host = None, wc_local_bind_port = 0, wc_keepalive = False,
                      wc_tcp_nodelay = False, wc_handshake_timeout_ms = 0\<rparr>"

text \<open>
  \<open>dtiox_linux_websocket_init\<close>: the model number is a constant of dtmc_base; \<open>reg1\<close> and
  \<open>reg2\<close> are what the registrations of the two vtables return.
\<close>

definition ws_init :: "int \<Rightarrow> dterr \<Rightarrow> dterr \<Rightarrow> dterr \<times> dtiox_linux_websocket_t" where
  "ws_init model reg1 reg2 =
     (let self = \<lparr>ws_model_number = model, ws_is_malloced = False, ws_cfg = zero_ws_config,
                  ws_listen_fd = -1, ws_client_fd = -1, ws_is_connected = False,
                  ws_write_enabled = True\<rparr>
      in (if reg1 \<noteq> None then reg1 else reg2, self))"

text \<open>\<open>malloc_ok\<close>: did \<open>malloc\<close> return storage?\<close>

definition ws_create :: "bool \<Rightarrow> int \<Rightarrow> dterr \<Rightarrow> dterr \<Rightarrow> dterr \<times> dtiox_linux_websocket_t option" where
  "ws_create malloc_ok model reg1 reg2 =
     (if \<not> malloc_ok then (Some DTERR_NOMEM, None)
      else case ws_init model reg1 reg2 of
             (Some e, self) \<Rightarrow> (Some e, None)
           | (None, self) \<Rightarrow> (None, Some (self\<lparr>ws_is_malloced := True\<rparr>)))"

definition ws_configure :: "dtiox_linux_websocket_t \<Rightarrow> ws_config \<Rightarrow> dterr \<times> dtiox_linux_websocket_t" where
  "ws_configure self cfg =
     (if wc_local_bind_port cfg \<le> 0 \<or> 65535 < wc_local_bind_port cfg then (Some DTERR_BADARG, self)
      else (None, self\<lparr>ws_cfg := (if wc_local_bind_host cfg = None
                                  then cfg\<lparr>wc_local_bind_host := Some ''0.0.0.0''\<rparr> else cfg)\<rparr>))"

definition ws_set_socket_common_options :: "listen_env \<Rightarrow> ws_config \<Rightarrow> dterr" where
  "ws_set_socket_common_options env cfg =
     (if wc_keepalive cfg \<and> \<not> le_keepalive_ok env then Some DTERR_IO
      else if wc_tcp_nodelay cfg \<and> \<not> le_nodelay_ok env then Some DTERR_IO
      else None)"

text \<open>
  \<open>_bind_listen_accept\<close>: the error, the two output descriptors (-1 where not set) and the
  descriptors open afterwards.
\<close>

definition bind_listen_accept ::
  "dtiox_linux_websocket_t \<Rightarrow> listen_env \<Rightarrow> fd list \<Rightarrow> dterr \<times> fd \<times> fd \<times> fd list" where
  "bind_listen_accept self env fds =
     (if wc_local_bind_port (ws_cfg self) \<le> 0 \<or> 65535 < wc_local_bind_port (ws_cfg self)
      then (Some DTERR_BADARG, -1, -1, fds)
      else if 0 \<le> ws_listen_fd self then
        (if le_accept env < 0 then (Some DTERR_IO, -1, -1, fds)
         else case ws_set_socket_common_options env (ws_cfg self) of
                Some e \<Rightarrow> (Some e, -1, -1, snd (close_if_open (le_accept env) (le_accept env # fds)))
              | None \<Rightarrow> (None, ws_listen_fd self, le_accept env, le_accept env # fds))
      else
        (case le_tries env of
           None \<Rightarrow> (Some DTERR_IO, -1, -1, fds)
         | Some ts \<Rightarrow>
             (case bind_loop (-1) ts fds of
                (Some e, lfd, fds1) \<Rightarrow> (Some e, -1, -1, snd (close_if_open lfd fds1))
              | (None, lfd, fds1) \<Rightarrow>
                  if lfd < 0 then (Some DTERR_IO, -1, -1, fds1)
                  else if \<not> le_listen_ok env then (Some DTERR_IO, -1, -1, snd (close_if_open lfd fds1))
                  else if le_accept env < 0 then (Some DTERR_IO, -1, -1, snd (close_if_open lfd fds1))
                  else (case ws_set_socket_common_options env (ws_cfg self) of
                          Some e \<Rightarrow> (Some e, -1, -1,
                            snd (close_if_open lfd (snd (close_if_open (le_accept env) (le_accept env # fds1)))))
                        | None \<Rightarrow> (None, lfd, le_accept env, le_accept env # fds1)))))"

definition ws_attach ::
  "dtiox_linux_websocket_t \<Rightarrow> listen_env \<Rightarrow> dtsha1_ctx_t \<Rightarrow> select_result list \<Rightarrow> recv_result list
     \<Rightarrow> send_result list \<Rightarrow> fd list \<Rightarrow> (dterr \<times> dtiox_linux_websocket_t \<times> byte list \<times> fd list) option" where
  "ws_attach self env ctx0 sels recvs ks fds =
     (if 0 \<le> ws_client_fd self then Some (None, self, [], fds)
      else case bind_listen_accept self env fds of
        (Some e, lfd, cfd, fds1) \<Rightarrow>
          Some (Some e, self, [], snd (close_if_open lfd (snd (close_if_open cfd fds1))))
      | (None, lfd, cfd, fds1) \<Rightarrow>
          (case do_websocket_handshake ctx0 (wc_handshake_timeout_ms (ws_cfg self)) sels recvs ks of
             None \<Rightarrow> None
           | Some (Some e, out, _) \<Rightarrow>
               Some (Some e, self, out, snd (close_if_open lfd (snd (close_if_open cfd fds1))))
           | Some (None, out, _) \<Rightarrow>
               Some (None, self\<lparr>ws_listen_fd := lfd, ws_client_fd := cfd, ws_is_connected := True\<rparr>,
                     out, fds1)))"

definition ws_detach :: "dtiox_linux_websocket_t \<Rightarrow> fd list \<Rightarrow> dterr \<times> dtiox_linux_websocket_t \<times> fd list" where
  "ws_detach self fds =
     (let (c, fds1) = close_if_open (ws_client_fd self) fds;
          (l, fds2) = close_if_open (ws_listen_fd self) fds1
      in (None, self\<lparr>ws_is_connected := False, ws_client_fd := c, ws_listen_fd := l\<rparr>, fds2))"

definition ws_enable :: "dtiox_linux_websocket_t \<Rightarrow> bool \<Rightarrow> dterr \<times> dtiox_linux_websocket_t" where
  "ws_enable self enabled = (None, self\<lparr>ws_write_enabled := enabled\<rparr>)"

text \<open>\<open>out_read\<close> is 0, the error is \<open>DTERR_NOTIMPL\<close>.\<close>

definition ws_read :: "dtiox_linux_websocket_t \<Rightarrow> dterr \<times> int" where
  "ws_read self = (Some DTERR_NOTIMPL, 0)"

text \<open>
  \<open>dtiox_linux_websocket_write\<close> of \<open>len\<close> bytes of \<open>buf\<close>. \<open>probe\<close> is the result of
  \<open>recv(MSG_PEEK | MSG_DONTWAIT)\<close>. The result: error, object, \<open>*out_written\<close>, bytes on the
  wire, open descriptors.
\<close>

definition ws_write ::
  "dtiox_linux_websocket_t \<Rightarrow> byte list \<Rightarrow> int \<Rightarrow> int \<Rightarrow> send_result list \<Rightarrow> fd list
     \<Rightarrow> (dterr \<times> dtiox_linux_websocket_t \<times> int \<times> byte list \<times> fd list) option" where
  "ws_write self buf len probe ks fds =
     (let fail = (\<lambda>e out.
            let (c, fds1) = close_if_open (ws_client_fd self) fds
            in Some (Some e, self\<lparr>ws_is_connected := False, ws_client_fd := c\<rparr>, 0, out, fds1))
      in if \<not> ws_write_enabled self then Some (None, self, 0, [], fds)
         else if ws_client_fd self < 0 \<or> \<not> ws_is_connected self
         then Some (Some DTERR_IO, self, 0, [], fds)
         else if 0 \<le> probe then fail DTERR_IO []
         else (case send_ws_binary_frame buf (word_of_int len) ks of
                 None \<Rightarrow> None
               | Some (Some e, out, _) \<Rightarrow> fail e out
               | Some (None, out, _) \<Rightarrow> Some (None, self, len, out, fds)))"

definition ws_dispose :: "dtiox_linux_websocket_t option \<Rightarrow> fd list \<Rightarrow> fd list" where
  "ws_dispose self fds =
     (case self of
        None \<Rightarrow> fds
      | Some s \<Rightarrow> snd (close_if_open (ws_listen_fd s) (snd (close_if_open (ws_client_fd s) fds))))"

definition ws_equals :: "dtiox_linux_websocket_t option \<Rightarrow> dtiox_linux_websocket_t option \<Rightarrow> bool" where
  "ws_equals a b =
     (case (a, b) of
        (Some x, Some y) \<Rightarrow>
          if ws_model_number x \<noteq> ws_model_number y then False
          else case_option [] id (wc_local_bind_host (ws_cfg x)) = case_option [] id (wc_local_bind_host (ws_cfg y))
            \<and> wc_local_bind_port (ws_cfg x) = wc_local_bind_port (ws_cfg y)
            \<and> wc_keepalive (ws_cfg x) = wc_keepalive (ws_cfg y)
            \<and> wc_tcp_nodelay (ws_cfg x) = wc_tcp_nodelay (ws_cfg y)
      | _ \<Rightarrow> False)"


section \<open>Descriptors of the object\<close>

text \<open>
  The object is connected exactly when it holds a client descriptor, and the descriptors it
  holds are open and distinct.
\<close>

definition ws_inv :: "dtiox_linux_websocket_t \<Rightarrow> fd list \<Rightarrow> bool" where
  "ws_inv self fds \<longleftrightarrow>
     (ws_is_connected self = (0 \<le> ws_client_fd self)) \<and>
     (0 \<le> ws_client_fd self \<longrightarrow> ws_client_fd self \<in> set fds \<and> ws_client_fd self \<noteq> ws_listen_fd self) \<and>
     (0 \<le> ws_listen_fd self \<longrightarrow> ws_listen_fd self \<in> set fds)"

definition env_fresh :: "listen_env \<Rightarrow> fd list \<Rightarrow> bool" where
  "env_fresh env fds \<longleftrightarrow> le_accept env \<notin> set fds \<and>
     (case le_tries env of None \<Rightarrow> True
      | Some ts \<Rightarrow> fresh_tries ts fds \<and> list_all (\<lambda>t. at_sock t \<noteq> le_accept env) ts)"

lemma bind_listen_accept_new:
  assumes fr: "env_fresh env fds" and l: "ws_listen_fd self < 0"
    and res: "bind_listen_accept self env fds = (e, lfd, cfd, fds')"
  shows "if e = None then 0 \<le> lfd \<and> 0 \<le> cfd \<and> lfd \<noteq> cfd \<and> fds' = cfd # lfd # fds
           \<and> lfd \<notin> set fds \<and> cfd \<notin> set fds
         else lfd = -1 \<and> cfd = -1 \<and> fds' = fds"
proof (cases "le_tries env")
  case None
  with res l show ?thesis by (auto simp: bind_listen_accept_def split: if_splits)
next
  case (Some ts)
  obtain e1 s fds1 where bl: "bind_loop (-1) ts fds = (e1, s, fds1)" by (metis prod_cases3)
  from fr Some have ft: "fresh_tries ts fds" and ac: "le_accept env \<notin> set fds"
    and na: "\<forall>t \<in> set ts. at_sock t \<noteq> le_accept env"
    by (auto simp: env_fresh_def list_all_iff)
  from bind_loop_fds [OF ft _ bl] have f1: "if 0 \<le> s then fds1 = s # fds \<and> s \<notin> set fds else fds1 = fds \<and> e1 = None"
    by simp
  from bind_loop_sock [OF bl] na have "0 \<le> s \<Longrightarrow> s \<noteq> le_accept env" by force
  with res l Some bl f1 ac show ?thesis
    by (cases e1; cases "ws_set_socket_common_options env (ws_cfg self)")
      (auto simp: bind_listen_accept_def close_if_open_def dest!: sym [of "Some _"] split: if_splits)
qed

lemma bind_listen_accept_reuse:
  assumes fr: "env_fresh env fds" and l: "0 \<le> ws_listen_fd self"
    and res: "bind_listen_accept self env fds = (e, lfd, cfd, fds')"
  shows "if e = None then lfd = ws_listen_fd self \<and> 0 \<le> cfd \<and> fds' = cfd # fds \<and> cfd \<notin> set fds
         else lfd = -1 \<and> cfd = -1 \<and> fds' = fds"
  using assms
  by (cases "ws_set_socket_common_options env (ws_cfg self)")
    (auto simp: bind_listen_accept_def env_fresh_def close_if_open_def dest!: sym [of "Some _"]
       split: if_splits)

lemma attach_new:
  assumes inv: "ws_inv self fds" and fr: "env_fresh env fds"
    and l: "ws_listen_fd self < 0"
    and res: "ws_attach self env ctx0 sels recvs ks fds = Some (e, self', out, fds')"
  shows "ws_inv self' fds' \<and> (e \<noteq> None \<longrightarrow> self' = self \<and> fds' = fds)
    \<and> (e = None \<longrightarrow> ws_is_connected self' \<and> 0 \<le> ws_listen_fd self' \<or> 0 \<le> ws_client_fd self)"
proof (cases "0 \<le> ws_client_fd self")
  case True
  with inv res show ?thesis by (auto simp: ws_attach_def)
next
  case False
  obtain e1 lfd cfd fds1 where b: "bind_listen_accept self env fds = (e1, lfd, cfd, fds1)"
    by (metis prod_cases4)
  note own = bind_listen_accept_new [OF fr l b]
  show ?thesis
  proof (cases e1)
    case (Some x)
    with own have "lfd = -1" "cfd = -1" "fds1 = fds" by simp_all
    with res False b Some inv show ?thesis by (auto simp: ws_attach_def close_if_open_def)
  next
    case None
    with own have o: "0 \<le> lfd" "0 \<le> cfd" "lfd \<noteq> cfd" "fds1 = cfd # lfd # fds"
      "lfd \<notin> set fds" "cfd \<notin> set fds" by simp_all
    with res False b None inv show ?thesis
      by (auto simp: ws_attach_def close_if_open_def ws_inv_def removeAll_id split: option.splits)
  qed
qed


section \<open>Writing\<close>

lemma frame_two_sends:
  assumes "length buf < 2 ^ 64"
  shows "send_ws_binary_frame buf (of_nat (length buf)) ks =
    sink_then (ws_send_all (ws_frame_header (of_nat (length buf))) ks) (ws_send_all buf)"
proof -
  have un: "unat (of_nat (length buf) :: u64) = length buf"
    using assms by (simp add: unsigned_of_nat take_bit_nat_eq_self)
  then have "0 < (of_nat (length buf) :: u64) \<longleftrightarrow> buf \<noteq> []"
    by (simp add: word_less_nat_alt)
  moreover have "ws_send_all [] = (\<lambda>ks. Some (None, [], ks))" by (rule ext) simp
  ultimately show ?thesis
    unfolding send_ws_binary_frame_def un by (cases buf) simp_all
qed

lemma frame_ok:
  assumes "length buf < 2 ^ 64" "send_ws_binary_frame buf (of_nat (length buf)) ks = Some (None, out, ks')"
  shows "out = ws_frame_header (of_nat (length buf)) @ buf"
  using assms(2) unfolding frame_two_sends [OF assms(1)] by (rule ws_sink.two_ok)

lemma frame_err:
  assumes "length buf < 2 ^ 64" "send_ws_binary_frame buf (of_nat (length buf)) ks = Some (Some e, out, ks')"
  shows "e = DTERR_IO \<and> (\<exists>rest. rest \<noteq> [] \<and> ws_frame_header (of_nat (length buf)) @ buf = out @ rest)"
  using assms(2) unfolding frame_two_sends [OF assms(1)] by (rule ws_sink.two_err)

lemma length_frame_header: "length (ws_frame_header n) \<le> 10"
  by (simp add: ws_frame_header_def store_be64_def)

section \<open>Properties\<close>

text \<open>
  Base64: the accept value of a 20-byte digest has 28 characters and decodes to the digest.
\<close>

theorem ws_base64_roundtrip:
  assumes "length d = 20"
  shows "base64_decode (base64_encode_20bytes d) = Some d \<and> length (base64_encode_20bytes d) = 28"
  using base64_round [OF assms] by simp

theorem ws_base64_roundtrip_witness:
  "base64_decode (base64_encode_20bytes (replicate 20 7)) = Some (replicate 20 7)"
  using ws_base64_roundtrip [of "replicate 20 7"] by simp

text \<open>
  On a request made of CRLF-terminated lines the header search finds a value exactly when
  some header line has the name (compared without case) followed by a colon; it never looks
  behind the blank line that ends the headers.
\<close>

theorem ws_header_search:
  assumes "list_all wf_line ls"
  shows "(ws_find_header_value (lines_of ls @ CRLF @ body) hdr \<noteq> None) = list_ex (header_match hdr) ls"
  by (rule ws_find_lines [OF assms])

theorem ws_header_search_witness:
  "ws_find_header_value (lines_of [''GET / HTTP/1.1'', ''Host: a''] @ CRLF @ lines_of [''Upgrade: websocket'']) ''Upgrade'' = None"
  using ws_header_search [of "[''GET / HTTP/1.1'', ''Host: a'']" "lines_of [''Upgrade: websocket'']" "''Upgrade''"]
  by (simp add: wf_line_def header_match_def)

text \<open>
  The receive loop of the handshake stays inside its buffer: whatever the kernel delivers in
  whatever pieces, an accepted request and its NUL terminator fit the 8192 bytes, and it holds
  the blank line that ends the headers.
\<close>

theorem ws_request_bounded:
  assumes "recv_http_upgrade_request t (Some cap) sels recvs = Some (Inr req)"
  shows "length req < cap \<and> sublist (CRLF @ CRLF) (cstr req)"
  using assms recv_upgrade_bounds [of t cap "[]" sels recvs req]
  by (auto simp: recv_http_upgrade_request_def split: if_splits)

theorem ws_request_bounded_witness:
  "recv_http_upgrade_request 0 (Some 16) [] [Recvd ''GET'', Recvd (CRLF @ CRLF)] = Some (Inr (''GET'' @ CRLF @ CRLF))
   \<and> length (''GET'' @ CRLF @ CRLF) < 16"
proof -
  have r: "recv_http_upgrade_request 0 (Some 16) [] [Recvd ''GET'', Recvd (CRLF @ CRLF)] =
      Some (Inr (''GET'' @ CRLF @ CRLF))"
    by (simp add: recv_http_upgrade_request_def recv_upgrade_loop.simps CRLF_def cstr_def)
  from ws_request_bounded [OF r] r show ?thesis by simp
qed


definition sample_request :: string where
  "sample_request = lines_of [''GET /c HTTP/1.1'', ''Upgrade: websocket'', ''Connection: Upgrade'',
     ''Sec-WebSocket-Key: abc''] @ CRLF"

definition sample_ctx :: dtsha1_ctx_t where
  "sample_ctx = \<lparr>ctx_state = (0, 0, 0, 0, 0), ctx_total_len_bytes = 0,
                  ctx_buffer = replicate 64 0, ctx_buffer_len = 0\<rparr>"

lemma sample_ctx_buffer: "length (ctx_buffer sample_ctx) = 64"
  by (simp add: sample_ctx_def)

lemma sample_key: "upgrade_key (cstr sample_request) = Some ''abc''"
  by code_simp

lemma sample_recv:
  "recv_http_upgrade_request 0 (Some 8192) [] [Recvd sample_request] = Some (Inr sample_request)"
proof -
  have s: "strstr (cstr sample_request) (CRLF @ CRLF) \<noteq> None" by code_simp
  have l: "length sample_request = 84" by code_simp
  then have "sample_request \<noteq> []" by auto
  with s l show ?thesis
    by (simp add: recv_http_upgrade_request_def recv_upgrade_loop.simps [of _ _ "[]"]
        recv_upgrade_loop.simps [of _ _ sample_request] cstr_def [of "[]"])
qed

lemma sample_handshake:
  "do_websocket_handshake sample_ctx 0 [] [Recvd sample_request] [Sent 129] =
     Some (None, accept_bytes ''abc'', [])"
proof -
  have "length (accept_bytes ''abc'') = 129"
    using base64_round(2) [OF length_sha1_spec]
    by (simp add: accept_bytes_def accept_response_def CRLF_def)
  then have "kernel_takes [Sent 129] (length (accept_bytes ''abc'')) = Some []"
    by (simp add: numeral_eq_Suc)
  from ws_send_takes [OF this] show ?thesis
    by (simp add: handshake_cases [OF sample_ctx_buffer] sample_recv sample_key)
qed



text \<open>
  C5: one write is one message. A write that succeeds puts exactly one binary frame on the wire
  that a receiver decodes to the caller's buffer, reports all of it as written and leaves the
  connection as it was. A write that fails reports an I/O error, writes a proper prefix of that
  frame, and leaves the object disconnected with its client descriptor closed.
\<close>

theorem ws_write_one_message:
  assumes "ws_write_enabled self" and "0 \<le> ws_client_fd self" and "ws_is_connected self"
    and "int (length buf) \<le> INT32_MAX"
    and "ws_write self buf (int (length buf)) probe ks fds = Some (e, self', n, out, fds')"
  shows "(e = None \<longrightarrow> n = int (length buf) \<and> ws_decode out = Some (buf, []) \<and> self' = self \<and> fds' = fds) \<and>
         (e \<noteq> None \<longrightarrow> e = Some DTERR_IO \<and> n = 0 \<and> \<not> ws_is_connected self' \<and> ws_client_fd self' = -1
            \<and> fds' = removeAll (ws_client_fd self) fds
            \<and> (\<exists>rest. rest \<noteq> [] \<and> ws_frame_header (of_nat (length buf)) @ buf = out @ rest))"
proof -
  have small: "length buf < 2 ^ 64" using assms(4) by (simp add: INT32_MAX_def)
  have hdr: "ws_frame_header w @ buf \<noteq> []" for w by (simp add: ws_frame_header_def)
  show ?thesis
  proof (cases "0 \<le> probe")
    case True
    with assms hdr show ?thesis by (auto simp: ws_write_def close_if_open_def)
  next
    case False
    with assms obtain r where r: "send_ws_binary_frame buf (of_nat (length buf)) ks = Some r"
      by (auto simp: ws_write_def split: option.splits)
    obtain e1 o1 k1 where r1: "r = (e1, o1, k1)" by (cases r)
    show ?thesis
    proof (cases e1)
      case None
      with r r1 have "o1 = ws_frame_header (of_nat (length buf)) @ buf"
        by (auto dest: frame_ok [OF small])
      moreover have "ws_decode (ws_frame_header (of_nat (length buf)) @ buf) = Some (buf, [])"
        using ws_decode_frame [OF small, of "[]"] by simp
      ultimately show ?thesis
        using assms False r r1 None by (auto simp: ws_write_def)
    next
      case (Some x)
      from frame_err [OF small r [unfolded r1 Some]] assms False r r1 Some show ?thesis
        by (auto simp: ws_write_def close_if_open_def)
    qed
  qed
qed

definition sample_ws :: dtiox_linux_websocket_t where
  "sample_ws = \<lparr>ws_model_number = 7, ws_is_malloced = False,
     ws_cfg = \<lparr>wc_local_bind_host = None, wc_local_bind_port = 14090, wc_keepalive = False,
                wc_tcp_nodelay = False, wc_handshake_timeout_ms = 0\<rparr>,
     ws_listen_fd = 3, ws_client_fd = 4, ws_is_connected = True, ws_write_enabled = True\<rparr>"

lemma sample_write:
  "ws_write sample_ws [1, 2] (int (length [1, 2 :: byte])) (-1) [Sent 2, SendErr EINTR, Sent 2] [3, 4] =
     Some (None, sample_ws, int (length [1, 2 :: byte]), [0x82, 2, 1, 2], [3, 4])"
  by (simp add: ws_write_def sample_ws_def send_ws_binary_frame_def ws_frame_header_def sink_then_def)

theorem ws_write_one_message_witness:
  "ws_decode [0x82, 2, 1, 2] = Some ([1, 2], [])"
  using ws_write_one_message [OF _ _ _ _ sample_write] by (simp add: sample_ws_def INT32_MAX_def)

text \<open>
  C4: a write to a live peer gets through: if the kernel takes the header and then the payload,
  in pieces and with interruptions, the write returns success and the wire holds the frame.
\<close>

theorem ws_write_delivers:
  assumes "ws_write_enabled self" and "0 \<le> ws_client_fd self" and "ws_is_connected self"
    and "probe < 0" and "int (length buf) \<le> INT32_MAX"
    and "kernel_takes ks (length (ws_frame_header (of_nat (length buf)))) = Some ks1"
    and "kernel_takes ks1 (length buf) = Some ks2"
  shows "ws_write self buf (int (length buf)) probe ks fds =
           Some (None, self, int (length buf), ws_frame_header (of_nat (length buf)) @ buf, fds)"
proof -
  have small: "length buf < 2 ^ 64" using assms(5) by (simp add: INT32_MAX_def)
  have "send_ws_binary_frame buf (of_nat (length buf)) ks =
      Some (None, ws_frame_header (of_nat (length buf)) @ buf, ks2)"
    unfolding frame_two_sends [OF small] by (rule ws_sink.two_takes [OF assms(6,7)])
  with assms(1-4) show ?thesis by (simp add: ws_write_def)
qed

theorem ws_write_delivers_witness:
  "ws_write sample_ws [9] 1 (-1) [Sent 1, Sent 1, SendErr EINTR, Sent 1] [3, 4] =
     Some (None, sample_ws, 1, [0x82, 1, 9], [3, 4])"
proof -
  have h: "ws_frame_header (of_nat (length [9 :: byte])) = [0x82, 1]"
    by (simp add: ws_frame_header_def)
  have t: "kernel_takes [Sent 1, Sent 1, SendErr EINTR, Sent 1] (length (ws_frame_header (of_nat (length [9 :: byte])))) =
      Some [SendErr EINTR, Sent 1]"
    unfolding h by simp
  show ?thesis
    using ws_write_delivers [OF _ _ _ _ _ t, of sample_ws "-1" "[]" "[3, 4]"] unfolding h
    by (simp add: sample_ws_def INT32_MAX_def)
qed


definition sample_env :: listen_env where
  "sample_env = \<lparr>le_tries = Some [\<lparr>at_sock = 3, at_reuse_ok = True, at_bind_ok = True\<rparr>],
     le_listen_ok = True, le_accept = 4, le_keepalive_ok = True, le_nodelay_ok = True\<rparr>"

definition idle_ws :: dtiox_linux_websocket_t where
  "idle_ws = sample_ws\<lparr>ws_listen_fd := -1, ws_client_fd := -1, ws_is_connected := False\<rparr>"

lemma refused_handshake:
  "do_websocket_handshake c 0 [] [RecvErr EOTHER] ks = Some (Some DTERR_IO, [], ks)"
  by (simp add: do_websocket_handshake_def recv_http_upgrade_request_def recv_upgrade_loop.simps
      cstr_def CRLF_def)

lemma sample_attach:
  "ws_attach idle_ws sample_env sample_ctx [] [RecvErr EOTHER] [] [0, 1] =
     Some (Some DTERR_IO, idle_ws, [], [0, 1])"
  by (simp add: ws_attach_def idle_ws_def sample_ws_def sample_env_def bind_listen_accept_def
      ws_set_socket_common_options_def refused_handshake close_if_open_def)


text \<open>
  Re-attaching on the existing listening socket does not keep the invariant: when the
  handshake of the new client fails, the cleanup closes the listening socket as well, and the
  object keeps its number. The descriptor it holds is then closed, and not -1.
\<close>

theorem ws_reattach_dangling:
  assumes "ws_inv self fds" and "env_fresh env fds"
    and "0 \<le> ws_listen_fd self" and "ws_client_fd self < 0"
    and "bind_listen_accept self env fds = (None, lfd, cfd, fds1)"
    and "do_websocket_handshake ctx0 (wc_handshake_timeout_ms (ws_cfg self)) sels recvs ks = Some (Some x, out, ks')"
  shows "\<exists>fds'. ws_attach self env ctx0 sels recvs ks fds = Some (Some x, self, out, fds')
           \<and> 0 \<le> ws_listen_fd self \<and> ws_listen_fd self \<notin> set fds' \<and> \<not> ws_inv self fds'"
proof -
  from bind_listen_accept_reuse [OF assms(2,3,5)] have "lfd = ws_listen_fd self" "0 \<le> cfd" "fds1 = cfd # fds"
    by simp_all
  with assms show ?thesis by (auto simp: ws_attach_def close_if_open_def ws_inv_def)
qed

theorem ws_reattach_dangling_witness:
  "\<exists>fds'. ws_attach (idle_ws\<lparr>ws_listen_fd := 3\<rparr>) sample_env sample_ctx [] [RecvErr EOTHER] [] [0, 1, 3] =
       Some (Some DTERR_IO, idle_ws\<lparr>ws_listen_fd := 3\<rparr>, [], fds') \<and> 3 \<notin> set fds'"
proof -
  let ?s = "idle_ws\<lparr>ws_listen_fd := 3\<rparr>"
  let ?e = "sample_env\<lparr>le_tries := None\<rparr>"
  have b: "bind_listen_accept ?s ?e [0, 1, 3] = (None, 3, 4, [4, 0, 1, 3])"
    by (simp add: bind_listen_accept_def idle_ws_def sample_ws_def sample_env_def
        ws_set_socket_common_options_def)
  have b': "bind_listen_accept ?s sample_env [0, 1, 3] = bind_listen_accept ?s ?e [0, 1, 3]"
    by (simp add: bind_listen_accept_def idle_ws_def sample_ws_def sample_env_def
        ws_set_socket_common_options_def)
  have h: "do_websocket_handshake sample_ctx (wc_handshake_timeout_ms (ws_cfg ?s)) [] [RecvErr EOTHER] [] =
      Some (Some DTERR_IO, [], [])"
    by (simp add: idle_ws_def sample_ws_def refused_handshake)
  have "ws_inv ?s [0, 1, 3]" "env_fresh ?e [0, 1, 3]" "0 \<le> ws_listen_fd ?s" "ws_client_fd ?s < 0"
    by (simp_all add: ws_inv_def env_fresh_def idle_ws_def sample_ws_def sample_env_def)
  from ws_reattach_dangling [OF this b h] show ?thesis
    by (auto simp: ws_attach_def b')
qed

end
