(* ===== verification/HttpdResponse.thy ===== *)
theory HttpdResponse
  imports Sockets
begin

text \<open>
  The sending half of \<open>dtmc_linux_library/src/dthttpd_linux_socket.c\<close>: the send loop, the
  response header, the URL path check, the MIME table, and the static files. Files are a
  function from a path name to what the C library answers when that file is opened and read.
\<close>

section \<open>Sending\<close>

definition reason_phrase_for_status :: "int \<Rightarrow> string" where
  "reason_phrase_for_status status_code =
     (if status_code = 200 then ''OK''
      else if status_code = 400 then ''Bad Request''
      else if status_code = 403 then ''Forbidden''
      else if status_code = 404 then ''Not Found''
      else if status_code = 405 then ''Method Not Allowed''
      else if status_code = 411 then ''Length Required''
      else if status_code = 413 then ''Payload Too Large''
      else if status_code = 500 then ''Internal Server Error''
      else if status_code = 503 then ''Service Unavailable''
      else ''Unknown'')"

text \<open>\<open>_send_all\<close> of this file, with \<open>remaining\<close> the length of the rest.\<close>

function httpd_send_all :: "byte list \<Rightarrow> send_result list \<Rightarrow> sink_result" where
  "httpd_send_all p ks =
     (if length p = 0 then Some (None, [], ks)
      else (case ks of
              [] \<Rightarrow> None
            | Sent n # ks' \<Rightarrow>
                if 0 < n then map_option (\<lambda>(e, out, r). (e, take n p @ out, r)) (httpd_send_all (drop n p) ks')
                else Some (Some DTERR_IO, [], ks')
            | SendErr e # ks' \<Rightarrow>
                if e = EINTR then httpd_send_all p ks' else Some (Some DTERR_IO, [], ks')))"
  by pat_completeness auto
termination
  by (relation "measure (\<lambda>(p, ks). length ks)") auto

declare httpd_send_all.simps [simp del]

lemma httpd_send_simps [simp]:
  "httpd_send_all [] ks = Some (None, [], ks)"
  "httpd_send_all (b # p) [] = None"
  "httpd_send_all (b # p) (Sent n # ks) =
     (if 0 < n then map_option (\<lambda>(e, out, r). (e, take n (b # p) @ out, r)) (httpd_send_all (drop n (b # p)) ks)
      else Some (Some DTERR_IO, [], ks))"
  "httpd_send_all (b # p) (SendErr e # ks) =
     (if e = EINTR then httpd_send_all (b # p) ks else Some (Some DTERR_IO, [], ks))"
  by (subst httpd_send_all.simps; simp)+

text \<open>
  The two send loops of the library have the same contract: it is enough to show that this one
  and the kernel's bookkeeping agree step by step.
\<close>

lemma httpd_send_ok: "httpd_send_all p ks = Some (None, out, r) \<Longrightarrow> out = p"
proof (induction ks arbitrary: p out)
  case Nil
  then show ?case by (cases p) auto
next
  case (Cons k ks)
  show ?case
  proof (cases p)
    case Nil
    with Cons.prems show ?thesis by simp
  next
    case p: (Cons b q)
    show ?thesis
    proof (cases k)
      case (Sent n)
      with Cons.prems p obtain o2 where "httpd_send_all (drop n p) ks = Some (None, o2, r)"
        and out: "out = take n p @ o2"
        by (auto split: if_splits)
      from Cons.IH [OF this(1)] show ?thesis unfolding out by simp
    next
      case (SendErr e)
      with Cons.prems p Cons.IH show ?thesis by (auto split: if_splits)
    qed
  qed
qed

lemma httpd_send_err:
  "httpd_send_all p ks = Some (Some x, out, r) \<Longrightarrow> x = DTERR_IO \<and> (\<exists>rest. rest \<noteq> [] \<and> p = out @ rest)"
proof (induction ks arbitrary: p out)
  case Nil
  then show ?case by (cases p) auto
next
  case (Cons k ks)
  then obtain b q where p: "p = b # q" by (cases p) auto
  show ?case
  proof (cases k)
    case (Sent n)
    show ?thesis
    proof (cases "0 < n")
      case False
      with Sent Cons.prems p show ?thesis by simp
    next
      case True
      with Sent Cons.prems p obtain o2 where o: "httpd_send_all (drop n p) ks = Some (Some x, o2, r)"
        and out: "out = take n p @ o2"
        by auto
      from Cons.IH [OF o] obtain rest where "x = DTERR_IO" "rest \<noteq> []" "drop n p = o2 @ rest" by blast
      moreover from this(3) have "p = out @ rest" unfolding out by (metis append.assoc append_take_drop_id)
      ultimately show ?thesis by blast
    qed
  next
    case (SendErr e)
    with Cons.prems p Cons.IH show ?thesis by (auto split: if_splits)
  qed
qed

lemma httpd_send_takes:
  "kernel_takes ks (length p) = Some r \<Longrightarrow> httpd_send_all p ks = Some (None, p, r)"
proof (induction ks arbitrary: p)
  case Nil
  then show ?case by (cases p) auto
next
  case (Cons k ks)
  show ?case
  proof (cases p)
    case Nil
    with Cons.prems show ?thesis by simp
  next
    case p: (Cons b q)
    show ?thesis
    proof (cases k)
      case (Sent n)
      with Cons.prems p have "0 < n" "kernel_takes ks (length (drop n p)) = Some r"
        by (auto split: if_splits)
      with Cons.IH Sent p show ?thesis by (simp del: drop_Cons take_Cons) 
    next
      case (SendErr e)
      with Cons.prems p Cons.IH show ?thesis by (auto split: if_splits)
    qed
  qed
qed

interpretation httpd_sink: byte_sink httpd_send_all
  by unfold_locales (fact httpd_send_ok httpd_send_err httpd_send_takes)+

definition response_header :: "int \<Rightarrow> string option \<Rightarrow> int \<Rightarrow> bool \<Rightarrow> string" where
  "response_header status_code content_type body_length close_connection =
     ''HTTP/1.1 '' @ show_int status_code @ '' '' @ reason_phrase_for_status status_code @ CRLF @
     ''Content-Length: '' @ show_int body_length @ CRLF @
     ''Content-Type: '' @ (case content_type of None \<Rightarrow> ''application/octet-stream'' | Some c \<Rightarrow> c) @ CRLF @
     ''Connection: '' @ (if close_connection then ''close'' else ''keep-alive'') @ CRLF @
     CRLF"

text \<open>\<open>body\<close> is \<open>None\<close> for NULL; the bytes sent of it are the first \<open>body_length\<close>.\<close>

definition send_response ::
  "int \<Rightarrow> string option \<Rightarrow> string option \<Rightarrow> int \<Rightarrow> bool \<Rightarrow> send_result list \<Rightarrow> sink_result" where
  "send_response status_code content_type body body_length close_connection ks =
     (if body_length < 0 then Some (Some DTERR_RANGE, [], ks)
      else let header = response_header status_code content_type body_length close_connection in
        if 1024 \<le> length header then Some (Some DTERR_OVERFLOW, [], ks)
        else sink_then (httpd_send_all (bytes_of header) ks)
          (\<lambda>ks'. case body of
                   None \<Rightarrow> Some (None, [], ks')
                 | Some b \<Rightarrow> if 0 < body_length then httpd_send_all (bytes_of (take (nat body_length) b)) ks'
                            else Some (None, [], ks')))"

definition send_text_response :: "int \<Rightarrow> string option \<Rightarrow> send_result list \<Rightarrow> sink_result" where
  "send_text_response status_code text ks =
     (let body = (case text of None \<Rightarrow> [] | Some t \<Rightarrow> t)
      in send_response status_code (Some ''text/plain; charset=utf-8'') (Some body) (int (length body)) True ks)"

section \<open>URL paths and MIME types\<close>

definition is_safe_url_path :: "string option \<Rightarrow> bool" where
  "is_safe_url_path path =
     (case path of
        None \<Rightarrow> False
      | Some p \<Rightarrow>
          if p = [] \<or> hd p \<noteq> CHR ''/'' then False
          else if strstr p ''..'' \<noteq> None then False
          else if CHR 0x5C \<in> set p then False
          else True)"

text \<open>\<open>strrchr(path, '.')\<close>: the rest from the last dot.\<close>

definition last_ext :: "string \<Rightarrow> string option" where
  "last_ext path =
     (if CHR ''.'' \<in> set path then Some (CHR ''.'' # rev (takeWhile (\<lambda>c. c \<noteq> CHR ''.'') (rev path))) else None)"

definition guess_mime_type :: "string \<Rightarrow> string" where
  "guess_mime_type path =
     (case last_ext path of
        None \<Rightarrow> ''application/octet-stream''
      | Some ext \<Rightarrow>
          if strcaseeq ext ''.html'' \<or> strcaseeq ext ''.htm'' then ''text/html; charset=utf-8''
          else if strcaseeq ext ''.css'' then ''text/css; charset=utf-8''
          else if strcaseeq ext ''.js'' then ''application/javascript; charset=utf-8''
          else if strcaseeq ext ''.json'' then ''application/json; charset=utf-8''
          else if strcaseeq ext ''.txt'' then ''text/plain; charset=utf-8''
          else if strcaseeq ext ''.svg'' then ''image/svg+xml''
          else if strcaseeq ext ''.png'' then ''image/png''
          else if strcaseeq ext ''.jpg'' \<or> strcaseeq ext ''.jpeg'' then ''image/jpeg''
          else if strcaseeq ext ''.gif'' then ''image/gif''
          else if strcaseeq ext ''.ico'' then ''image/x-icon''
          else ''application/octet-stream'')"

section \<open>Static files\<close>

text \<open>
  What the C library answers for a path that opens: do the two \<open>fseek\<close> calls succeed, what
  does \<open>ftell\<close> return, does \<open>malloc\<close> succeed, which bytes does \<open>fread\<close> deliver.
\<close>

record file_probe =
  fp_seek_end_ok :: bool
  fp_ftell :: int
  fp_seek_set_ok :: bool
  fp_malloc_ok :: bool
  fp_data :: string

type_synonym filesystem = "string \<Rightarrow> file_probe option"

definition read_entire_file :: "filesystem \<Rightarrow> string \<Rightarrow> errcode + string" where
  "read_entire_file fs full_path =
     (case fs full_path of
        None \<Rightarrow> Inl DTERR_NOTFOUND
      | Some f \<Rightarrow>
          if \<not> fp_seek_end_ok f then Inl DTERR_IO
          else if fp_ftell f < 0 \<or> INT32_MAX < fp_ftell f then Inl DTERR_RANGE
          else if \<not> fp_seek_set_ok f then Inl DTERR_IO
          else if fp_ftell f = 0 then Inr []
          else if \<not> fp_malloc_ok f then Inl DTERR_NOMEM
          else if int (length (fp_data f)) < fp_ftell f then Inl DTERR_IO
          else Inr (take (nat (fp_ftell f)) (fp_data f)))"

definition PATH_MAX :: nat where "PATH_MAX = 4096"

text \<open>
  The loop over \<open>static_directories\<close>; \<open>None\<close> entries are NULL. The result is the error or
  \<open>*was_served\<close>, with what was sent.
\<close>

fun serve_roots ::
  "filesystem \<Rightarrow> string \<Rightarrow> string option list \<Rightarrow> send_result list \<Rightarrow> (bool \<times> dterr \<times> byte list \<times> send_result list) option" where
  "serve_roots fs rel [] ks =
     map_option (\<lambda>(e, out, r). (e = None, e, out, r)) (send_text_response 404 (Some ''Not Found'') ks)"
| "serve_roots fs rel (None # roots) ks = serve_roots fs rel roots ks"
| "serve_roots fs rel (Some root # roots) ks =
     (let candidate = root @ rel in
      if PATH_MAX \<le> length candidate then Some (False, Some DTERR_OVERFLOW, [], ks)
      else (case read_entire_file fs candidate of
              Inr bytes \<Rightarrow>
                map_option (\<lambda>(e, out, r). (e = None, e, out, r))
                  (send_response 200 (Some (guess_mime_type candidate))
                     (if bytes = [] then None else Some bytes) (int (length bytes)) True ks)
            | Inl e \<Rightarrow>
                if e = DTERR_NOTFOUND then serve_roots fs rel roots ks
                else Some (False, Some e, [], ks)))"

definition try_serve_static_file ::
  "filesystem \<Rightarrow> string option list \<Rightarrow> string \<Rightarrow> send_result list \<Rightarrow> (bool \<times> dterr \<times> byte list \<times> send_result list) option" where
  "try_serve_static_file fs roots request_path ks =
     (if \<not> is_safe_url_path (Some request_path) then
        map_option (\<lambda>(e, out, r). (e = None, e, out, r)) (send_text_response 403 (Some ''Forbidden'') ks)
      else serve_roots fs (if request_path = ''/'' then ''/index.html'' else request_path) roots ks)"

definition handle_get :: "filesystem \<Rightarrow> string option list \<Rightarrow> string \<Rightarrow> send_result list \<Rightarrow> sink_result" where
  "handle_get fs roots path ks =
     map_option (\<lambda>(served, e, out, r). (e, out, r)) (try_serve_static_file fs roots path ks)"


section \<open>Responses\<close>

text \<open>The part of the body a response sends.\<close>

definition sent_body :: "string option \<Rightarrow> int \<Rightarrow> string" where
  "sent_body body n = (case body of None \<Rightarrow> [] | Some b \<Rightarrow> take (nat n) b)"

lemma send_response_two:
  assumes "0 \<le> n" "length (response_header st ct n close) < 1024"
  shows "send_response st ct body n close ks =
    sink_then (httpd_send_all (bytes_of (response_header st ct n close)) ks)
      (httpd_send_all (bytes_of (sent_body body n)))"
proof -
  have e: "httpd_send_all [] = (\<lambda>ks. Some (None, [], ks))" by (rule ext) simp
  show ?thesis
  proof (cases body)
    case None
    with assms e show ?thesis by (simp add: send_response_def sent_body_def bytes_of_def Let_def)
  next
    case (Some b)
    show ?thesis
    proof (cases "n = 0")
      case True
      with assms e Some show ?thesis
        by (simp add: send_response_def sent_body_def bytes_of_def Let_def)
    next
      case False
      with assms Some show ?thesis by (simp add: send_response_def sent_body_def Let_def)
    qed
  qed
qed

lemma send_response_cases:
  assumes "send_response st ct body n close ks = Some (e, out, r)"
  shows "(n < 0 \<and> e = Some DTERR_RANGE \<and> out = []) \<or>
    (0 \<le> n \<and> 1024 \<le> length (response_header st ct n close) \<and> e = Some DTERR_OVERFLOW \<and> out = []) \<or>
    (0 \<le> n \<and> e = None \<and> out = bytes_of (response_header st ct n close @ sent_body body n)) \<or>
    (0 \<le> n \<and> e = Some DTERR_IO \<and>
       (\<exists>rest. rest \<noteq> [] \<and> bytes_of (response_header st ct n close @ sent_body body n) = out @ rest))"
proof (cases "n < 0 \<or> 1024 \<le> length (response_header st ct n close)")
  case True
  with assms show ?thesis by (auto simp: send_response_def Let_def split: if_splits)
next
  case False
  then have two: "sink_then (httpd_send_all (bytes_of (response_header st ct n close)) ks)
      (httpd_send_all (bytes_of (sent_body body n))) = Some (e, out, r)"
    using assms send_response_two [of n st ct close body ks] by simp
  show ?thesis
  proof (cases e)
    case None
    from httpd_sink.two_ok [OF two [unfolded None]] None False show ?thesis by simp
  next
    case (Some x)
    from httpd_sink.two_err [OF two [unfolded Some]] Some False show ?thesis by simp
  qed
qed

section \<open>Paths\<close>

text \<open>
  The components of a path between slashes, and where a walk from a root leads: \<open>..\<close> pops, and
  \<open>None\<close> is a walk that leaves the root.
\<close>

fun components :: "string \<Rightarrow> string list" where
  "components [] = [[]]"
| "components (c # s) =
     (if c = CHR ''/'' then [] # components s
      else (c # hd (components s)) # tl (components s))"

fun walk :: "string list \<Rightarrow> string list \<Rightarrow> string list option" where
  "walk st [] = Some st"
| "walk st (d # ds) =
     (if d = ''..'' then (case st of [] \<Rightarrow> None | _ # st' \<Rightarrow> walk st' ds)
      else if d = [] \<or> d = ''.'' then walk st ds
      else walk (d # st) ds)"

lemma components_nonempty [simp]: "components s \<noteq> []"
  by (induction s) auto

lemma component_sublist: "d \<in> set (components s) \<Longrightarrow> sublist d s"
proof -
  have "prefix (hd (components s)) s \<and> (\<forall>d \<in> set (tl (components s)). sublist d s)"
  proof (induction s)
    case (Cons c s)
    have "sublist (hd (components s)) s" using Cons by (simp add: prefix_imp_sublist)
    with Cons show ?case
      by (cases "components s") (auto intro: sublist_Cons_right [THEN iffD2])
  qed simp
  moreover assume "d \<in> set (components s)"
  ultimately show ?thesis
    by (cases "components s") (auto intro: prefix_imp_sublist)
qed

lemma walk_no_dotdot: "''..'' \<notin> set ds \<Longrightarrow> \<exists>st'. walk st ds = Some (st' @ st)"
proof (induction ds arbitrary: st)
  case (Cons d ds)
  from Cons.IH [of st] Cons.IH [of "d # st"] Cons.prems show ?case
    by auto
qed simp

lemma safe_no_dotdot:
  assumes "is_safe_url_path (Some p)"
  shows "''..'' \<notin> set (components p)"
proof
  assume "''..'' \<in> set (components p)"
  then have "sublist ''..'' p" by (rule component_sublist)
  with assms show False by (auto simp: is_safe_url_path_def strstr_None split: if_splits)
qed

section \<open>Properties\<close>

text \<open>
  C13: responses are sent whole or reported: on success the wire holds the status line, the four
  headers with the true body length, the blank line and the body; a negative length or a header
  beyond 1023 characters is refused before anything is sent; otherwise the failure is an I/O
  error and the wire holds a proper prefix.
\<close>

theorem httpd_response_correct:
  assumes "send_response st ct body n close ks = Some (e, out, r)"
  shows "(e = None \<longrightarrow> 0 \<le> n \<and> out = bytes_of (response_header st ct n close @ sent_body body n)) \<and>
         (e \<noteq> None \<and> e \<noteq> Some DTERR_IO \<longrightarrow> out = []) \<and>
         (e = Some DTERR_IO \<longrightarrow>
            (\<exists>rest. rest \<noteq> [] \<and> bytes_of (response_header st ct n close @ sent_body body n) = out @ rest)) \<and>
         e \<in> {None, Some DTERR_RANGE, Some DTERR_OVERFLOW, Some DTERR_IO}"
  using send_response_cases [OF assms] by auto

lemma length_header_404: "length (response_header 404 (Some ''text/plain'') 2 True) = 90"
  by code_simp

lemma sample_response:
  "send_response 404 (Some ''text/plain'') (Some ''hi'') 2 True [Sent 90, SendErr EINTR, Sent 2] =
     Some (None, bytes_of (response_header 404 (Some ''text/plain'') 2 True) @ bytes_of ''hi'', [])"
proof -
  have h: "kernel_takes [Sent 90, SendErr EINTR, Sent 2]
      (length (bytes_of (response_header 404 (Some ''text/plain'') 2 True))) = Some [SendErr EINTR, Sent 2]"
    by (simp add: length_header_404 numeral_eq_Suc)
  have b: "kernel_takes [SendErr EINTR, Sent 2] (length (bytes_of (sent_body (Some ''hi'') 2))) = Some []"
    by (simp add: sent_body_def numeral_eq_Suc)
  show ?thesis
    using httpd_sink.two_takes [OF h b] by (simp add: send_response_two length_header_404 sent_body_def)
qed

theorem httpd_response_correct_witness:
  "bytes_of (response_header 404 (Some ''text/plain'') 2 True) @ bytes_of ''hi'' =
     bytes_of (response_header 404 (Some ''text/plain'') 2 True @ sent_body (Some ''hi'') 2)"
  using httpd_response_correct [OF sample_response] by blast

text \<open>
  C14: the static file server cannot be walked out of its roots. A request path with a dot-dot
  or a backslash, or without a leading slash, gets the 403 answer whatever the file system holds; for
  any other path the answer depends only on the files named root + path, and the path's
  components, walked from a root, never leave it.
\<close>

theorem httpd_no_traversal:
  "(\<not> is_safe_url_path (Some p) \<longrightarrow>
      try_serve_static_file fs roots p ks =
        map_option (\<lambda>(e, out, r). (e = None, e, out, r)) (send_text_response 403 (Some ''Forbidden'') ks)) \<and>
   (is_safe_url_path (Some p) \<longrightarrow>
      (\<exists>st. walk [] (components p) = Some st) \<and>
      ((\<forall>root. Some root \<in> set roots \<longrightarrow>
          fs (root @ (if p = ''/'' then ''/index.html'' else p)) =
          fs' (root @ (if p = ''/'' then ''/index.html'' else p))) \<longrightarrow>
       try_serve_static_file fs roots p ks = try_serve_static_file fs' roots p ks))"
proof -
  have "serve_roots fs rel roots ks = serve_roots fs' rel roots ks"
    if "\<forall>root. Some root \<in> set roots \<longrightarrow> fs (root @ rel) = fs' (root @ rel)" for rel
    using that
  proof (induction roots)
    case (Cons r roots)
    show ?case
    proof (cases r)
      case None
      with Cons show ?thesis by simp
    next
      case (Some root)
      with Cons.prems have "read_entire_file fs (root @ rel) = read_entire_file fs' (root @ rel)"
        by (simp add: read_entire_file_def)
      moreover from Cons have "serve_roots fs rel roots ks = serve_roots fs' rel roots ks" by simp
      ultimately show ?thesis
        using Some by (cases "read_entire_file fs' (root @ rel)") (simp_all add: Let_def)
    qed
  qed simp
  then show ?thesis
    using walk_no_dotdot [of "components p" "[]"] safe_no_dotdot [of p]
    by (auto simp: try_serve_static_file_def)
qed

lemma traversal_sample: "\<not> is_safe_url_path (Some ''/a/../b'')"
  by code_simp

theorem httpd_no_traversal_witness:
  "try_serve_static_file (\<lambda>_. None) [Some ''/srv''] ''/a/../b'' [Sent 300] =
     map_option (\<lambda>(e, out, r). (e = None, e, out, r))
       (send_text_response 403 (Some ''Forbidden'') [Sent 300])"
  using httpd_no_traversal traversal_sample by blast

end
