(* ===== verification/HttpdRequest.thy ===== *)
theory HttpdRequest
  imports HttpdResponse
begin

text \<open>
  The receiving half of \<open>dtmc_linux_library/src/dthttpd_linux_socket.c\<close>: the header search,
  the request target, \<open>_read_http_request\<close> with its two receive loops, the POST callback and
  the body of the client task. The limits of \<open>dthttpd.h\<close> (dtmc_base) are parameters.
\<close>

record httpd_limits =
  lim_header_bytes :: nat
  lim_request_bytes :: int
  lim_method_bytes :: nat
  lim_path_bytes :: nat

section \<open>Headers\<close>

text \<open>The search over the lines of the whole receive buffer; \<open>cap\<close> is the output's capacity.\<close>

function find_value :: "string \<Rightarrow> string \<Rightarrow> int \<Rightarrow> errcode + string option" where
  "find_value p name cap =
     (if p = [] then Inr None
      else (case strstr p CRLF of
              None \<Rightarrow> Inr None
            | Some line_end \<Rightarrow>
                if length name + 1 < line_end \<and> strncaseeq p name (length name) \<and> p ! length name = CHR '':''
                then let value = skip_blanks (drop (length name + 1) (take line_end p)) in
                     if cap \<le> int (length value) then Inl DTERR_OVERFLOW else Inr (Some value)
                else find_value (drop (line_end + 2) p) name cap))"
  by pat_completeness auto
termination
  by (relation "measure (\<lambda>(p, name, cap). length p)") auto

declare find_value.simps [simp del]

definition find_header_value :: "string \<Rightarrow> string \<Rightarrow> int \<Rightarrow> errcode + string option" where
  "find_header_value headers name cap =
     (if cap \<le> 0 then Inl DTERR_BADARG else find_value headers name cap)"

text \<open>The value a matching line gives: what follows the colon, without leading blanks.\<close>

definition value_match :: "string \<Rightarrow> string \<Rightarrow> bool" where
  "value_match name l \<longleftrightarrow>
     length name + 1 < length l \<and> strncaseeq l name (length name) \<and> l ! length name = CHR '':''"

definition line_value :: "string \<Rightarrow> string \<Rightarrow> string" where
  "line_value name l = skip_blanks (drop (length name + 1) l)"

lemma find_value_line:
  assumes "CR \<notin> set l"
  shows "find_value (l @ CRLF @ rest) name cap =
    (if value_match name l
     then if cap \<le> int (length (line_value name l)) then Inl DTERR_OVERFLOW else Inr (Some (line_value name l))
     else find_value rest name cap)"
  using drop_line [of l rest]
  by (subst find_value.simps, cases "length name + 1 < length l")
    (simp_all add: strstr_line [OF assms] value_match_def line_value_def strncaseeq_append nth_append Let_def)

text \<open>The search goes through every CRLF-terminated line of the buffer, blank ones included.\<close>

fun find_in_lines :: "string list \<Rightarrow> string \<Rightarrow> int \<Rightarrow> (errcode + string option) option" where
  "find_in_lines [] name cap = None"
| "find_in_lines (l # ls) name cap =
     (if value_match name l
      then Some (if cap \<le> int (length (line_value name l)) then Inl DTERR_OVERFLOW
                 else Inr (Some (line_value name l)))
      else find_in_lines ls name cap)"

lemma find_value_lines:
  "list_all (\<lambda>l. CR \<notin> set l) ls \<Longrightarrow>
     find_value (lines_of ls @ rest) name cap =
       (case find_in_lines ls name cap of None \<Rightarrow> find_value rest name cap | Some r \<Rightarrow> r)"
  by (induction ls) (simp_all add: find_value_line)

lemma find_in_lines_None: "find_in_lines ls name cap = None \<longleftrightarrow> \<not> list_ex (value_match name) ls"
  by (induction ls) simp_all

lemma length_find_value:
  "find_value p name cap = Inr (Some v) \<Longrightarrow> int (length v) < cap"
proof (induction p name cap rule: find_value.induct)
  case (1 p name cap)
  from 1(2) 1(1) show ?case
    by (subst (asm) find_value.simps) (auto simp: Let_def split: if_splits option.splits)
qed

section \<open>The request target\<close>

definition path_part :: "string \<Rightarrow> string" where
  "path_part raw_target = takeWhile (\<lambda>c. c \<noteq> CHR ''?'' \<and> c \<noteq> CHR ''#'') raw_target"

definition normalize_request_target :: "string \<Rightarrow> int \<Rightarrow> errcode + string" where
  "normalize_request_target raw_target cap =
     (if cap \<le> 0 then Inl DTERR_BADARG
      else let p = path_part raw_target in
        if p = [] \<or> cap \<le> int (length p) then Inl DTERR_OVERFLOW else Inr p)"

section \<open>scanf and atoi\<close>

definition is_space :: "char \<Rightarrow> bool" where
  "is_space c \<longleftrightarrow> c = SP \<or> (9 \<le> (of_char c :: nat) \<and> (of_char c :: nat) \<le> 13)"

text \<open>One \<open>%<width>s\<close> conversion: the word and the rest, or no match.\<close>

definition scan_word :: "nat \<Rightarrow> string \<Rightarrow> (string \<times> string) option" where
  "scan_word width s =
     (let s' = dropWhile is_space s; w = take width (takeWhile (\<lambda>c. \<not> is_space c) s')
      in if w = [] then None else Some (w, drop (length w) s'))"

text \<open>\<open>sscanf(line, "%31s %1023s %63s", ...) == 3\<close>.\<close>

definition scan_request_line :: "string \<Rightarrow> (string \<times> string \<times> string) option" where
  "scan_request_line line =
     (case scan_word 31 line of
        None \<Rightarrow> None
      | Some (m, r1) \<Rightarrow>
          (case scan_word 1023 r1 of
             None \<Rightarrow> None
           | Some (t, r2) \<Rightarrow> (case scan_word 63 r2 of None \<Rightarrow> None | Some (v, _) \<Rightarrow> Some (m, t, v))))"

definition is_digit :: "char \<Rightarrow> bool" where
  "is_digit c \<longleftrightarrow> 48 \<le> (of_char c :: nat) \<and> (of_char c :: nat) \<le> 57"

definition digits_value :: "string \<Rightarrow> int" where
  "digits_value ds = foldl (\<lambda>a c. 10 * a + (of_char c - 48)) 0 ds"

text \<open>
  \<open>atoi\<close> as the C library of Linux computes it: \<open>strtol\<close>, which saturates at the 64-bit
  range, converted to \<open>int\<close>.
\<close>

definition atoi :: "string \<Rightarrow> int" where
  "atoi s =
     (let s1 = dropWhile is_space s;
          neg = (case s1 of c # _ \<Rightarrow> c = CHR ''-'' | [] \<Rightarrow> False);
          s2 = (case s1 of c # r \<Rightarrow> if c = CHR ''-'' \<or> c = CHR ''+'' then r else s1 | [] \<Rightarrow> []);
          v = digits_value (takeWhile is_digit s2);
          l = (if neg then max (- v) (- (2 ^ 63)) else min v (2 ^ 63 - 1))
      in to_int32 l)"

section \<open>Reading a request\<close>

text \<open>
  The first receive loop: the bytes received until \<open>strstr\<close> sees the blank line, and its
  offset. \<open>recv\<close> returns at most the room it is offered.
\<close>

fun recv_headers :: "nat \<Rightarrow> string \<Rightarrow> recv_result list \<Rightarrow> (errcode + (string \<times> nat \<times> recv_result list)) option" where
  "recv_headers cap bytes [] = None"
| "recv_headers cap bytes (Recvd d # rs) =
     (if d = [] then Some (Inl DTERR_IO)
      else
        let bytes' = bytes @ take (cap - length bytes) d in
        (case strstr (cstr bytes') (CRLF @ CRLF) of
           Some k \<Rightarrow> Some (Inr (bytes', k, rs))
         | None \<Rightarrow> if cap \<le> length bytes' then Some (Inl DTERR_OVERFLOW) else recv_headers cap bytes' rs))"
| "recv_headers cap bytes (RecvErr e # rs) =
     (if e = EINTR then recv_headers cap bytes rs
      else if e = EAGAIN then Some (Inl DTERR_TIMEOUT)
      else Some (Inl DTERR_IO))"

fun recv_body :: "nat \<Rightarrow> string \<Rightarrow> recv_result list \<Rightarrow> (errcode + string) option" where
  "recv_body content_length body rs =
     (if content_length \<le> length body then Some (Inr body)
      else (case rs of
              [] \<Rightarrow> None
            | Recvd d # rs' \<Rightarrow>
                if d = [] then Some (Inl DTERR_IO)
                else recv_body content_length (body @ take (content_length - length body) d) rs'
            | RecvErr e # rs' \<Rightarrow>
                if e = EINTR then recv_body content_length body rs'
                else if e = EAGAIN then Some (Inl DTERR_TIMEOUT)
                else Some (Inl DTERR_IO)))"

declare recv_body.simps [simp del]

text \<open>The request line: method and path, or the error.\<close>

definition parse_request_line :: "httpd_limits \<Rightarrow> string \<Rightarrow> errcode + (string \<times> string)" where
  "parse_request_line lim bytes =
     (case strstr bytes CRLF of
        None \<Rightarrow> Inl DTERR_BADARG
      | Some n \<Rightarrow>
          if n = 0 \<or> 2048 \<le> n then Inl DTERR_BADARG
          else (case scan_request_line (take n bytes) of
                  None \<Rightarrow> Inl DTERR_BADARG
                | Some (m, t, v) \<Rightarrow>
                    if lim_method_bytes lim \<le> length m then Inl DTERR_OVERFLOW
                    else (case normalize_request_target t (int (lim_path_bytes lim)) of
                            Inl e \<Rightarrow> Inl e
                          | Inr path \<Rightarrow> Inr (m, path))))"

text \<open>
  The part of \<open>_read_http_request\<close> after the request line: the \<open>Content-Length\<close> header of the
  received bytes and, for a POST, the body (\<open>None\<close> for a NULL body).
\<close>

definition read_request_body ::
  "httpd_limits \<Rightarrow> bool \<Rightarrow> string \<Rightarrow> string \<Rightarrow> nat \<Rightarrow> recv_result list \<Rightarrow> (errcode + string option) option" where
  "read_request_body lim malloc_ok m buf header_len rs =
     (case find_header_value (cstr buf) ''Content-Length'' 64 of
        Inl e \<Rightarrow> Some (Inl e)
      | Inr found \<Rightarrow>
          if \<not> strcaseeq m ''POST'' then Some (Inr None)
          else (case found of
                  None \<Rightarrow> Some (Inl DTERR_BADARG)
                | Some v \<Rightarrow>
                    let content_length = atoi v in
                    if content_length < 0 \<or> lim_request_bytes lim < content_length
                    then Some (Inl DTERR_RANGE)
                    else if content_length = 0 then Some (Inr None)
                    else if \<not> malloc_ok then Some (Inl DTERR_NOMEM)
                    else (case recv_body (nat content_length)
                                 (take (nat content_length) (drop header_len buf)) rs of
                            None \<Rightarrow> None
                          | Some (Inl e) \<Rightarrow> Some (Inl e)
                          | Some (Inr body) \<Rightarrow> Some (Inr (Some body)))))"

text \<open>
  \<open>_read_http_request\<close>: method, path and body. \<open>mallocs\<close> says whether the two allocations
  succeed.
\<close>

definition read_http_request ::
  "httpd_limits \<Rightarrow> bool \<times> bool \<Rightarrow> recv_result list \<Rightarrow> (errcode + (string \<times> string \<times> string option)) option" where
  "read_http_request lim mallocs recvs =
     (if lim_method_bytes lim = 0 \<or> lim_path_bytes lim = 0 then Some (Inl DTERR_BADARG)
      else if \<not> fst mallocs then Some (Inl DTERR_NOMEM)
      else case recv_headers (lim_header_bytes lim) [] recvs of
        None \<Rightarrow> None
      | Some (Inl e) \<Rightarrow> Some (Inl e)
      | Some (Inr (buf, headers_end, rs)) \<Rightarrow>
          (case parse_request_line lim (cstr buf) of
             Inl e \<Rightarrow> Some (Inl e)
           | Inr (m, path) \<Rightarrow>
               (case read_request_body lim (snd mallocs) m buf (headers_end + 4) rs of
                  None \<Rightarrow> None
                | Some (Inl e) \<Rightarrow> Some (Inl e)
                | Some (Inr body) \<Rightarrow> Some (Inr (m, path, body)))))"

section \<open>Requests that arrive whole\<close>

text \<open>A script whose successful calls deliver exactly \<open>s\<close>, interrupted at most by EINTR.\<close>

fun delivers :: "recv_result list \<Rightarrow> string \<Rightarrow> bool" where
  "delivers [] s \<longleftrightarrow> s = []"
| "delivers (Recvd d # rs) s \<longleftrightarrow> d \<noteq> [] \<and> prefix d s \<and> delivers rs (drop (length d) s)"
| "delivers (RecvErr e # rs) s \<longleftrightarrow> e = EINTR \<and> delivers rs s"

lemma recv_headers_delivers:
  "delivers rs (drop n req) \<Longrightarrow> n < k + 4 \<Longrightarrow> k + 4 \<le> length req \<Longrightarrow> length req \<le> cap \<Longrightarrow>
   (\<And>m. strstr (cstr (take m req)) (CRLF @ CRLF) = (if k + 4 \<le> m then Some k else None)) \<Longrightarrow>
   \<exists>m rs'. recv_headers cap (take n req) rs = Some (Inr (take m req, k, rs')) \<and>
     k + 4 \<le> m \<and> m \<le> length req \<and> delivers rs' (drop m req)"
proof (induction rs arbitrary: n)
  case Nil
  then show ?case by simp
next
  case (Cons r rs)
  show ?case
  proof (cases r)
    case (Recvd d)
    with Cons.prems obtain z where z: "drop n req = d @ z" and d: "d \<noteq> []" and
      del: "delivers rs (drop (n + length d) req)"
      by (auto elim!: prefixE simp: add.commute)
    from z have "length (d @ z) = length req - n" by (metis length_drop)
    with Cons.prems have len: "n + length d \<le> length req" by simp
    have app: "take n req @ take (cap - length (take n req)) d = take (n + length d) req"
      using z len Cons.prems(4) by (simp add: take_add)
    show ?thesis
    proof (cases "k + 4 \<le> n + length d")
      case True
      with Recvd d del len show ?thesis
        unfolding Recvd recv_headers.simps Let_def app Cons.prems(5)
        by (intro exI [of _ "n + length d"] exI [of _ rs]) simp
    next
      case False
      with Cons.prems have "n + length d < cap" by linarith
      with False d Recvd Cons.IH [OF del _ Cons.prems(3,4,5)] len show ?thesis
        unfolding Recvd recv_headers.simps Let_def app Cons.prems(5) by auto
    qed
  next
    case (RecvErr e)
    with Cons show ?thesis by simp
  qed
qed

lemma recv_body_delivers:
  "delivers rs (drop n body) \<Longrightarrow> n \<le> length body \<Longrightarrow> recv_body (length body) (take n body) rs = Some (Inr body)"
proof (induction rs arbitrary: n)
  case Nil
  then show ?case by (subst recv_body.simps) simp
next
  case (Cons r rs)
  show ?case
  proof (cases "n = length body")
    case True
    then show ?thesis by (subst recv_body.simps) simp
  next
    case False
    show ?thesis
    proof (cases r)
      case (Recvd d)
      with Cons.prems obtain z where z: "drop n body = d @ z" and d: "d \<noteq> []" and
        del: "delivers rs (drop (n + length d) body)"
        by (auto elim!: prefixE simp: add.commute)
      from z have "length (d @ z) = length body - n" by (metis length_drop)
      with Cons.prems False have len: "n + length d \<le> length body" by simp
      have app: "take n body @ take (length body - n) d = take (n + length d) body"
        using z len by (simp add: take_add)
      show ?thesis
        using False Cons.prems(2) d Cons.IH [OF del len]
        by (subst recv_body.simps) (simp add: Recvd app min_absorb2)
    next
      case (RecvErr e)
      with Cons False show ?thesis by (subst recv_body.simps) simp
    qed
  qed
qed


definition scan_token :: "nat \<Rightarrow> string \<Rightarrow> bool" where
  "scan_token width w \<longleftrightarrow> w \<noteq> [] \<and> length w \<le> width \<and> list_all (\<lambda>c. \<not> is_space c \<and> c \<noteq> NUL) w"

lemma is_space_SP [simp]: "is_space SP"
  by (simp add: is_space_def)

lemma drop_space_token:
  assumes "scan_token width w"
  shows "dropWhile is_space (w @ r) = w @ r"
  using assms by (cases w) (auto simp: scan_token_def)

lemma scan_word_token:
  assumes tok: "scan_token width w" and stop: "r = [] \<or> (\<exists>r'. r = SP # r')"
  shows "scan_word width (w @ r) = Some (w, r)" "scan_word width (SP # w @ r) = Some (w, r)"
proof -
  have "takeWhile (\<lambda>c. \<not> is_space c) (w @ r) = w @ takeWhile (\<lambda>c. \<not> is_space c) r"
    using tok by (subst takeWhile_append2) (auto simp: scan_token_def list_all_iff)
  also have "\<dots> = w" using stop by auto
  finally have tw: "takeWhile (\<lambda>c. \<not> is_space c) (w @ r) = w" .
  moreover have "take width w = w" "w \<noteq> []" "0 < width"
    using tok by (cases w; simp add: scan_token_def)+
  ultimately show "scan_word width (w @ r) = Some (w, r)"
    by (simp add: scan_word_def drop_space_token [OF tok] Let_def)
  then show "scan_word width (SP # w @ r) = Some (w, r)"
    by (simp add: scan_word_def)
qed

definition request_line :: "string \<Rightarrow> string \<Rightarrow> string \<Rightarrow> string" where
  "request_line m t v = m @ [SP] @ t @ [SP] @ v"

lemma scan_request_line_ok:
  assumes "scan_token 31 m" "scan_token 1023 t" "scan_token 63 v"
  shows "scan_request_line (request_line m t v) = Some (m, t, v)"
proof -
  have "scan_word 31 (request_line m t v) = Some (m, SP # t @ SP # v)"
    using scan_word_token(1) [OF assms(1), of "SP # t @ SP # v"] by (simp add: request_line_def)
  moreover have "scan_word 1023 (SP # t @ SP # v) = Some (t, SP # v)"
    by (rule scan_word_token(2) [OF assms(2)]) simp
  moreover have "scan_word 63 (SP # v) = Some (v, [])"
    using scan_word_token(2) [OF assms(3), of "[]"] by simp
  ultimately show ?thesis by (simp add: scan_request_line_def)
qed

lemma is_space_line_ends [simp]: "is_space CR" "is_space LF"
  by (simp_all add: is_space_def)

lemma token_chars:
  assumes "scan_token width w"
  shows "CR \<notin> set w" "LF \<notin> set w" "NUL \<notin> set w"
proof -
  have *: "\<And>c. c \<in> set w \<Longrightarrow> \<not> is_space c \<and> c \<noteq> NUL"
    using assms by (simp add: scan_token_def list_all_iff)
  show "CR \<notin> set w" using * [of CR] is_space_line_ends(1) by blast
  show "LF \<notin> set w" using * [of LF] is_space_line_ends(2) by blast
  show "NUL \<notin> set w" using * [of NUL] by blast
qed

lemma wf_request_line:
  assumes "scan_token 31 m" "scan_token 1023 t" "scan_token 63 v"
  shows "wf_line (request_line m t v)" "length (request_line m t v) < 2048"
proof -
  have "m \<noteq> []" "length m \<le> 31" "length t \<le> 1023" "length v \<le> 63"
    using assms by (simp_all add: scan_token_def)
  then show "length (request_line m t v) < 2048" by (simp add: request_line_def)
  show "wf_line (request_line m t v)"
    using \<open>m \<noteq> []\<close> token_chars [OF assms(1)] token_chars [OF assms(2)] token_chars [OF assms(3)]
    by (simp add: wf_line_def request_line_def)
qed

lemma NUL_lines_of: "list_all wf_line ls \<Longrightarrow> NUL \<notin> set (lines_of ls)"
  by (induction ls) (auto simp: wf_line_def)

lemma cstr_append: "NUL \<notin> set s \<Longrightarrow> cstr (s @ r) = s @ cstr r"
  unfolding cstr_def by (subst takeWhile_append2) auto

text \<open>The blank line is found when it has arrived, whatever the body contains.\<close>

lemma request_blank_line:
  assumes "list_all wf_line ls" "ls \<noteq> []"
  shows "strstr (cstr (take m (lines_of ls @ CRLF @ body))) (CRLF @ CRLF) =
    (if length (lines_of ls) + 2 \<le> m then Some (length (lines_of ls) - 2) else None)"
proof -
  let ?h = "lines_of ls @ CRLF" and ?k = "length (lines_of ls) - 2"
  have k: "?k + 4 = length ?h" using assms by (cases ls) auto
  have nul: "NUL \<notin> set ?h" using NUL_lines_of [OF assms(1)] by simp
  note blank = strstr_blank [OF assms]
  show ?thesis
  proof (cases "length (lines_of ls) + 2 \<le> m")
    case True
    then have "take m (?h @ body) = ?h @ take (m - length ?h) body" by (simp del: append_assoc)
    then have "cstr (take m (?h @ body)) = ?h @ cstr (take (m - length ?h) body)"
      by (simp only: cstr_append [OF nul])
    with True strstr_append [OF blank] show ?thesis by simp
  next
    case False
    then have "take m (?h @ body) = take m ?h" by (simp del: append_assoc)
    moreover have "cstr (take m ?h) = take m ?h" using nul by (intro cstr_id) (meson in_set_takeD)
    ultimately have "cstr (take m (?h @ body)) = take m ?h" by (simp only: append_assoc)
    with False strstr_take [OF blank, of m] k show ?thesis by simp
  qed
qed


section \<open>Properties\<close>

definition header_result :: "string list \<Rightarrow> string \<Rightarrow> int \<Rightarrow> errcode + string option" where
  "header_result ls name cap = (case find_in_lines ls name cap of None \<Rightarrow> Inr None | Some r \<Rightarrow> r)"

lemma find_value_blank: "find_value (CRLF @ r) name cap = find_value r name cap"
  using find_value_line [of "[]" r name cap] by (simp add: value_match_def)

lemma find_header_value_request:
  assumes ls: "list_all wf_line ls" and cap: "0 < cap"
    and stop: "find_in_lines ls name cap \<noteq> None \<or> body = []"
  shows "find_header_value (lines_of ls @ CRLF @ body) name cap = header_result ls name cap"
proof -
  have "list_all (\<lambda>l. CR \<notin> set l) ls"
    using ls by (simp add: list_all_iff wf_line_def)
  from find_value_lines [OF this] have "find_value (lines_of ls @ CRLF @ body) name cap =
    (case find_in_lines ls name cap of None \<Rightarrow> find_value body name cap | Some r \<Rightarrow> r)"
    by (simp add: find_value_blank split: option.splits)
  moreover have "find_value [] name cap = Inr None" by (subst find_value.simps) simp
  ultimately show ?thesis
    using cap stop by (auto simp: find_header_value_def header_result_def split: option.splits)
qed

lemma parse_request_line_ok:
  assumes tok: "scan_token 31 m" "scan_token 1023 t" "scan_token 63 v"
    and "length m < lim_method_bytes lim" "path_part t \<noteq> []" "length (path_part t) < lim_path_bytes lim"
  shows "parse_request_line lim (lines_of (request_line m t v # hs) @ r) = Inr (m, path_part t)"
proof -
  let ?l = "request_line m t v"
  note wf = wf_request_line [OF tok]
  have "strstr (?l @ CRLF @ lines_of hs @ r) CRLF = Some (length ?l)"
    using wf by (intro strstr_line) (simp add: wf_line_def)
  moreover have "length ?l \<noteq> 0" using wf by (simp add: wf_line_def)
  ultimately show ?thesis
    using assms wf(2) scan_request_line_ok [OF tok]
    by (simp add: parse_request_line_def normalize_request_target_def Let_def)
qed

text \<open>A request as a client sends it.\<close>

record http_request =
  rq_method :: string
  rq_target :: string
  rq_version :: string
  rq_headers :: "string list"
  rq_body :: string

definition request_lines :: "http_request \<Rightarrow> string list" where
  "request_lines q = request_line (rq_method q) (rq_target q) (rq_version q) # rq_headers q"

definition request_text :: "http_request \<Rightarrow> string" where
  "request_text q = lines_of (request_lines q) @ CRLF @ rq_body q"

definition header_block :: "http_request \<Rightarrow> string" where
  "header_block q = lines_of (request_lines q) @ CRLF"

text \<open>The request line and the header lines are within the limits.\<close>

definition good_headers :: "httpd_limits \<Rightarrow> http_request \<Rightarrow> bool" where
  "good_headers lim q \<longleftrightarrow>
     scan_token 31 (rq_method q) \<and> scan_token 1023 (rq_target q) \<and> scan_token 63 (rq_version q) \<and>
     list_all wf_line (rq_headers q) \<and>
     length (rq_method q) < lim_method_bytes lim \<and>
     path_part (rq_target q) \<noteq> [] \<and> length (path_part (rq_target q)) < lim_path_bytes lim \<and>
     length (request_text q) \<le> lim_header_bytes lim"

text \<open>
  A POST announces the length of its non-empty body in a \<open>Content-Length\<close> header, any other
  method has no body.
\<close>

definition good_request :: "httpd_limits \<Rightarrow> http_request \<Rightarrow> bool" where
  "good_request lim q \<longleftrightarrow> good_headers lim q \<and>
     (if strcaseeq (rq_method q) ''POST''
      then (case find_in_lines (request_lines q) ''Content-Length'' 64 of
              Some (Inr (Some v)) \<Rightarrow> atoi v = int (length (rq_body q)) \<and> rq_body q \<noteq> [] \<and>
                atoi v \<le> lim_request_bytes lim
            | _ \<Rightarrow> False)
      else rq_body q = [] \<and> (case header_result (request_lines q) ''Content-Length'' 64 of
                                Inl _ \<Rightarrow> False | Inr _ \<Rightarrow> True))"

lemma request_text_block: "request_text q = header_block q @ rq_body q"
  by (simp add: request_text_def header_block_def)

lemma good_headers_wf:
  assumes "good_headers lim q"
  shows "list_all wf_line (request_lines q)" "request_lines q \<noteq> []" "NUL \<notin> set (header_block q)"
    "length (header_block q) = length (lines_of (request_lines q)) - 2 + 4"
proof -
  have "scan_token 31 (rq_method q)" "scan_token 1023 (rq_target q)" "scan_token 63 (rq_version q)"
    using assms by (simp_all add: good_headers_def)
  from wf_request_line(1) [OF this] show wf: "list_all wf_line (request_lines q)"
    using assms by (simp add: good_headers_def request_lines_def)
  from NUL_lines_of [OF this] show "NUL \<notin> set (header_block q)" by (simp add: header_block_def)
  show "request_lines q \<noteq> []"
    "length (header_block q) = length (lines_of (request_lines q)) - 2 + 4"
    by (simp_all add: request_lines_def header_block_def)
qed

lemma cstr_request:
  "good_headers lim q \<Longrightarrow> cstr (header_block q @ r) = header_block q @ cstr r"
  by (rule cstr_append) (rule good_headers_wf)

lemma good_headers_blank:
  assumes "good_headers lim q"
  shows "strstr (cstr (take m (request_text q))) (CRLF @ CRLF) =
    (if length (header_block q) \<le> m then Some (length (lines_of (request_lines q)) - 2) else None)"
  using request_blank_line [OF good_headers_wf(1,2) [OF assms], of m "rq_body q"]
    good_headers_wf(4) [OF assms]
  by (simp add: request_text_def header_block_def)

text \<open>Once the header block is in the buffer, what is left is the body.\<close>

lemma read_http_request_buffered:
  assumes good: "good_headers lim q"
    and recv: "recv_headers (lim_header_bytes lim) [] rs =
      Some (Inr (header_block q @ got, length (lines_of (request_lines q)) - 2, rs'))"
  shows "read_http_request lim (True, True) rs =
    (case read_request_body lim True (rq_method q) (header_block q @ got) (length (header_block q)) rs' of
       None \<Rightarrow> None
     | Some (Inl e) \<Rightarrow> Some (Inl e)
     | Some (Inr body) \<Rightarrow> Some (Inr (rq_method q, path_part (rq_target q), body)))"
proof -
  have "parse_request_line lim (header_block q @ cstr got) = Inr (rq_method q, path_part (rq_target q))"
    using parse_request_line_ok [of "rq_method q" "rq_target q" "rq_version q" lim "rq_headers q" "CRLF @ cstr got"]
      good by (simp add: header_block_def request_lines_def good_headers_def)
  moreover have "lim_method_bytes lim \<noteq> 0" "lim_path_bytes lim \<noteq> 0"
    using good by (auto simp: good_headers_def)
  ultimately show ?thesis
    using good_headers_wf(4) [OF good] by (simp add: read_http_request_def recv cstr_request [OF good])
qed

lemma recv_request:
  assumes good: "good_headers lim q" and del: "delivers rs (request_text q)"
  shows "\<exists>n rs'. recv_headers (lim_header_bytes lim) [] rs =
      Some (Inr (header_block q @ take n (rq_body q), length (lines_of (request_lines q)) - 2, rs')) \<and>
    n \<le> length (rq_body q) \<and> delivers rs' (drop n (rq_body q))"
proof -
  let ?k = "length (lines_of (request_lines q)) - 2"
  note k = good_headers_wf(4) [OF good]
  have "\<exists>m rs'. recv_headers (lim_header_bytes lim) (take 0 (request_text q)) rs =
      Some (Inr (take m (request_text q), ?k, rs')) \<and>
      ?k + 4 \<le> m \<and> m \<le> length (request_text q) \<and> delivers rs' (drop m (request_text q))"
    using good del good_headers_blank [OF good] k
    by (intro recv_headers_delivers) (simp_all add: request_text_block good_headers_def)
  then obtain m rs' where "recv_headers (lim_header_bytes lim) [] rs =
      Some (Inr (take m (request_text q), ?k, rs'))" "length (header_block q) \<le> m"
    "m \<le> length (request_text q)" "delivers rs' (drop m (request_text q))"
    using k by auto
  then show ?thesis
    by (intro exI [of _ "m - length (header_block q)"] exI [of _ rs']) (simp add: request_text_block)
qed

lemma header_in_request:
  assumes good: "good_headers lim q"
    and stop: "find_in_lines (request_lines q) name cap \<noteq> None \<or> r = []" and "0 < cap"
  shows "find_header_value (cstr (header_block q @ r)) name cap = header_result (request_lines q) name cap"
proof -
  have "find_in_lines (request_lines q) name cap \<noteq> None \<or> cstr r = []"
    using stop by (auto simp: cstr_def)
  from find_header_value_request [OF good_headers_wf(1) [OF good] \<open>0 < cap\<close> this] show ?thesis
    unfolding cstr_request [OF good] by (simp add: header_block_def)
qed

lemma read_http_request_delivers:
  assumes good: "good_request lim q" and del: "delivers rs (request_text q)"
  shows "read_http_request lim (True, True) rs =
    Some (Inr (rq_method q, path_part (rq_target q),
               if strcaseeq (rq_method q) ''POST'' then Some (rq_body q) else None))"
proof -
  have hd: "good_headers lim q" using good by (simp add: good_request_def)
  obtain n rs' where recv: "recv_headers (lim_header_bytes lim) [] rs =
      Some (Inr (header_block q @ take n (rq_body q), length (lines_of (request_lines q)) - 2, rs'))"
    and n: "n \<le> length (rq_body q)" and del': "delivers rs' (drop n (rq_body q))"
    using recv_request [OF hd del] by blast
  show ?thesis
  proof (cases "strcaseeq (rq_method q) ''POST''")
    case True
    with good obtain v where v: "find_in_lines (request_lines q) ''Content-Length'' 64 = Some (Inr (Some v))"
      "atoi v = int (length (rq_body q))" "rq_body q \<noteq> []" "atoi v \<le> lim_request_bytes lim"
      by (auto simp: good_request_def split: option.splits sum.splits)
    have "find_header_value (cstr (header_block q @ take n (rq_body q))) ''Content-Length'' 64 = Inr (Some v)"
      using header_in_request [OF hd, of "''Content-Length''" 64] v(1) by (simp add: header_result_def)
    then show ?thesis
      using True v recv_body_delivers [OF del' n] n
      by (simp add: read_http_request_buffered [OF hd recv] read_request_body_def min_absorb2)
  next
    case False
    with good have "rq_body q = []" by (simp add: good_request_def)
    with False good header_in_request [OF hd, of "''Content-Length''" 64 "[]"] show ?thesis
      by (simp add: read_http_request_buffered [OF hd recv] read_request_body_def good_request_def
          split: sum.splits)
  qed
qed


text \<open>
  C11: however the kernel splits a request within the limits into reads, and however often
  they are interrupted, \<open>_read_http_request\<close> returns its method, the path of its target without
  the query, and the announced body.
\<close>

theorem httpd_request_read:
  assumes good: "good_request lim q" and del: "delivers rs (request_text q)"
  shows "read_http_request lim (True, True) rs =
    Some (Inr (rq_method q, path_part (rq_target q),
               if strcaseeq (rq_method q) ''POST'' then Some (rq_body q) else None))"
  using assms by (rule read_http_request_delivers)

definition example_limits :: httpd_limits where
  "example_limits = \<lparr>lim_header_bytes = 200, lim_request_bytes = 100, lim_method_bytes = 32, lim_path_bytes = 64\<rparr>"

definition example_post :: http_request where
  "example_post = \<lparr>rq_method = ''POST'', rq_target = ''/a?b'', rq_version = ''HTTP/1.1'',
     rq_headers = [''content-length: 2''], rq_body = ''hi''\<rparr>"

lemma show_nat_small: "n < 10 \<Longrightarrow> show_nat n = [char_of (48 + n)]"
  by (subst show_nat.simps) simp

theorem httpd_request_read_witness:
  "read_http_request example_limits (True, True)
     [Recvd (take 20 (request_text example_post)), RecvErr EINTR, Recvd (drop 20 (request_text example_post))] =
   Some (Inr (''POST'', ''/a'', Some ''hi''))"
proof -
  have "good_request example_limits example_post" by code_simp
  moreover have "delivers [Recvd (take 20 (request_text example_post)), RecvErr EINTR,
      Recvd (drop 20 (request_text example_post))] (request_text example_post)" by code_simp
  ultimately have "read_http_request example_limits (True, True)
     [Recvd (take 20 (request_text example_post)), RecvErr EINTR, Recvd (drop 20 (request_text example_post))] =
     Some (Inr (rq_method example_post, path_part (rq_target example_post),
       if strcaseeq (rq_method example_post) ''POST'' then Some (rq_body example_post) else None))"
    by (rule httpd_request_read)
  also have "\<dots> = Some (Inr (''POST'', ''/a'', Some ''hi''))" by code_simp
  finally show ?thesis .
qed

lemma recv_body_length:
  "length body \<le> n \<Longrightarrow> recv_body n body rs = Some (Inr b) \<Longrightarrow> length b = n"
proof (induction rs arbitrary: body)
  case Nil
  then show ?case by (subst (asm) recv_body.simps) (auto split: if_splits)
next
  case (Cons r rs)
  from Cons.prems show ?case
    by (subst (asm) recv_body.simps)
      (auto split: if_splits recv_result.splits dest: Cons.IH [rotated])
qed

lemma parse_request_line_bounds:
  "parse_request_line lim bytes = Inr (m, path) \<Longrightarrow>
     length m < lim_method_bytes lim \<and> path \<noteq> [] \<and> length path < lim_path_bytes lim \<and>
     CHR ''?'' \<notin> set path \<and> CHR ''#'' \<notin> set path"
  by (auto simp: parse_request_line_def normalize_request_target_def path_part_def Let_def
      split: option.splits if_splits sum.splits dest: set_takeWhileD)

lemma read_request_body_bounds:
  "read_request_body lim ok m buf n rs = Some (Inr (Some body)) \<Longrightarrow>
     body \<noteq> [] \<and> int (length body) \<le> lim_request_bytes lim \<and> strcaseeq m ''POST''"
  by (auto simp: read_request_body_def Let_def dest!: recv_body_length [rotated]
      split: option.splits if_splits sum.splits)

text \<open>
  C12: whatever a client sends, a request that is accepted has a method and a path that fit the
  caller's buffers, a non-empty path without query or fragment, and a body only for a POST, of at
  most the allowed size.
\<close>

theorem httpd_request_bounded:
  assumes "read_http_request lim mallocs recvs = Some (Inr (m, path, body))"
  shows "length m < lim_method_bytes lim \<and> path \<noteq> [] \<and> length path < lim_path_bytes lim \<and>
    CHR ''?'' \<notin> set path \<and> CHR ''#'' \<notin> set path \<and>
    (case body of None \<Rightarrow> True
     | Some b \<Rightarrow> b \<noteq> [] \<and> int (length b) \<le> lim_request_bytes lim \<and> strcaseeq m ''POST'')"
  using assms
  by (auto simp: read_http_request_def dest!: parse_request_line_bounds read_request_body_bounds
      split: option.splits if_splits sum.splits prod.splits)

theorem httpd_request_bounded_witness:
  "length ''POST'' < lim_method_bytes example_limits \<and> CHR ''?'' \<notin> set ''/a''"
proof -
  have "read_http_request example_limits (True, True) [Recvd (request_text example_post)] =
    Some (Inr (''POST'', ''/a'', Some ''hi''))" by code_simp
  from httpd_request_bounded [OF this] show ?thesis by blast
qed

lemma recv_whole_request:
  assumes good: "good_headers lim q"
  shows "recv_headers (lim_header_bytes lim) [] [Recvd (request_text q)] =
    Some (Inr (header_block q @ rq_body q, length (lines_of (request_lines q)) - 2, []))"
proof -
  have "strstr (cstr (request_text q)) (CRLF @ CRLF) = Some (length (lines_of (request_lines q)) - 2)"
    using good_headers_blank [OF good, of "length (request_text q)"] by (simp add: request_text_block)
  moreover have "request_text q \<noteq> []" by (simp add: request_text_def)
  moreover have "take (lim_header_bytes lim) (request_text q) = request_text q"
    using good by (simp add: good_headers_def)
  ultimately show ?thesis by (simp add: request_text_block)
qed

lemma accepted_post:
  assumes good: "good_headers lim q" and post: "strcaseeq (rq_method q) ''POST''"
    and hdr: "find_header_value (cstr (header_block q @ rq_body q)) ''Content-Length'' 64 = Inr (Some v)"
    and len: "atoi v = int (length (rq_body q))" "rq_body q \<noteq> []" "atoi v \<le> lim_request_bytes lim"
  shows "read_http_request lim (True, True) [Recvd (request_text q)] =
    Some (Inr (rq_method q, path_part (rq_target q), Some (rq_body q)))"
  using assms recv_body_delivers [of "[]" "length (rq_body q)" "rq_body q"]
  by (simp add: read_http_request_buffered [OF good recv_whole_request [OF good]] read_request_body_def)

text \<open>
  The header search does not stop at the blank line. A POST without any \<open>Content-Length\<close>
  header is accepted, and not refused with BADARG, when a line of its own body looks like that
  header and announces the body's length.
\<close>

theorem httpd_length_taken_from_body:
  assumes good: "good_headers lim q" and post: "strcaseeq (rq_method q) ''POST''"
    and none: "find_in_lines (request_lines q) ''Content-Length'' 64 = None"
    and body: "rq_body q = lines_of bs @ r" "list_all wf_line bs" "NUL \<notin> set r"
    and v: "find_in_lines bs ''Content-Length'' 64 = Some (Inr (Some v))"
    and len: "atoi v = int (length (rq_body q))" "atoi v \<le> lim_request_bytes lim"
  shows "read_http_request lim (True, True) [Recvd (request_text q)] =
    Some (Inr (rq_method q, path_part (rq_target q), Some (rq_body q)))"
proof -
  have nocr: "list_all (\<lambda>l. CR \<notin> set l) ls" if "list_all wf_line ls" for ls
    using that by (simp add: list_all_iff wf_line_def)
  have "cstr (header_block q @ rq_body q) = header_block q @ rq_body q"
    using body NUL_lines_of [OF body(2)] good_headers_wf(3) [OF good] by (intro cstr_id) simp
  moreover have "find_header_value (header_block q @ rq_body q) ''Content-Length'' 64 = Inr (Some v)"
    using find_value_lines [OF nocr [OF good_headers_wf(1) [OF good]]] none v
      find_value_lines [OF nocr [OF body(2)]]
    by (simp add: find_header_value_def header_block_def find_value_blank body(1))
  moreover have "rq_body q \<noteq> []" using body(1) v by (cases bs) auto
  ultimately show ?thesis using good post len by (intro accepted_post [where v = v]) simp_all
qed

definition example_smuggle :: http_request where
  "example_smuggle = \<lparr>rq_method = ''POST'', rq_target = ''/a'', rq_version = ''HTTP/1.1'',
     rq_headers = [], rq_body = lines_of [''Content-Length: 21''] @ ''x''\<rparr>"

theorem httpd_length_taken_from_body_witness:
  "read_http_request example_limits (True, True) [Recvd (request_text example_smuggle)] =
    Some (Inr (''POST'', ''/a'', Some (rq_body example_smuggle)))"
proof -
  have "good_headers example_limits example_smuggle" "strcaseeq (rq_method example_smuggle) ''POST''"
    "find_in_lines (request_lines example_smuggle) ''Content-Length'' 64 = None"
    "rq_body example_smuggle = lines_of [''Content-Length: 21''] @ ''x''"
    "list_all wf_line [''Content-Length: 21'']" "NUL \<notin> set ''x''"
    "find_in_lines [''Content-Length: 21''] ''Content-Length'' 64 = Some (Inr (Some ''21''))"
    "atoi ''21'' = int (length (rq_body example_smuggle))" "atoi ''21'' \<le> lim_request_bytes example_limits"
    by code_simp+
  from httpd_length_taken_from_body [OF this] show ?thesis
    by (simp add: example_smuggle_def path_part_def)
qed

lemma digits_value_snoc: "digits_value (ds @ [c]) = 10 * digits_value ds + (of_char c - 48)"
  by (simp add: digits_value_def)

lemma of_char_digit:
  assumes "k < 10"
  shows "(of_char (char_of (48 + k)) :: int) = 48 + int k" "(of_char (char_of (48 + k)) :: nat) = 48 + k"
proof -
  show n: "(of_char (char_of (48 + k)) :: nat) = 48 + k" using assms by (simp add: of_char_of)
  show "(of_char (char_of (48 + k)) :: int) = 48 + int k"
    using arg_cong [OF n, of int] unfolding of_nat_of_char by simp
qed

lemma is_digit_char: "(k::nat) < 10 \<Longrightarrow> is_digit (char_of (48 + k))"
  by (simp add: is_digit_def of_char_digit)

lemma digits_value_show_nat: "digits_value (show_nat n) = int n"
proof (induction n rule: show_nat.induct)
  case (1 n)
  then show ?case
    by (subst show_nat.simps) (auto simp: digits_value_snoc of_char_digit digits_value_def [of "[_]"] zdiv_int zmod_int)
qed

lemma show_nat_digits: "list_all is_digit (show_nat n) \<and> show_nat n \<noteq> []"
proof (induction n rule: show_nat.induct)
  case (1 n)
  then show ?case by (subst (1 2) show_nat.simps) (auto simp: is_digit_char)
qed

lemma atoi_show_nat:
  assumes "n < 2 ^ 63"
  shows "atoi (show_nat n) = to_int32 (int n)"
proof -
  have digits: "list_all is_digit (show_nat n)" "show_nat n \<noteq> []" using show_nat_digits [of n] by simp_all
  then obtain c r where c: "show_nat n = c # r" "is_digit c" by (cases "show_nat n") auto
  have skip: "dropWhile is_space (show_nat n) = show_nat n"
    using c by (auto simp: is_space_def is_digit_def)
  have "c \<noteq> CHR ''-''" "c \<noteq> CHR ''+''" using c(2) by (auto simp: is_digit_def)
  moreover have "takeWhile is_digit (show_nat n) = show_nat n"
    using digits by (simp add: list_all_iff takeWhile_eq_all_conv)
  moreover have "digits_value (show_nat n) \<le> 2 ^ 63 - 1"
    using assms by (simp add: digits_value_show_nat)
  ultimately show ?thesis
    unfolding atoi_def skip
    by (simp add: c(1) Let_def digits_value_show_nat [symmetric])
qed

lemma to_int32_wrap: "to_int32 (x + 4294967296) = to_int32 x"
proof -
  have "x + 4294967296 + 2147483648 = (x + 2147483648) + 4294967296" by simp
  then show ?thesis unfolding to_int32_def by (simp only: mod_add_self2)
qed

text \<open>
  \<open>atoi\<close> keeps 32 bits of the announced length, so a \<open>Content-Length\<close> larger than
  the limit by a multiple of 2^32 passes the range check: a POST that announces n + 2^32 bytes is
  accepted as one of n bytes.
\<close>

theorem httpd_length_wraps:
  assumes good: "good_headers lim q" and post: "strcaseeq (rq_method q) ''POST''"
    and v: "find_in_lines (request_lines q) ''Content-Length'' 64 =
      Some (Inr (Some (show_nat (length (rq_body q) + 2 ^ 32))))"
    and len: "rq_body q \<noteq> []" "int (length (rq_body q)) \<le> min INT32_MAX (lim_request_bytes lim)"
  shows "read_http_request lim (True, True) [Recvd (request_text q)] =
    Some (Inr (rq_method q, path_part (rq_target q), Some (rq_body q)))"
proof (rule accepted_post [OF good post])
  show "find_header_value (cstr (header_block q @ rq_body q)) ''Content-Length'' 64 =
      Inr (Some (show_nat (length (rq_body q) + 2 ^ 32)))"
    using header_in_request [OF good, of "''Content-Length''" 64] v by (simp add: header_result_def)
  have "length (rq_body q) < 2147483648" using len by (simp add: INT32_MAX_def)
  then show eq: "atoi (show_nat (length (rq_body q) + 2 ^ 32)) = int (length (rq_body q))"
    using to_int32_wrap [of "int (length (rq_body q))"]
    by (subst atoi_show_nat) (simp_all add: is_int32_def)
  then show "atoi (show_nat (length (rq_body q) + 2 ^ 32)) \<le> lim_request_bytes lim"
    using len by simp
qed (rule len)

lemma digit_chars:
  "char_of (48::nat) = CHR ''0''" "char_of (49::nat) = CHR ''1''" "char_of (50::nat) = CHR ''2''"
  "char_of (51::nat) = CHR ''3''" "char_of (52::nat) = CHR ''4''" "char_of (53::nat) = CHR ''5''"
  "char_of (54::nat) = CHR ''6''" "char_of (55::nat) = CHR ''7''" "char_of (56::nat) = CHR ''8''"
  "char_of (57::nat) = CHR ''9''"
  by code_simp+

definition example_wrap :: http_request where
  "example_wrap = \<lparr>rq_method = ''POST'', rq_target = ''/a'', rq_version = ''HTTP/1.1'',
     rq_headers = [''Content-Length: 4294967301''], rq_body = ''hello''\<rparr>"

theorem httpd_length_wraps_witness:
  "read_http_request example_limits (True, True) [Recvd (request_text example_wrap)] =
    Some (Inr (''POST'', ''/a'', Some ''hello''))"
proof -
  have "show_nat (length (rq_body example_wrap) + 2 ^ 32) = ''4294967301''"
    by (simp add: example_wrap_def show_nat.simps digit_chars)
  moreover have "find_in_lines (request_lines example_wrap) ''Content-Length'' 64 =
    Some (Inr (Some ''4294967301''))" by code_simp
  ultimately have "find_in_lines (request_lines example_wrap) ''Content-Length'' 64 =
    Some (Inr (Some (show_nat (length (rq_body example_wrap) + 2 ^ 32))))" by simp
  moreover have "good_headers example_limits example_wrap" "strcaseeq (rq_method example_wrap) ''POST''"
    by code_simp+
  ultimately have "read_http_request example_limits (True, True) [Recvd (request_text example_wrap)] =
    Some (Inr (rq_method example_wrap, path_part (rq_target example_wrap), Some (rq_body example_wrap)))"
    by (intro httpd_length_wraps) (simp_all add: example_wrap_def INT32_MAX_def example_limits_def)
  then show ?thesis by (simp add: example_wrap_def path_part_def)
qed

end
