(* ===== verification/HttpdClient.thy ===== *)
theory HttpdClient
  imports HttpdRequest
begin

text \<open>
  What a client task of \<open>dtmc_linux_library/src/dthttpd_linux_socket.c\<close> does between its start
  and its cleanup label: \<open>_handle_post\<close> with the application's callback, and the body of
  \<open>_client_task_entry\<close>. The callback is a parameter: it is given the path, the payload and the
  defaults of the content type and the status, and gives its error, its response and the new
  values of both.
\<close>

type_synonym post_callback =
  "string \<Rightarrow> string \<Rightarrow> string option \<Rightarrow> int \<Rightarrow> dterr \<times> string option \<times> string option \<times> int"

text \<open>\<open>wrap\<close> is the answer of \<open>dtbuffer_wrap\<close>; a NULL body leaves the payload empty.\<close>

definition handle_post ::
  "post_callback option \<Rightarrow> dterr \<Rightarrow> string \<Rightarrow> string option \<Rightarrow> send_result list \<Rightarrow> sink_result" where
  "handle_post callback wrap path body ks =
     (case callback of
        None \<Rightarrow> send_text_response 405 (Some ''POST not configured'') ks
      | Some f \<Rightarrow>
          (case (if body \<noteq> None then wrap else None) of
             Some e \<Rightarrow> Some (Some e, [], ks)
           | None \<Rightarrow>
               (case f path (case body of None \<Rightarrow> [] | Some b \<Rightarrow> b) (Some ''application/octet-stream'') 200 of
                  (Some e, _) \<Rightarrow> Some (Some e, [], ks)
                | (None, response, content_type, status_code) \<Rightarrow>
                    send_response status_code content_type response
                      (case response of None \<Rightarrow> 0 | Some r \<Rightarrow> int (length r)) True ks)))"

text \<open>What the calls of one client task answer.\<close>

record client_env =
  ce_ready :: dterr
  ce_sockopt_ok :: bool
  ce_poll :: "errcode + bool"
  ce_mallocs :: "bool \<times> bool"
  ce_recvs :: "recv_result list"
  ce_wrap :: dterr
  ce_sends :: "send_result list"

text \<open>The configuration a client task reads.\<close>

record client_cfg =
  cc_limits :: httpd_limits
  cc_fs :: filesystem
  cc_roots :: "string option list"
  cc_callback :: "post_callback option"

text \<open>
  \<open>_client_task_entry\<close> up to its cleanup label: the error it logs and the bytes sent;
  \<open>None\<close> while the task is blocked in \<open>recv\<close> or \<open>send\<close>.
\<close>

definition client_serve :: "client_cfg \<Rightarrow> client_env \<Rightarrow> (dterr \<times> byte list) option" where
  "client_serve cfg env =
     (case ce_ready env of
        Some e \<Rightarrow> Some (Some e, [])
      | None \<Rightarrow>
          if \<not> ce_sockopt_ok env then Some (Some DTERR_IO, [])
          else (case ce_poll env of
                  Inl e \<Rightarrow> Some (Some e, [])
                | Inr True \<Rightarrow> Some (None, [])
                | Inr False \<Rightarrow>
                    (case read_http_request (cc_limits cfg) (ce_mallocs env) (ce_recvs env) of
                       None \<Rightarrow> None
                     | Some (Inl e) \<Rightarrow>
                         if e = DTERR_TIMEOUT \<or> e = DTERR_BADARG \<or> e = DTERR_RANGE
                         then map_option (\<lambda>(_, out, _). (Some e, out))
                                (send_text_response 400 (Some ''Bad Request'') (ce_sends env))
                         else Some (Some e, [])
                     | Some (Inr (m, path, body)) \<Rightarrow>
                         map_option (\<lambda>(e, out, _). (e, out))
                           (if strcaseeq m ''GET'' then handle_get (cc_fs cfg) (cc_roots cfg) path (ce_sends env)
                            else if strcaseeq m ''POST''
                            then handle_post (cc_callback cfg) (ce_wrap env) path body (ce_sends env)
                            else send_text_response 405 (Some ''Method Not Allowed'') (ce_sends env)))))"

text \<open>A task that runs without its calls failing, on a kernel that takes what it sends.\<close>

definition calm_env :: "client_env \<Rightarrow> bool" where
  "calm_env env \<longleftrightarrow> ce_ready env = None \<and> ce_sockopt_ok env \<and> ce_poll env = Inr False \<and>
     ce_mallocs env = (True, True) \<and> ce_wrap env = None"

text \<open>The kernel takes \<open>h\<close> and then \<open>b\<close>.\<close>

definition takes_both :: "send_result list \<Rightarrow> nat \<Rightarrow> nat \<Rightarrow> bool" where
  "takes_both ks n m \<longleftrightarrow>
     (case kernel_takes ks n of None \<Rightarrow> False | Some ks' \<Rightarrow> kernel_takes ks' m \<noteq> None)"

lemma client_serve_calm:
  assumes "calm_env env" "good_request (cc_limits cfg) q" "delivers (ce_recvs env) (request_text q)"
  shows "client_serve cfg env =
    map_option (\<lambda>(e, out, _). (e, out))
      (if strcaseeq (rq_method q) ''GET''
       then handle_get (cc_fs cfg) (cc_roots cfg) (path_part (rq_target q)) (ce_sends env)
       else if strcaseeq (rq_method q) ''POST''
       then handle_post (cc_callback cfg) None (path_part (rq_target q)) (Some (rq_body q)) (ce_sends env)
       else send_text_response 405 (Some ''Method Not Allowed'') (ce_sends env))"
  using assms read_http_request_delivers [OF assms(2,3)]
  by (simp add: client_serve_def calm_env_def)

lemma send_response_takes:
  assumes "0 \<le> n" "length (response_header st ct n close) < 1024"
    and takes: "takes_both ks (length (response_header st ct n close)) (length (sent_body body n))"
  shows "\<exists>ks'. send_response st ct body n close ks =
    Some (None, bytes_of (response_header st ct n close @ sent_body body n), ks')"
proof -
  obtain k1 k2 where "kernel_takes ks (length (response_header st ct n close)) = Some k1"
    "kernel_takes k1 (length (sent_body body n)) = Some k2"
    using takes by (auto simp: takes_both_def split: option.splits)
  with httpd_sink.two_takes [of ks "bytes_of (response_header st ct n close)" k1
      "bytes_of (sent_body body n)" k2]
  show ?thesis by (simp add: send_response_two [OF assms(1,2)])
qed

text \<open>
  C9: a GET for a path of a static file, however it arrives, is answered with status 200 and
  exactly the bytes of the file in the first root that has it, with its MIME type and length.
\<close>

theorem httpd_get_end_to_end:
  assumes calm: "calm_env env" and good: "good_request (cc_limits cfg) q"
    and del: "delivers (ce_recvs env) (request_text q)"
    and get: "strcaseeq (rq_method q) ''GET''" "rq_target q = path" "path_part path = path" "path \<noteq> ''/''"
      "is_safe_url_path (Some path)"
    and roots: "cc_roots cfg = map Some missing @ Some root # others"
      "list_all (\<lambda>r. length (r @ path) < PATH_MAX \<and> cc_fs cfg (r @ path) = None) missing"
      "length (root @ path) < PATH_MAX"
    and found: "read_entire_file (cc_fs cfg) (root @ path) = Inr data"
    and header: "header = response_header 200 (Some (guess_mime_type (root @ path))) (int (length data)) True"
      "length header < 1024"
    and takes: "takes_both (ce_sends env) (length header) (length data)"
  shows "client_serve cfg env = Some (None, bytes_of (header @ data))"
proof -
  have "serve_roots (cc_fs cfg) path (map Some missing @ Some root # others) ks =
    serve_roots (cc_fs cfg) path (Some root # others) ks" for ks
    using roots(2) by (induction missing) (auto simp: Let_def read_entire_file_def)
  moreover
  have body: "sent_body (if data = [] then None else Some data) (int (length data)) = data"
    by (simp add: sent_body_def)
  obtain ks' where "send_response 200 (Some (guess_mime_type (root @ path)))
      (if data = [] then None else Some data) (int (length data)) True (ce_sends env) =
      Some (None, bytes_of (header @ data), ks')"
    using send_response_takes [of "int (length data)" 200 "Some (guess_mime_type (root @ path))" True
        "ce_sends env" "if data = [] then None else Some data"] header takes
    unfolding body by auto
  ultimately show ?thesis
    using client_serve_calm [OF calm good del] get roots found
    by (simp add: handle_get_def try_serve_static_file_def Let_def)
qed

text \<open>
  C10: a POST within the limits, however it arrives, calls the callback with the path and exactly
  the announced body, and what is sent is the callback's response with its content type, status
  and length.
\<close>

theorem httpd_post_end_to_end:
  assumes calm: "calm_env env" and good: "good_request (cc_limits cfg) q"
    and del: "delivers (ce_recvs env) (request_text q)"
    and post: "strcaseeq (rq_method q) ''POST''"
    and callback: "cc_callback cfg = Some f"
      "f (path_part (rq_target q)) (rq_body q) (Some ''application/octet-stream'') 200 = (None, Some r, ct, st)"
    and header: "header = response_header st ct (int (length r)) True" "length header < 1024"
    and takes: "takes_both (ce_sends env) (length header) (length r)"
  shows "client_serve cfg env = Some (None, bytes_of (header @ r))"
proof -
  have body: "sent_body (Some r) (int (length r)) = r" by (simp add: sent_body_def)
  obtain ks' where "send_response st ct (Some r) (int (length r)) True (ce_sends env) =
      Some (None, bytes_of (header @ r), ks')"
    using send_response_takes [of "int (length r)" st ct True "ce_sends env" "Some r"] header takes
    unfolding body by auto
  moreover have "\<not> strcaseeq (rq_method q) ''GET''"
    using post by (simp add: strcaseeq_def tolower_def)
  ultimately show ?thesis
    using client_serve_calm [OF calm good del] post callback by (simp add: handle_post_def)
qed


lemma takes_both_two: "n' = n \<Longrightarrow> m' = m \<Longrightarrow> 0 < n \<Longrightarrow> 0 < m \<Longrightarrow> takes_both [Sent n, Sent m] n' m'"
  by (cases n; cases m) (simp_all add: takes_both_def)

definition example_get :: http_request where
  "example_get = \<lparr>rq_method = ''GET'', rq_target = ''/a.js'', rq_version = ''HTTP/1.1'',
     rq_headers = [''Host: h''], rq_body = []\<rparr>"

definition example_cfg :: client_cfg where
  "example_cfg = \<lparr>cc_limits = example_limits,
     cc_fs = (\<lambda>p. if p = ''/w/a.js'' then Some \<lparr>fp_seek_end_ok = True, fp_ftell = 2, fp_seek_set_ok = True,
       fp_malloc_ok = True, fp_data = ''x;''\<rparr> else None),
     cc_roots = [Some ''/v'', Some ''/w''],
     cc_callback = Some (\<lambda>path payload ct st. (None, Some (path @ payload), Some ''text/plain'', 201))\<rparr>"

definition example_env :: "recv_result list \<Rightarrow> send_result list \<Rightarrow> client_env" where
  "example_env rs ks = \<lparr>ce_ready = None, ce_sockopt_ok = True, ce_poll = Inr False, ce_mallocs = (True, True),
     ce_recvs = rs, ce_wrap = None, ce_sends = ks\<rparr>"

lemma calm_example [simp]: "calm_env (example_env rs ks)"
  by (simp add: calm_env_def example_env_def)

lemma example_header_lengths:
  "length (response_header 200 (Some (guess_mime_type ''/w/a.js'')) 2 True) = 110"
  "length (response_header 201 (Some ''text/plain'') 4 True) = 88"
  by code_simp+

lemma example_requests:
  "good_request example_limits example_get" "delivers [Recvd (request_text example_get)] (request_text example_get)"
  "good_request example_limits example_post" "delivers [Recvd (request_text example_post)] (request_text example_post)"
  by code_simp+

lemma example_get_fields [simp]:
  "rq_method example_get = ''GET''" "rq_target example_get = ''/a.js''"
  "rq_method example_post = ''POST''" "rq_target example_post = ''/a?b''" "rq_body example_post = ''hi''"
  by (simp_all add: example_get_def example_post_def)

lemma example_cfg_fields [simp]:
  "cc_limits example_cfg = example_limits" "cc_roots example_cfg = map Some [''/v''] @ Some ''/w'' # []"
  "ce_recvs (example_env rs ks) = rs" "ce_sends (example_env rs ks) = ks"
  by (simp_all add: example_cfg_def example_env_def)

theorem httpd_get_end_to_end_witness:
  "client_serve example_cfg (example_env [Recvd (request_text example_get)] [Sent 110, Sent 2]) =
    Some (None, bytes_of (response_header 200 (Some (guess_mime_type ''/w/a.js'')) 2 True @ ''x;''))"
proof (rule httpd_get_end_to_end [where q = example_get and path = "''/a.js''" and root = "''/w''"
      and missing = "[''/v'']" and others = "[]"])
  show "is_safe_url_path (Some ''/a.js'')" "strcaseeq (rq_method example_get) ''GET''"
    "path_part ''/a.js'' = ''/a.js''" by code_simp+
  show "read_entire_file (cc_fs example_cfg) (''/w'' @ ''/a.js'') = Inr ''x;''"
    by (simp add: example_cfg_def read_entire_file_def INT32_MAX_def)
  show "takes_both (ce_sends (example_env [Recvd (request_text example_get)] [Sent 110, Sent 2]))
      (length (response_header 200 (Some (guess_mime_type ''/w/a.js'')) 2 True)) (length ''x;'')"
    unfolding example_cfg_fields by (rule takes_both_two) (simp_all add: example_header_lengths)
  show "list_all (\<lambda>r. length (r @ ''/a.js'') < PATH_MAX \<and> cc_fs example_cfg (r @ ''/a.js'') = None) [''/v'']"
    by (simp add: example_cfg_def PATH_MAX_def)
qed (simp_all add: example_requests example_header_lengths PATH_MAX_def del: delivers.simps)

theorem httpd_post_end_to_end_witness:
  "client_serve example_cfg (example_env [Recvd (request_text example_post)] [Sent 88, Sent 4]) =
    Some (None, bytes_of (response_header 201 (Some ''text/plain'') 4 True @ ''/ahi''))"
proof (rule httpd_post_end_to_end [where q = example_post and ct = "Some ''text/plain''" and st = 201 and
      f = "\<lambda>path payload ct st. (None, Some (path @ payload), Some ''text/plain'', 201)"])
  show "takes_both (ce_sends (example_env [Recvd (request_text example_post)] [Sent 88, Sent 4]))
      (length (response_header 201 (Some ''text/plain'') 4 True)) (length ''/ahi'')"
    unfolding example_cfg_fields by (rule takes_both_two) (simp_all add: example_header_lengths)
  show "strcaseeq (rq_method example_post) ''POST''" by code_simp
  show "cc_callback example_cfg = Some (\<lambda>path payload ct st. (None, Some (path @ payload), Some ''text/plain'', 201))"
    by (simp add: example_cfg_def)
  show "(None, Some (path_part (rq_target example_post) @ rq_body example_post), Some ''text/plain'', 201) =
    (None, Some ''/ahi'', Some ''text/plain'', 201)"
    by (simp add: path_part_def)
qed (simp_all add: example_requests example_header_lengths del: delivers.simps)

end
