(* ===== verification/HttpdServer.thy ===== *)
theory HttpdServer
  imports HttpdClient
begin

text \<open>
  The server object of \<open>dtmc_linux_library/src/dthttpd_linux_socket.c\<close>: the client slots, the
  accept task and the life cycle. Taskers are handles; what the calls on them answer is part of the
  environment of each operation. The client tasks run beside the accept task, and their accesses to
  the slots are atomic steps: \<open>_mark_slot_finished\<close> and each round of the accept loop hold the
  server's lock.
\<close>

section \<open>Slots\<close>

record client_slot_t =
  cs_is_active :: bool
  cs_is_joined :: bool
  cs_client_fd :: fd
  cs_tasker :: "nat option"

definition client_slot_init :: client_slot_t where
  "client_slot_init = \<lparr>cs_is_active = False, cs_is_joined = True, cs_client_fd = -1, cs_tasker = None\<rparr>"

record httpd_config =
  hc_bind_host :: "string option"
  hc_bind_port :: int
  hc_listen_backlog :: int
  hc_max_concurrent_connections :: int

record dthttpd_t =
  hs_config :: httpd_config
  hs_callback :: "post_callback option"
  hs_listen_fd :: fd
  hs_is_started :: bool
  hs_stop_requested :: bool
  hs_accept_tasker :: "nat option"
  hs_client_slots :: "client_slot_t list option"
  hs_slot_count :: int
  hs_active_count :: int

text \<open>The slots; a NULL array has none.\<close>

definition hs_slots :: "dthttpd_t \<Rightarrow> client_slot_t list" where
  "hs_slots self = (case hs_client_slots self of None \<Rightarrow> [] | Some cs \<Rightarrow> cs)"

text \<open>\<open>_mark_slot_finished\<close> of slot \<open>i\<close>, with the answers of the lock.\<close>

definition mark_slot_finished :: "dterr \<Rightarrow> dterr \<Rightarrow> nat \<Rightarrow> dthttpd_t \<Rightarrow> dterr \<times> dthttpd_t" where
  "mark_slot_finished acquire release i server =
     (case acquire of
        Some e \<Rightarrow> (Some e, server)
      | None \<Rightarrow>
          (release,
           if cs_is_active (hs_slots server ! i)
           then server\<lparr>hs_client_slots := Some ((hs_slots server)[i := (hs_slots server ! i)\<lparr>cs_is_active := False\<rparr>]),
                  hs_active_count := (if 0 < hs_active_count server then hs_active_count server - 1
                                      else hs_active_count server)\<rparr>
           else server))"

text \<open>The answer of \<open>dttasker_join\<close>.\<close>

datatype join_answer = Joined | JoinTimeout | JoinError errcode

definition try_reap_finished_slot :: "join_answer \<Rightarrow> client_slot_t \<Rightarrow> dterr \<times> client_slot_t" where
  "try_reap_finished_slot ja slot =
     (if cs_is_active slot then (None, slot)
      else if cs_tasker slot = None then (None, slot\<lparr>cs_is_joined := True\<rparr>)
      else if \<not> cs_is_joined slot
      then (case ja of
              JoinError e \<Rightarrow> (Some e, slot)
            | JoinTimeout \<Rightarrow> (None, slot)
            | Joined \<Rightarrow> (None, slot\<lparr>cs_is_joined := True, cs_tasker := None\<rparr>))
      else (None, slot\<lparr>cs_tasker := None\<rparr>))"

fun reap_finished_slots :: "(nat \<Rightarrow> join_answer) \<Rightarrow> nat \<Rightarrow> client_slot_t list \<Rightarrow> dterr \<times> client_slot_t list" where
  "reap_finished_slots ja i [] = (None, [])"
| "reap_finished_slots ja i (c # cs) =
     (case try_reap_finished_slot (ja i) c of
        (Some e, c') \<Rightarrow> (Some e, c' # cs)
      | (None, c') \<Rightarrow> (case reap_finished_slots ja (i + 1) cs of (e, cs') \<Rightarrow> (e, c' # cs')))"

text \<open>\<open>None\<close> for the error BUSY.\<close>

fun find_free_slot :: "client_slot_t list \<Rightarrow> nat option" where
  "find_free_slot [] = None"
| "find_free_slot (c # cs) =
     (if \<not> cs_is_active c \<and> cs_tasker c = None then Some 0 else map_option Suc (find_free_slot cs))"

section \<open>The accept task\<close>

record accept_env =
  ae_poll :: "errcode + bool"
  ae_accept :: "errno + fd"
  ae_lock :: dterr
  ae_unlock :: dterr
  ae_join :: "nat \<Rightarrow> join_answer"
  ae_create :: "errcode + nat"
  ae_start :: dterr
  ae_sends :: "send_result list"

datatype accept_outcome = AcceptAgain | AcceptStop | AcceptFails errcode

text \<open>The busy reply and the close, after the lock was released; \<open>None\<close> while the send blocks.\<close>

definition reject_busy_client ::
  "send_result list \<Rightarrow> fd \<Rightarrow> dthttpd_t \<Rightarrow> fd list \<Rightarrow> (accept_outcome \<times> dthttpd_t \<times> fd list \<times> byte list) option" where
  "reject_busy_client ks client_fd self fds =
     map_option (\<lambda>(e, out, _). (AcceptAgain, self, snd (close_if_open client_fd fds), out))
       (send_text_response 503 (Some ''Service Unavailable'') ks)"

text \<open>The jump to \<open>accept_iteration_cleanup\<close>: unlock, close, log, go on.\<close>

definition abandon_client :: "fd \<Rightarrow> dthttpd_t \<Rightarrow> fd list \<Rightarrow> (accept_outcome \<times> dthttpd_t \<times> fd list \<times> byte list) option" where
  "abandon_client client_fd self fds = Some (AcceptAgain, self, snd (close_if_open client_fd fds), [])"

text \<open>From the free slot on: fill the slot, create and start the task.\<close>

definition start_client ::
  "accept_env \<Rightarrow> fd \<Rightarrow> nat \<Rightarrow> dthttpd_t \<Rightarrow> fd list \<Rightarrow> (accept_outcome \<times> dthttpd_t \<times> fd list \<times> byte list) option" where
  "start_client env client_fd i self fds =
     (let cs = hs_slots self;
          put = (\<lambda>c. self\<lparr>hs_client_slots := Some (cs[i := c])\<rparr>);
          idle = (cs ! i)\<lparr>cs_client_fd := -1, cs_is_active := False, cs_is_joined := True, cs_tasker := None\<rparr> in
      (case ae_create env of
         Inl e \<Rightarrow> abandon_client client_fd (put idle) fds
       | Inr h \<Rightarrow>
           if ae_start env \<noteq> None then abandon_client client_fd (put idle) fds
           else
             let self' = (put \<lparr>cs_is_active = True, cs_is_joined = False, cs_client_fd = client_fd, cs_tasker = Some h\<rparr>)
                   \<lparr>hs_active_count := hs_active_count self + 1\<rparr> in
             (case ae_unlock env of
                Some e \<Rightarrow> Some (AcceptFails e, self', fds, [])
              | None \<Rightarrow> Some (AcceptAgain, self', fds, []))))"

text \<open>The part of a round after a successful accept.\<close>

definition accept_client ::
  "accept_env \<Rightarrow> fd \<Rightarrow> dthttpd_t \<Rightarrow> fd list \<Rightarrow> (accept_outcome \<times> dthttpd_t \<times> fd list \<times> byte list) option" where
  "accept_client env client_fd self fds =
     (case ae_lock env of
        Some e \<Rightarrow> Some (AcceptFails e, self, fds, [])
      | None \<Rightarrow>
          (case reap_finished_slots (ae_join env) 0 (hs_slots self) of
             (reap_err, cs) \<Rightarrow>
               let self1 = self\<lparr>hs_client_slots := map_option (\<lambda>_. cs) (hs_client_slots self)\<rparr> in
               if reap_err \<noteq> None then abandon_client client_fd self1 fds
               else if hc_max_concurrent_connections (hs_config self) \<le> hs_active_count self1
                 \<or> find_free_slot cs = None
               then (case ae_unlock env of
                       Some e \<Rightarrow> Some (AcceptFails e, self1, fds, [])
                     | None \<Rightarrow> reject_busy_client (ae_sends env) client_fd self1 fds)
               else start_client env client_fd (the (find_free_slot cs)) self1 fds))"

text \<open>One round of the loop: the outcome, the server, the open descriptors, the bytes of a busy reply.\<close>

definition accept_round ::
  "accept_env \<Rightarrow> dthttpd_t \<Rightarrow> fd list \<Rightarrow> (accept_outcome \<times> dthttpd_t \<times> fd list \<times> byte list) option" where
  "accept_round env self fds =
     (case ae_poll env of
        Inl e \<Rightarrow> Some (AcceptFails e, self, fds, [])
      | Inr True \<Rightarrow> Some (AcceptStop, self, fds, [])
      | Inr False \<Rightarrow>
          (case ae_accept env of
             Inl er \<Rightarrow>
               Some (if er = EINTR then AcceptAgain
                     else if hs_stop_requested self then AcceptStop
                     else if er = EBADF \<or> er = EINVAL then AcceptStop
                     else AcceptAgain, self, fds, [])
           | Inr client_fd \<Rightarrow> accept_client env client_fd self (client_fd # fds)))"

text \<open>\<open>_accept_task_entry\<close> after its ready call: the rounds until one ends the loop.\<close>

fun accept_loop :: "accept_env list \<Rightarrow> dthttpd_t \<Rightarrow> fd list \<Rightarrow> (dterr \<times> dthttpd_t \<times> fd list) option" where
  "accept_loop [] self fds = None"
| "accept_loop (env # envs) self fds =
     (case accept_round env self fds of
        None \<Rightarrow> None
      | Some (AcceptAgain, self', fds', _) \<Rightarrow> accept_loop envs self' fds'
      | Some (AcceptStop, self', fds', _) \<Rightarrow> Some (None, self', fds')
      | Some (AcceptFails e, self', fds', _) \<Rightarrow> Some (Some e, self', fds'))"

section \<open>Life cycle\<close>

definition httpd_zeroed :: dthttpd_t where
  "httpd_zeroed = \<lparr>hs_config = \<lparr>hc_bind_host = None, hc_bind_port = 0, hc_listen_backlog = 0,
       hc_max_concurrent_connections = 0\<rparr>,
     hs_callback = None, hs_listen_fd = -1, hs_is_started = False, hs_stop_requested = False,
     hs_accept_tasker = None, hs_client_slots = None, hs_slot_count = 0, hs_active_count = 0\<rparr>"

definition httpd_init :: "dterr \<Rightarrow> dterr \<Rightarrow> dterr \<times> dthttpd_t" where
  "httpd_init vtable lock = (if vtable \<noteq> None then vtable else lock, httpd_zeroed)"

definition httpd_create :: "bool \<Rightarrow> dterr \<Rightarrow> dterr \<Rightarrow> dterr \<times> dthttpd_t option" where
  "httpd_create malloc_ok vtable lock =
     (if \<not> malloc_ok then (Some DTERR_NOMEM, None)
      else (case httpd_init vtable lock of
              (Some e, _) \<Rightarrow> (Some e, None)
            | (None, self) \<Rightarrow> (None, Some self)))"

text \<open>The loop over the old slots of configure and dispose: close the descriptors.\<close>

definition close_slots :: "client_slot_t list \<Rightarrow> fd list \<Rightarrow> fd list" where
  "close_slots cs fds = fold (\<lambda>c fds. snd (close_if_open (cs_client_fd c) fds)) cs fds"

definition httpd_configure ::
  "bool \<Rightarrow> int \<Rightarrow> httpd_config \<Rightarrow> dthttpd_t \<Rightarrow> fd list \<Rightarrow> dterr \<times> dthttpd_t \<times> fd list" where
  "httpd_configure calloc_ok default_max config self fds =
     (if hc_bind_port config \<le> 0 \<or> 65535 < hc_bind_port config then (Some DTERR_BADARG, self, fds)
      else
        let c = config\<lparr>hc_bind_host := (case hc_bind_host config of None \<Rightarrow> Some ''0.0.0.0'' | Some h \<Rightarrow> Some h),
              hc_listen_backlog := (if hc_listen_backlog config \<le> 0 then 16 else hc_listen_backlog config),
              hc_max_concurrent_connections :=
                (if hc_max_concurrent_connections config \<le> 0 then default_max
                 else hc_max_concurrent_connections config)\<rparr>;
            n = hc_max_concurrent_connections c;
            self1 = self\<lparr>hs_config := c, hs_client_slots := None\<rparr>;
            fds1 = close_slots (hs_slots self) fds in
        if \<not> calloc_ok then (Some DTERR_NOMEM, self1, fds1)
        else (None, self1\<lparr>hs_client_slots := Some (replicate (nat n) client_slot_init),
               hs_slot_count := n, hs_active_count := 0\<rparr>, fds1))"

definition httpd_set_callback :: "post_callback option \<Rightarrow> dthttpd_t \<Rightarrow> dthttpd_t" where
  "httpd_set_callback callback self = self\<lparr>hs_callback := callback\<rparr>"

text \<open>
  \<open>_open_listen_socket\<close>: \<open>tries\<close> is \<open>None\<close> when \<open>getaddrinfo\<close> fails. The result is the error,
  \<open>*out_fd\<close> and the open descriptors.
\<close>

definition open_listen_socket ::
  "addr_try list option \<Rightarrow> bool \<Rightarrow> dthttpd_t \<Rightarrow> fd list \<Rightarrow> dterr \<times> fd \<times> fd list" where
  "open_listen_socket tries listen_ok self fds =
     (if hc_bind_port (hs_config self) \<le> 0 \<or> 65535 < hc_bind_port (hs_config self)
      then (Some DTERR_BADARG, -1, fds)
      else (case tries of
              None \<Rightarrow> (Some DTERR_IO, -1, fds)
            | Some ts \<Rightarrow>
                (case bind_loop (-1) ts fds of
                   (Some e, s, fds') \<Rightarrow> (Some e, -1, snd (close_if_open s fds'))
                 | (None, s, fds') \<Rightarrow>
                     if s < 0 then (Some DTERR_IO, -1, fds')
                     else if \<not> listen_ok then (Some DTERR_IO, -1, snd (close_if_open s fds'))
                     else (None, s, fds'))))"

record loop_env =
  lo_tries :: "addr_try list option"
  lo_listen_ok :: bool
  lo_create :: "errcode + nat"
  lo_start :: dterr

definition httpd_loop :: "loop_env \<Rightarrow> dthttpd_t \<Rightarrow> fd list \<Rightarrow> dterr \<times> dthttpd_t \<times> fd list" where
  "httpd_loop env self fds =
     (if hs_is_started self then (None, self, fds)
      else (case open_listen_socket (lo_tries env) (lo_listen_ok env) self fds of
              (Some e, _, fds') \<Rightarrow> (Some e, self, fds')
            | (None, s, fds') \<Rightarrow>
                let self1 = self\<lparr>hs_listen_fd := s, hs_stop_requested := False\<rparr> in
                (case lo_create env of
                   Inl e \<Rightarrow> (Some e, self1\<lparr>hs_accept_tasker := None\<rparr>, fds')
                 | Inr h \<Rightarrow>
                     let self2 = self1\<lparr>hs_accept_tasker := Some h\<rparr> in
                     if lo_start env \<noteq> None then (lo_start env, self2, fds')
                     else (None, self2\<lparr>hs_is_started := True\<rparr>, fds'))))"

text \<open>
  \<open>dthttpd_linux_socket_stop\<close>; \<open>stop_err\<close> is the answer for the accept task. The list is the
  slots whose task is told to stop and whose connection is shut down.
\<close>

definition httpd_stop ::
  "dterr \<Rightarrow> dterr \<Rightarrow> dterr \<Rightarrow> dthttpd_t \<Rightarrow> fd list \<Rightarrow> dterr \<times> dthttpd_t \<times> fd list \<times> nat list" where
  "httpd_stop stop_err acquire release self fds =
     (let self1 = self\<lparr>hs_stop_requested := True\<rparr> in
      if hs_accept_tasker self \<noteq> None \<and> stop_err \<noteq> None then (stop_err, self1, fds, [])
      else
        let self2 = self1\<lparr>hs_listen_fd := fst (close_if_open (hs_listen_fd self) fds)\<rparr>;
            fds2 = snd (close_if_open (hs_listen_fd self) fds) in
        (case acquire of
           Some e \<Rightarrow> (Some e, self2, fds2, [])
         | None \<Rightarrow>
             (release, self2, fds2,
              filter (\<lambda>i. cs_is_active (hs_slots self ! i) \<and> cs_tasker (hs_slots self ! i) \<noteq> None)
                [0..<length (hs_slots self)])))"

text \<open>The loop of join over the slots: the error or timeout it stops at, the slots, the descriptors.\<close>

fun join_slots :: "(nat \<Rightarrow> join_answer) \<Rightarrow> nat \<Rightarrow> client_slot_t list \<Rightarrow> fd list \<Rightarrow> join_answer \<times> client_slot_t list \<times> fd list" where
  "join_slots ja i [] fds = (Joined, [], fds)"
| "join_slots ja i (c # cs) fds =
     (if cs_tasker c = None
      then (case join_slots ja (i + 1) cs fds of (r, cs', fds') \<Rightarrow> (r, c # cs', fds'))
      else (case ja i of
              Joined \<Rightarrow>
                (case join_slots ja (i + 1) cs (snd (close_if_open (cs_client_fd c) fds)) of
                   (r, cs', fds') \<Rightarrow>
                     (r, c\<lparr>cs_is_joined := True, cs_client_fd := fst (close_if_open (cs_client_fd c) fds),
                            cs_tasker := None\<rparr> # cs', fds'))
            | r \<Rightarrow> (r, c # cs, fds)))"

text \<open>The error, \<open>*was_timeout\<close>, the server and the open descriptors.\<close>

definition httpd_join ::
  "join_answer \<Rightarrow> (nat \<Rightarrow> join_answer) \<Rightarrow> dthttpd_t \<Rightarrow> fd list \<Rightarrow> dterr \<times> bool \<times> dthttpd_t \<times> fd list" where
  "httpd_join accept_ja ja self fds =
     (case (if hs_accept_tasker self = None then Joined else accept_ja) of
        JoinError e \<Rightarrow> (Some e, False, self, fds)
      | JoinTimeout \<Rightarrow> (None, True, self, fds)
      | Joined \<Rightarrow>
          (case join_slots ja 0 (hs_slots self) fds of
             (r, cs, fds') \<Rightarrow>
               let self1 = self\<lparr>hs_accept_tasker := None, hs_client_slots := map_option (\<lambda>_. cs) (hs_client_slots self)\<rparr> in
               (case r of
                  JoinError e \<Rightarrow> (Some e, False, self1, fds')
                | JoinTimeout \<Rightarrow> (None, True, self1, fds')
                | Joined \<Rightarrow> (None, False, self1\<lparr>hs_is_started := False, hs_active_count := 0\<rparr>, fds'))))"

text \<open>\<open>dthttpd_linux_socket_dispose\<close>: the descriptors that stay open.\<close>

definition httpd_dispose :: "dthttpd_t \<Rightarrow> fd list \<Rightarrow> fd list" where
  "httpd_dispose self fds = close_slots (hs_slots self) (snd (close_if_open (hs_listen_fd self) fds))"

section \<open>Accept and client tasks together\<close>

text \<open>
  \<open>hy_serving\<close> are the slots whose task has not closed its connection, \<open>hy_closed\<close> those whose
  task has and has not yet marked the slot finished.
\<close>

record httpd_system =
  hy_server :: dthttpd_t
  hy_fds :: "fd list"
  hy_serving :: "nat set"
  hy_closed :: "nat set"

definition active_slots :: "dthttpd_t \<Rightarrow> nat set" where
  "active_slots self = {i. i < length (hs_slots self) \<and> cs_is_active (hs_slots self ! i)}"

text \<open>The kernel gives a new descriptor; the lock works; a join succeeds only on an ended task.\<close>

definition accept_env_ok :: "accept_env \<Rightarrow> httpd_system \<Rightarrow> bool" where
  "accept_env_ok env y \<longleftrightarrow>
     (case ae_accept env of Inl _ \<Rightarrow> True | Inr s \<Rightarrow> 0 \<le> s \<and> s \<notin> set (hy_fds y)) \<and>
     ae_lock env = None \<and> ae_unlock env = None"

text \<open>\<open>_close_if_open(&slot->client_fd)\<close> of the client task.\<close>

definition close_client :: "nat \<Rightarrow> httpd_system \<Rightarrow> httpd_system" where
  "close_client i y =
     (let cs = hs_slots (hy_server y); r = close_if_open (cs_client_fd (cs ! i)) (hy_fds y) in
      y\<lparr>hy_server := (hy_server y)\<lparr>hs_client_slots := Some (cs[i := (cs ! i)\<lparr>cs_client_fd := fst r\<rparr>])\<rparr>,
        hy_fds := snd r, hy_serving := hy_serving y - {i}, hy_closed := insert i (hy_closed y)\<rparr>)"

inductive httpd_step :: "httpd_system \<Rightarrow> httpd_system \<Rightarrow> bool" where
  accept: "accept_env_ok env y \<Longrightarrow> accept_round env (hy_server y) (hy_fds y) = Some (r, s', fds', out) \<Longrightarrow>
     httpd_step y (y\<lparr>hy_server := s', hy_fds := fds',
       hy_serving := hy_serving y \<union> (active_slots s' - active_slots (hy_server y))\<rparr>)"
| close: "i \<in> hy_serving y \<Longrightarrow> httpd_step y (close_client i y)"
| finish: "i \<in> hy_closed y \<Longrightarrow> mark_slot_finished None None i (hy_server y) = (e, s') \<Longrightarrow>
     httpd_step y (y\<lparr>hy_server := s', hy_closed := hy_closed y - {i}\<rparr>)"


abbreviation slot_fd :: "httpd_system \<Rightarrow> nat \<Rightarrow> fd" where
  "slot_fd y i \<equiv> cs_client_fd (hs_slots (hy_server y) ! i)"

text \<open>\<open>base\<close> are the descriptors that do not belong to a client.\<close>

definition httpd_inv :: "fd set \<Rightarrow> httpd_system \<Rightarrow> bool" where
  "httpd_inv base y \<longleftrightarrow>
     hs_client_slots (hy_server y) \<noteq> None \<and>
     int (length (hs_slots (hy_server y))) = hc_max_concurrent_connections (hs_config (hy_server y)) \<and>
     hs_active_count (hy_server y) = int (card (active_slots (hy_server y))) \<and>
     active_slots (hy_server y) = hy_serving y \<union> hy_closed y \<and> hy_serving y \<inter> hy_closed y = {} \<and>
     (\<forall>i\<in>hy_serving y. 0 \<le> slot_fd y i) \<and>
     (\<forall>i<length (hs_slots (hy_server y)). i \<notin> hy_serving y \<longrightarrow> slot_fd y i < 0) \<and>
     inj_on (slot_fd y) (hy_serving y) \<and>
     set (hy_fds y) = base \<union> slot_fd y ` hy_serving y \<and> slot_fd y ` hy_serving y \<inter> base = {} \<and>
     (\<forall>i\<in>active_slots (hy_server y). cs_tasker (hs_slots (hy_server y) ! i) \<noteq> None)"

lemma hs_slots_update [simp]:
  "hs_slots (s\<lparr>hs_client_slots := Some cs\<rparr>) = cs"
  "hs_slots (s\<lparr>hs_client_slots := Some cs, hs_active_count := n\<rparr>) = cs"
  by (simp_all add: hs_slots_def)

lemma active_slots_bound: "finite (active_slots s)" "card (active_slots s) \<le> length (hs_slots s)"
proof -
  have sub: "active_slots s \<subseteq> {..<length (hs_slots s)}" by (auto simp: active_slots_def)
  then show "finite (active_slots s)" by (rule finite_subset) simp
  from card_mono [OF _ sub] show "card (active_slots s) \<le> length (hs_slots s)" by simp
qed

text \<open>Changes to slots that are not in use keep the invariant.\<close>

definition idle_change :: "client_slot_t list \<Rightarrow> client_slot_t list \<Rightarrow> bool" where
  "idle_change cs cs' \<longleftrightarrow> length cs' = length cs \<and>
     (\<forall>i<length cs. cs_is_active (cs' ! i) = cs_is_active (cs ! i) \<and>
        (cs_is_active (cs ! i) \<longrightarrow> cs' ! i = cs ! i) \<and>
        (cs_client_fd (cs ! i) < 0 \<longrightarrow> cs_client_fd (cs' ! i) < 0))"

lemma idle_change_active:
  "idle_change (hs_slots s) cs' \<Longrightarrow> active_slots (s\<lparr>hs_client_slots := Some cs'\<rparr>) = active_slots s"
  by (auto simp: active_slots_def idle_change_def)

lemma inv_idle_change:
  assumes inv: "httpd_inv base y" and idle: "idle_change (hs_slots (hy_server y)) cs'"
  shows "httpd_inv base (y\<lparr>hy_server := (hy_server y)\<lparr>hs_client_slots := Some cs'\<rparr>\<rparr>)"
proof -
  let ?cs = "hs_slots (hy_server y)"
  have srv: "i < length ?cs \<and> cs_is_active (?cs ! i)" if "i \<in> hy_serving y \<union> hy_closed y" for i
    using inv that by (auto simp: httpd_inv_def active_slots_def)
  then have same: "cs' ! i = ?cs ! i" if "i \<in> hy_serving y \<union> hy_closed y" for i
    using idle that by (auto simp: idle_change_def)
  then have img: "(\<lambda>i. cs_client_fd (cs' ! i)) ` hy_serving y = slot_fd y ` hy_serving y"
    by (intro image_cong) auto
  have inj: "inj_on (\<lambda>i. cs_client_fd (cs' ! i)) (hy_serving y) = inj_on (slot_fd y) (hy_serving y)"
    using same by (intro inj_on_cong) auto
  show ?thesis
    using inv idle same img inj
    by (simp add: httpd_inv_def idle_change_active) (auto simp: idle_change_def)
qed

lemma reap_idle_change: "idle_change cs (snd (reap_finished_slots ja k cs))"
proof (induction cs arbitrary: k)
  case Nil
  show ?case by (simp add: idle_change_def)
next
  case (Cons c cs)
  have one: "cs_is_active (snd (try_reap_finished_slot j c)) = cs_is_active c \<and>
      cs_client_fd (snd (try_reap_finished_slot j c)) = cs_client_fd c \<and>
      (cs_is_active c \<longrightarrow> snd (try_reap_finished_slot j c) = c)" for j
    by (simp add: try_reap_finished_slot_def split: join_answer.split)
  have cons: "idle_change (c # cs) (c' # cs')"
    if "idle_change cs cs'" "cs_is_active c' = cs_is_active c" "cs_client_fd c' = cs_client_fd c"
      "cs_is_active c \<longrightarrow> c' = c" for c' cs'
    using that by (auto simp: idle_change_def nth_Cons split: nat.split)
  have refl: "idle_change cs cs" by (simp add: idle_change_def)
  obtain e c' where r: "try_reap_finished_slot (ja k) c = (e, c')" by fastforce
  obtain e2 cs2 where r2: "reap_finished_slots ja (k + 1) cs = (e2, cs2)" by fastforce
  show ?case
    using one [of "ja k"] cons [OF refl, of c'] cons [of cs2 c'] Cons.IH [of "k + 1"] r r2
    by (cases e) auto
qed

lemma find_free_slot_Some:
  "find_free_slot cs = Some i \<Longrightarrow> i < length cs \<and> \<not> cs_is_active (cs ! i) \<and> cs_tasker (cs ! i) = None"
  by (induction cs arbitrary: i) (auto split: if_splits)

lemma find_free_slot_None:
  "find_free_slot cs = None \<Longrightarrow> i < length cs \<Longrightarrow> cs_is_active (cs ! i) \<or> cs_tasker (cs ! i) \<noteq> None"
  by (induction cs arbitrary: i) (auto simp: nth_Cons split: if_splits nat.splits)


lemma removeAll_fresh: "x \<notin> set xs \<Longrightarrow> removeAll x (x # xs) = xs"
  by simp

text \<open>What a round does to the server and to the descriptors.\<close>

datatype round_effect = NoClient | ClientIn nat fd nat

definition round_ok :: "httpd_system \<Rightarrow> round_effect \<Rightarrow> dthttpd_t \<Rightarrow> fd list \<Rightarrow> bool" where
  "round_ok y eff s' fds' \<longleftrightarrow>
     (\<exists>cs. idle_change (hs_slots (hy_server y)) cs \<and>
       (case eff of
          NoClient \<Rightarrow> s' = (hy_server y)\<lparr>hs_client_slots := Some cs\<rparr> \<and> fds' = hy_fds y
        | ClientIn i s h \<Rightarrow>
            i < length cs \<and> \<not> cs_is_active (cs ! i) \<and> 0 \<le> s \<and> s \<notin> set (hy_fds y) \<and>
            hs_active_count (hy_server y) < hc_max_concurrent_connections (hs_config (hy_server y)) \<and>
            s' = (hy_server y)\<lparr>hs_client_slots := Some (cs[i := \<lparr>cs_is_active = True, cs_is_joined = False,
                cs_client_fd = s, cs_tasker = Some h\<rparr>]),
              hs_active_count := hs_active_count (hy_server y) + 1\<rparr> \<and> fds' = s # hy_fds y))"

lemma idle_change_refl: "idle_change cs cs"
  by (simp add: idle_change_def)

lemma idle_change_idle_slot:
  assumes "idle_change cs cs'" "i < length cs'" "\<not> cs_is_active (cs' ! i)" "\<not> cs_is_active c" "cs_client_fd c < 0"
  shows "idle_change cs (cs'[i := c])"
  using assms by (auto simp: idle_change_def nth_list_update)

lemma accept_round_effect:
  assumes ok: "accept_env_ok env y" and slots: "hs_client_slots (hy_server y) \<noteq> None"
    and run: "accept_round env (hy_server y) (hy_fds y) = Some (r, s', fds', out)"
  shows "\<exists>eff. round_ok y eff s' fds'"
proof -
  let ?s = "hy_server y"
  obtain cs0 where cs0: "hs_client_slots ?s = Some cs0" using slots by auto
  have none: "round_ok y NoClient ?s (hy_fds y)"
    using idle_change_refl cs0 by (auto simp: round_ok_def hs_slots_def intro!: exI [of _ cs0])
  show ?thesis
  proof (cases "ae_poll env = Inr False \<and> (\<exists>x. ae_accept env = Inr x)")
    case False
    then have "s' = ?s \<and> fds' = hy_fds y"
      using run by (auto simp: accept_round_def split: sum.splits bool.splits)
    with none show ?thesis by auto
  next
    case True
    then obtain x where x: "ae_accept env = Inr x" "0 \<le> x" "x \<notin> set (hy_fds y)"
      and run1: "accept_client env x ?s (x # hy_fds y) = Some (r, s', fds', out)"
      using run ok by (auto simp: accept_round_def accept_env_ok_def)
    obtain re cs where reap: "reap_finished_slots (ae_join env) 0 (hs_slots ?s) = (re, cs)" by fastforce
    then have idle: "idle_change (hs_slots ?s) cs"
      using reap_idle_change [of "hs_slots ?s" "ae_join env" 0] by simp
    define s1 where "s1 = ?s\<lparr>hs_client_slots := Some cs\<rparr>"
    have fds: "snd (close_if_open x (x # hy_fds y)) = hy_fds y" using x by (simp add: close_if_open_def)
    have gone: "round_ok y NoClient (?s\<lparr>hs_client_slots := Some cs'\<rparr>) (hy_fds y)"
      if "idle_change (hs_slots ?s) cs'" for cs'
      using that by (auto simp: round_ok_def)
    have unlocked: "ae_lock env = None" "ae_unlock env = None" using ok by (simp_all add: accept_env_ok_def)
    show ?thesis
    proof (cases "re \<noteq> None \<or> hc_max_concurrent_connections (hs_config ?s) \<le> hs_active_count ?s \<or>
        find_free_slot cs = None")
      case True
      then have "s' = s1 \<and> fds' = hy_fds y"
        using run1 reap fds unlocked cs0
        by (auto simp: accept_client_def abandon_client_def reject_busy_client_def s1_def Let_def split: if_splits)
      with gone [OF idle] show ?thesis by (auto simp: s1_def)
    next
      case False
      then obtain i where i: "find_free_slot cs = Some i" by auto
      note free = find_free_slot_Some [OF i]
      have room: "hs_active_count ?s < hc_max_concurrent_connections (hs_config ?s)" using False by simp
      have run2: "start_client env x i s1 (x # hy_fds y) = Some (r, s', fds', out)"
        using run1 reap unlocked cs0 False i by (auto simp: accept_client_def s1_def Let_def split: if_splits)
      show ?thesis
      proof (cases "\<exists>h. ae_create env = Inr h \<and> ae_start env = None")
        case True
        then obtain h where "ae_create env = Inr h" "ae_start env = None" by auto
        then have "round_ok y (ClientIn i x h) s' fds'"
          using run2 unlocked idle free room x
          by (auto simp: start_client_def s1_def round_ok_def Let_def intro!: exI [of _ cs])
        then show ?thesis ..
      next
        case False
        define c where
          "c = (cs ! i)\<lparr>cs_client_fd := -1, cs_is_active := False, cs_is_joined := True, cs_tasker := None\<rparr>"
        have "s' = ?s\<lparr>hs_client_slots := Some (cs[i := c])\<rparr> \<and> fds' = hy_fds y"
          using run2 fds False
          by (auto simp: start_client_def abandon_client_def s1_def c_def Let_def split: sum.splits)
        moreover have "idle_change (hs_slots ?s) (cs[i := c])"
          using free by (intro idle_change_idle_slot [OF idle]) (simp_all add: c_def)
        ultimately show ?thesis using gone [of "cs[i := c]"] by auto
      qed
    qed
  qed
qed

lemma inv_idle_server:
  assumes inv: "httpd_inv base y" and idle: "idle_change (hs_slots (hy_server y)) cs"
  shows "httpd_inv base (y\<lparr>hy_server := (hy_server y)\<lparr>hs_client_slots := Some cs\<rparr>, hy_fds := hy_fds y,
    hy_serving := hy_serving y \<union> (active_slots ((hy_server y)\<lparr>hs_client_slots := Some cs\<rparr>) - active_slots (hy_server y))\<rparr>)"
  using inv_idle_change [OF assms] idle_change_active [OF idle] by simp

text \<open>A new client takes an idle slot.\<close>

lemma inv_client_in:
  assumes inv: "httpd_inv base y" and i: "i < length (hs_slots (hy_server y))" "\<not> cs_is_active (hs_slots (hy_server y) ! i)"
    and s: "0 \<le> s" "s \<notin> set (hy_fds y)"
    and s': "s' = (hy_server y)\<lparr>hs_client_slots := Some ((hs_slots (hy_server y))[i := \<lparr>cs_is_active = True,
      cs_is_joined = False, cs_client_fd = s, cs_tasker = Some h\<rparr>]),
    hs_active_count := hs_active_count (hy_server y) + 1\<rparr>"
  shows "httpd_inv base (y\<lparr>hy_server := s', hy_fds := s # hy_fds y,
    hy_serving := hy_serving y \<union> (active_slots s' - active_slots (hy_server y))\<rparr>)"
proof -
  let ?cs = "hs_slots (hy_server y)"
  let ?c = "\<lparr>cs_is_active = True, cs_is_joined = False, cs_client_fd = s, cs_tasker = Some h\<rparr>"
  have cs': "hs_slots s' = ?cs[i := ?c]" by (simp add: s')
  have act: "active_slots s' = insert i (active_slots (hy_server y))"
    using i by (auto simp: active_slots_def cs' nth_list_update)
  have new: "i \<notin> active_slots (hy_server y)" using i by (simp add: active_slots_def)
  then have ni: "i \<notin> hy_serving y" "i \<notin> hy_closed y" using inv by (auto simp: httpd_inv_def)
  have serving: "hy_serving y \<union> (active_slots s' - active_slots (hy_server y)) = insert i (hy_serving y)"
    using act new by auto
  have fd: "cs_client_fd (?cs[i := ?c] ! j) = (if j = i then s else slot_fd y j)" for j
    using i by (auto simp: nth_list_update)
  have img: "(\<lambda>j. if j = i then s else slot_fd y j) ` hy_serving y = slot_fd y ` hy_serving y"
    using ni by (intro image_cong) auto
  have fresh: "s \<notin> slot_fd y ` hy_serving y" "s \<notin> base"
    using inv s(2) by (auto simp: httpd_inv_def)
  have inj: "inj_on (\<lambda>j. if j = i then s else slot_fd y j) (insert i (hy_serving y))"
    using inv ni fresh by (auto simp: httpd_inv_def inj_on_def)
  have "card (active_slots s') = Suc (card (active_slots (hy_server y)))"
    using new active_slots_bound(1) [of "hy_server y"] by (simp add: act)
  moreover have tasks: "cs_tasker (?cs[i := ?c] ! j) \<noteq> None" if "j \<in> active_slots s'" for j
    using that inv i by (auto simp: act httpd_inv_def nth_list_update)
  ultimately show ?thesis
    using inv ni s fresh inj img act
    unfolding serving
    by (simp add: httpd_inv_def cs' fd) (auto simp: s')
qed


lemma inv_accept:
  assumes inv: "httpd_inv base y" and ok: "accept_env_ok env y"
    and run: "accept_round env (hy_server y) (hy_fds y) = Some (r, s', fds', out)"
  shows "httpd_inv base (y\<lparr>hy_server := s', hy_fds := fds',
    hy_serving := hy_serving y \<union> (active_slots s' - active_slots (hy_server y))\<rparr>)"
proof -
  have "hs_client_slots (hy_server y) \<noteq> None" using inv by (simp add: httpd_inv_def)
  from accept_round_effect [OF ok this run] obtain eff cs where idle: "idle_change (hs_slots (hy_server y)) cs"
    and eff: "case eff of
        NoClient \<Rightarrow> s' = (hy_server y)\<lparr>hs_client_slots := Some cs\<rparr> \<and> fds' = hy_fds y
      | ClientIn i s h \<Rightarrow> i < length cs \<and> \<not> cs_is_active (cs ! i) \<and> 0 \<le> s \<and> s \<notin> set (hy_fds y) \<and>
          hs_active_count (hy_server y) < hc_max_concurrent_connections (hs_config (hy_server y)) \<and>
          s' = (hy_server y)\<lparr>hs_client_slots := Some (cs[i := \<lparr>cs_is_active = True, cs_is_joined = False,
              cs_client_fd = s, cs_tasker = Some h\<rparr>]),
            hs_active_count := hs_active_count (hy_server y) + 1\<rparr> \<and> fds' = s # hy_fds y"
    by (auto simp: round_ok_def)
  show ?thesis
  proof (cases eff)
    case NoClient
    with eff inv_idle_server [OF inv idle] show ?thesis by simp
  next
    case (ClientIn i s h)
    let ?y = "y\<lparr>hy_server := (hy_server y)\<lparr>hs_client_slots := Some cs\<rparr>\<rparr>"
    have "httpd_inv base (?y\<lparr>hy_server := s', hy_fds := s # hy_fds ?y,
        hy_serving := hy_serving ?y \<union> (active_slots s' - active_slots (hy_server ?y))\<rparr>)"
      using ClientIn eff by (intro inv_client_in [OF inv_idle_change [OF inv idle], where i = i and h = h]) auto
    with ClientIn eff idle_change_active [OF idle] show ?thesis by simp
  qed
qed

text \<open>The invariant on the parts of the system, to rebuild it after an update.\<close>

definition slots_inv :: "fd set \<Rightarrow> dthttpd_t \<Rightarrow> fd list \<Rightarrow> nat set \<Rightarrow> nat set \<Rightarrow> bool" where
  "slots_inv base s fds S C = httpd_inv base \<lparr>hy_server = s, hy_fds = fds, hy_serving = S, hy_closed = C\<rparr>"

lemma httpd_inv_slots: "httpd_inv base y = slots_inv base (hy_server y) (hy_fds y) (hy_serving y) (hy_closed y)"
  by (simp add: slots_inv_def httpd_inv_def)

lemmas slots_inv_iff = slots_inv_def [unfolded httpd_inv_def httpd_system.simps]

lemma inv_close:
  assumes inv: "httpd_inv base y" and i: "i \<in> hy_serving y"
  shows "httpd_inv base (close_client i y)"
proof -
  let ?cs = "hs_slots (hy_server y)"
  have act: "i < length ?cs" "cs_is_active (?cs ! i)" "i \<notin> hy_closed y"
    using inv i by (auto simp: httpd_inv_def active_slots_def)
  have pos: "0 \<le> slot_fd y i" using inv i by (simp add: httpd_inv_def)
  let ?c = "(?cs ! i)\<lparr>cs_client_fd := -1\<rparr>"
  have fd: "cs_client_fd (?cs[i := ?c] ! j) = (if j = i then -1 else slot_fd y j)" for j
    using act by (auto simp: nth_list_update)
  have acts: "active_slots ((hy_server y)\<lparr>hs_client_slots := Some (?cs[i := ?c])\<rparr>) = active_slots (hy_server y)"
    using act by (auto simp: active_slots_def nth_list_update)
  have img: "(\<lambda>j. if j = i then - 1 else slot_fd y j) ` (hy_serving y - {i}) = slot_fd y ` hy_serving y - {slot_fd y i}"
    using inv i by (auto simp: httpd_inv_def inj_on_def)
  have inj: "inj_on (\<lambda>j. if j = i then - 1 else slot_fd y j) (hy_serving y - {i})"
    using inv by (auto simp: httpd_inv_def inj_on_def)
  have "slot_fd y i \<notin> base" using inv i by (auto simp: httpd_inv_def)
  then have fds: "set (removeAll (slot_fd y i) (hy_fds y)) = base \<union> (slot_fd y ` hy_serving y - {slot_fd y i})"
    using inv by (auto simp: httpd_inv_def)
  have tasks: "\<forall>j\<in>active_slots (hy_server y). cs_tasker (?cs[i := ?c] ! j) \<noteq> None"
    using inv act by (auto simp: httpd_inv_def nth_list_update)
  let ?s = "(hy_server y)\<lparr>hs_client_slots := Some (?cs[i := ?c])\<rparr>"
  have srv: "hs_slots ?s = ?cs[i := ?c]" "hs_client_slots ?s \<noteq> None" "hs_config ?s = hs_config (hy_server y)"
    "hs_active_count ?s = hs_active_count (hy_server y)" "length (?cs[i := ?c]) = length ?cs"
    by simp_all
  have un: "(hy_serving y - {i}) \<union> insert i (hy_closed y) = hy_serving y \<union> hy_closed y" using i by auto
  have img2: "base \<union> (\<lambda>j. if j = i then - 1 else slot_fd y j) ` (hy_serving y - {i}) =
      base \<union> (slot_fd y ` hy_serving y - {slot_fd y i})"
    by (simp only: img)
  have "slots_inv base ?s (removeAll (slot_fd y i) (hy_fds y)) (hy_serving y - {i}) (insert i (hy_closed y))"
    unfolding slots_inv_iff acts srv(1,3,4,5) fd un img2
  proof (intro conjI)
    show "(\<lambda>j. if j = i then - 1 else slot_fd y j) ` (hy_serving y - {i}) \<inter> base = {}"
      unfolding img using inv by (auto simp: httpd_inv_def)
    show "\<forall>j<length ?cs. j \<notin> hy_serving y - {i} \<longrightarrow> (if j = i then - 1 else slot_fd y j) < 0"
      "\<forall>j\<in>hy_serving y - {i}. 0 \<le> (if j = i then - 1 else slot_fd y j)"
      "(hy_serving y - {i}) \<inter> insert i (hy_closed y) = {}"
      using inv by (auto simp: httpd_inv_def)
  qed (use inv inj fds tasks in \<open>simp_all add: httpd_inv_def\<close>)
  then show ?thesis
    using pos by (simp add: httpd_inv_slots close_client_def close_if_open_def Let_def)
qed

lemma inv_finish:
  assumes inv: "httpd_inv base y" and i: "i \<in> hy_closed y"
    and run: "mark_slot_finished None None i (hy_server y) = (e, s')"
  shows "httpd_inv base (y\<lparr>hy_server := s', hy_closed := hy_closed y - {i}\<rparr>)"
proof -
  let ?cs = "hs_slots (hy_server y)"
  let ?c = "(?cs ! i)\<lparr>cs_is_active := False\<rparr>"
  have act: "i < length ?cs" "cs_is_active (?cs ! i)" "i \<notin> hy_serving y" "i \<in> active_slots (hy_server y)"
    using inv i by (auto simp: httpd_inv_def active_slots_def)
  have "0 < card (active_slots (hy_server y))"
    using act(4) active_slots_bound(1) by (auto simp: card_gt_0_iff)
  then have s': "s' = (hy_server y)\<lparr>hs_client_slots := Some (?cs[i := ?c]), hs_active_count := hs_active_count (hy_server y) - 1\<rparr>"
    using run act inv by (auto simp: mark_slot_finished_def httpd_inv_def)
  have acts: "active_slots s' = active_slots (hy_server y) - {i}"
    using act by (auto simp: active_slots_def s' nth_list_update)
  have card: "int (card (active_slots (hy_server y) - {i})) = int (card (active_slots (hy_server y))) - 1"
    using act(4) active_slots_bound(1) [of "hy_server y"] \<open>0 < card _\<close> by (simp add: card_Diff_singleton)
  have fd: "cs_client_fd (?cs[i := ?c] ! j) = slot_fd y j" for j
    using act by (auto simp: nth_list_update)
  have task: "cs_tasker (?cs[i := ?c] ! j) = cs_tasker (?cs ! j)" for j
    using act by (auto simp: nth_list_update)
  have srv: "hs_slots s' = ?cs[i := ?c]" "hs_client_slots s' \<noteq> None" "hs_config s' = hs_config (hy_server y)"
    "hs_active_count s' = hs_active_count (hy_server y) - 1" "length (?cs[i := ?c]) = length ?cs"
    by (simp_all add: s')
  have sets: "active_slots (hy_server y) - {i} = hy_serving y \<union> (hy_closed y - {i})"
    using inv act by (auto simp: httpd_inv_def)
  have "hs_active_count s' = int (card (hy_serving y \<union> (hy_closed y - {i})))"
    unfolding sets [symmetric] srv(4) card using inv by (simp add: httpd_inv_def)
  moreover have "\<forall>j\<in>hy_serving y \<union> (hy_closed y - {i}). cs_tasker (?cs ! j) \<noteq> None"
    using inv by (auto simp: httpd_inv_def)
  ultimately have "slots_inv base s' (hy_fds y) (hy_serving y) (hy_closed y - {i})"
    unfolding slots_inv_iff acts sets srv(1,3,5) fd task
    using inv srv(2) by (auto simp: httpd_inv_def)
  then show ?thesis by (simp add: httpd_inv_slots)
qed

lemma httpd_step_inv: "httpd_step y y' \<Longrightarrow> httpd_inv base y \<Longrightarrow> httpd_inv base y'"
  by (induction rule: httpd_step.induct) (auto intro: inv_accept inv_close inv_finish)

lemma httpd_steps_inv: "httpd_step\<^sup>*\<^sup>* y y' \<Longrightarrow> httpd_inv base y \<Longrightarrow> httpd_inv base y'"
  by (induction rule: rtranclp_induct) (auto dest: httpd_step_inv)


section \<open>Properties\<close>

definition server_system :: "dthttpd_t \<Rightarrow> fd list \<Rightarrow> httpd_system" where
  "server_system s fds = \<lparr>hy_server = s, hy_fds = fds, hy_serving = {}, hy_closed = {}\<rparr>"

lemma httpd_loop_slots:
  "httpd_loop env s fds = (e, s', fds') \<Longrightarrow>
     hs_client_slots s' = hs_client_slots s \<and> hs_config s' = hs_config s \<and> hs_active_count s' = hs_active_count s"
  by (auto simp: httpd_loop_def Let_def split: if_splits prod.splits option.splits sum.splits)

lemma configured_inv:
  assumes conf: "httpd_configure True default_max config s0 fds0 = (None, s, fds)" "0 < default_max"
    and loop: "httpd_loop env s fds = (e, s', fds')"
  shows "httpd_inv (set fds') (server_system s' fds')"
proof -
  have s: "hs_client_slots s = Some (replicate (nat n) client_slot_init)" "n = hc_max_concurrent_connections (hs_config s)"
    "0 < n" "hs_active_count s = 0" if "n = hc_max_concurrent_connections (hs_config s)" for n
    using conf that by (auto simp: httpd_configure_def Let_def split: if_splits)
  define n where "n = hc_max_concurrent_connections (hs_config s)"
  have cs: "hs_slots s' = replicate (nat n) client_slot_init" "hs_client_slots s' \<noteq> None"
    using s [OF n_def] httpd_loop_slots [OF loop] by (simp_all add: hs_slots_def)
  have "active_slots s' = {}" by (auto simp: active_slots_def cs client_slot_init_def)
  then show ?thesis
    using s [OF n_def] httpd_loop_slots [OF loop] cs
    by (simp add: httpd_inv_def server_system_def client_slot_init_def)
qed

text \<open>
  C7: the server never holds more clients than configured and never loses a descriptor. After
  any interleaving of accept rounds, connection closes and task ends, the client count is the
  number of slots in use and at most the maximum; the open descriptors are those from before and one
  for each client being served; a slot that serves no client holds no descriptor, and no two slots
  hold the same one.
\<close>

theorem httpd_clients_bounded:
  assumes "httpd_configure True default_max config s0 fds0 = (None, s, fds)" "0 < default_max"
    and "httpd_loop env s fds = (None, s', fds')"
    and "httpd_step\<^sup>*\<^sup>* (server_system s' fds') y"
  shows "hs_active_count (hy_server y) = int (card (active_slots (hy_server y))) \<and>
    hs_active_count (hy_server y) \<le> hc_max_concurrent_connections (hs_config (hy_server y)) \<and>
    set (hy_fds y) = set fds' \<union> slot_fd y ` hy_serving y \<and>
    (\<forall>i<length (hs_slots (hy_server y)). i \<notin> hy_serving y \<longrightarrow> slot_fd y i < 0) \<and>
    inj_on (slot_fd y) (hy_serving y)"
proof -
  have inv: "httpd_inv (set fds') y"
    using httpd_steps_inv [OF assms(4)] configured_inv [OF assms(1-3)] by blast
  moreover have "int (card (active_slots (hy_server y))) \<le> hc_max_concurrent_connections (hs_config (hy_server y))"
    using active_slots_bound(2) [of "hy_server y"] inv by (simp add: httpd_inv_def)
  ultimately show ?thesis by (simp add: httpd_inv_def)
qed

definition example_config :: httpd_config where
  "example_config = \<lparr>hc_bind_host = None, hc_bind_port = 8080, hc_listen_backlog = 0, hc_max_concurrent_connections = 1\<rparr>"

definition example_server :: dthttpd_t where
  "example_server = httpd_zeroed\<lparr>hs_config := \<lparr>hc_bind_host = Some ''0.0.0.0'', hc_bind_port = 8080,
       hc_listen_backlog = 16, hc_max_concurrent_connections = 1\<rparr>,
     hs_client_slots := Some [client_slot_init], hs_slot_count := 1\<rparr>"

lemma configure_example: "httpd_configure True 8 example_config httpd_zeroed [0] = (None, example_server, [0])"
  by (simp add: httpd_configure_def example_config_def example_server_def httpd_zeroed_def hs_slots_def
      close_slots_def)

definition calm_loop :: "fd \<Rightarrow> nat \<Rightarrow> loop_env" where
  "calm_loop s h = \<lparr>lo_tries = Some [\<lparr>at_sock = s, at_reuse_ok = True, at_bind_ok = True\<rparr>],
     lo_listen_ok = True, lo_create = Inr h, lo_start = None\<rparr>"

definition running_server :: dthttpd_t where
  "running_server = example_server\<lparr>hs_listen_fd := 4, hs_accept_tasker := Some 1, hs_is_started := True\<rparr>"

lemma loop_example: "httpd_loop (calm_loop 4 1) example_server [0] = (None, running_server, [4, 0])"
  by (simp add: httpd_loop_def open_listen_socket_def calm_loop_def example_server_def running_server_def
      httpd_zeroed_def)

definition calm_accept :: "fd \<Rightarrow> nat \<Rightarrow> accept_env" where
  "calm_accept x h = \<lparr>ae_poll = Inr False, ae_accept = Inr x, ae_lock = None, ae_unlock = None,
     ae_join = (\<lambda>_. Joined), ae_create = Inr h, ae_start = None, ae_sends = [Sent 500, Sent 500]\<rparr>"

definition serving_server :: dthttpd_t where
  "serving_server = running_server\<lparr>hs_client_slots := Some [\<lparr>cs_is_active = True, cs_is_joined = False,
     cs_client_fd = 7, cs_tasker = Some 2\<rparr>], hs_active_count := 1\<rparr>"

definition serving_system :: httpd_system where
  "serving_system = \<lparr>hy_server = serving_server, hy_fds = [7, 4, 0], hy_serving = {0}, hy_closed = {}\<rparr>"

lemma active_examples: "active_slots serving_server = {0}" "active_slots running_server = {}"
  by (auto simp: active_slots_def serving_server_def running_server_def example_server_def hs_slots_def
      client_slot_init_def)

lemma serving_sample: "httpd_step\<^sup>*\<^sup>* (server_system running_server [4, 0]) serving_system"
proof -
  have "accept_env_ok (calm_accept 7 2) (server_system running_server [4, 0])"
    by (simp add: accept_env_ok_def calm_accept_def server_system_def)
  moreover have "accept_round (calm_accept 7 2) (hy_server (server_system running_server [4, 0]))
      (hy_fds (server_system running_server [4, 0])) = Some (AcceptAgain, serving_server, [7, 4, 0], [])"
    by (simp add: accept_round_def accept_client_def start_client_def calm_accept_def server_system_def
        running_server_def example_server_def serving_server_def hs_slots_def client_slot_init_def
        try_reap_finished_slot_def httpd_zeroed_def)
  ultimately have "httpd_step (server_system running_server [4, 0])
      ((server_system running_server [4, 0])\<lparr>hy_server := serving_server, hy_fds := [7, 4, 0],
        hy_serving := hy_serving (server_system running_server [4, 0]) \<union>
          (active_slots serving_server - active_slots (hy_server (server_system running_server [4, 0])))\<rparr>)"
    by (rule httpd_step.accept)
  then show ?thesis by (simp add: server_system_def serving_system_def active_examples)
qed

theorem httpd_clients_bounded_witness:
  "set [7, 4, 0] = set [4, 0] \<union> slot_fd serving_system ` {0}"
  using httpd_clients_bounded [OF configure_example _ loop_example serving_sample]
  by (simp add: serving_system_def)

text \<open>
  A client beyond the maximum gets the 503 reply and nothing else changes. When all slots
  are in use, a round that accepts a connection leaves the clients and the open descriptors as they
  were, goes on, and (unless reaping failed) sends the Service Unavailable response on it, as far
  as the kernel takes it.
\<close>

theorem httpd_busy_client_rejected:
  assumes inv: "httpd_inv base y" and ok: "accept_env_ok env y"
    and full: "hs_active_count (hy_server y) = hc_max_concurrent_connections (hs_config (hy_server y))"
    and acc: "ae_poll env = Inr False" "ae_accept env = Inr x"
    and run: "accept_round env (hy_server y) (hy_fds y) = Some (r, s', fds', out)"
  shows "r = AcceptAgain \<and> fds' = hy_fds y \<and> active_slots s' = active_slots (hy_server y) \<and>
    (fst (reap_finished_slots (ae_join env) 0 (hs_slots (hy_server y))) = None \<longrightarrow>
       (\<exists>e ks. send_text_response 503 (Some ''Service Unavailable'') (ae_sends env) = Some (e, out, ks)))"
proof -
  obtain re cs where reap: "reap_finished_slots (ae_join env) 0 (hs_slots (hy_server y)) = (re, cs)" by fastforce
  then have idle: "idle_change (hs_slots (hy_server y)) cs"
    using reap_idle_change [of "hs_slots (hy_server y)" "ae_join env" 0] by simp
  obtain cs0 where cs0: "hs_client_slots (hy_server y) = Some cs0" using inv by (auto simp: httpd_inv_def)
  have x: "0 \<le> x" "x \<notin> set (hy_fds y)" and free: "ae_lock env = None" "ae_unlock env = None"
    using ok acc by (simp_all add: accept_env_ok_def)
  show ?thesis
    using run reap cs0 x free full acc idle_change_active [OF idle]
    by (auto simp: accept_round_def accept_client_def abandon_client_def reject_busy_client_def close_if_open_def
        Let_def split: if_splits)
qed


lemma serving_inv: "httpd_inv {4, 0} serving_system"
  using httpd_steps_inv [OF serving_sample configured_inv [OF configure_example _ loop_example]]
  by (simp add: server_system_def insert_commute)

definition busy_answer :: string where
  "busy_answer = response_header 503 (Some ''text/plain; charset=utf-8'') 19 True @ ''Service Unavailable''"

lemma length_busy_header:
  "length (response_header 503 (Some ''text/plain; charset=utf-8'') 19 True) = 116"
  by code_simp

lemma busy_sent:
  "\<exists>ks'. send_text_response 503 (Some ''Service Unavailable'') [Sent 116, Sent 19] =
    Some (None, bytes_of busy_answer, ks')"
proof -
  have "takes_both [Sent 116, Sent 19] (length (response_header 503 (Some ''text/plain; charset=utf-8'') 19 True))
      (length (sent_body (Some ''Service Unavailable'') 19))"
    by (rule takes_both_two) (simp_all add: length_busy_header sent_body_def)
  from send_response_takes [OF _ _ this] show ?thesis
    by (simp add: send_text_response_def length_busy_header sent_body_def busy_answer_def)
qed

definition busy_env :: accept_env where
  "busy_env = (calm_accept 9 3)\<lparr>ae_sends := [Sent 116, Sent 19]\<rparr>"

lemma busy_round:
  "accept_round busy_env serving_server [7, 4, 0] = Some (AcceptAgain, serving_server, [7, 4, 0], bytes_of busy_answer)"
proof -
  obtain ks' where "send_text_response 503 (Some ''Service Unavailable'') [Sent 116, Sent 19] =
    Some (None, bytes_of busy_answer, ks')"
    using busy_sent by blast
  then show ?thesis
    by (simp add: busy_env_def calm_accept_def accept_round_def accept_client_def reject_busy_client_def
        serving_server_def running_server_def example_server_def httpd_zeroed_def hs_slots_def
        try_reap_finished_slot_def close_if_open_def)
qed

theorem httpd_busy_client_rejected_witness:
  "\<exists>e ks. send_text_response 503 (Some ''Service Unavailable'') (ae_sends busy_env) = Some (e, bytes_of busy_answer, ks)"
proof -
  have "accept_env_ok busy_env serving_system"
    by (simp add: accept_env_ok_def busy_env_def calm_accept_def serving_system_def)
  moreover have "hs_active_count (hy_server serving_system) = hc_max_concurrent_connections (hs_config (hy_server serving_system))"
    by (simp add: serving_system_def serving_server_def running_server_def example_server_def httpd_zeroed_def)
  moreover have "ae_poll busy_env = Inr False" "ae_accept busy_env = Inr 9"
    by (simp_all add: busy_env_def calm_accept_def)
  moreover have "accept_round busy_env (hy_server serving_system) (hy_fds serving_system) =
      Some (AcceptAgain, serving_server, [7, 4, 0], bytes_of busy_answer)"
    using busy_round by (simp add: serving_system_def)
  ultimately have "fst (reap_finished_slots (ae_join busy_env) 0 (hs_slots (hy_server serving_system))) = None \<longrightarrow>
      (\<exists>e ks. send_text_response 503 (Some ''Service Unavailable'') (ae_sends busy_env) =
        Some (e, bytes_of busy_answer, ks))"
    using httpd_busy_client_rejected [OF serving_inv] by blast
  then show ?thesis
    by (simp add: serving_system_def serving_server_def hs_slots_def try_reap_finished_slot_def)
qed

lemma reap_all:
  assumes "\<forall>i. ja i = Joined"
  shows "fst (reap_finished_slots ja k cs) = None \<and>
    (\<forall>i<length cs. \<not> cs_is_active (cs ! i) \<longrightarrow> cs_tasker (snd (reap_finished_slots ja k cs) ! i) = None)"
proof (induction cs arbitrary: k)
  case Nil
  show ?case by simp
next
  case (Cons c cs)
  have one: "fst (try_reap_finished_slot (ja k) c) = None"
    "\<not> cs_is_active c \<Longrightarrow> cs_tasker (snd (try_reap_finished_slot (ja k) c)) = None"
    using assms by (auto simp: try_reap_finished_slot_def)
  from one Cons.IH [of "k + 1"] show ?case
    by (auto simp: nth_Cons split: prod.splits nat.splits option.splits)
qed


lemma running_inv: "httpd_inv {4, 0} (server_system running_server [4, 0])"
  using configured_inv [OF configure_example _ loop_example] by simp


text \<open>
  A failed start leaves the listening socket open, and trying again loses it. When
  \<open>dthttpd_linux_socket_loop\<close> has opened its socket and creating or starting the accept task fails,
  the object keeps the socket and is not started; a second call that succeeds overwrites it with
  a new one, and the first stays open in the process for ever: no field refers to it, and
  stopping and disposing of the server leaves it open.
\<close>

theorem httpd_loop_retry_leaks:
  assumes first: "httpd_loop env1 s fds = (Some e, s1, fds1)" "hs_listen_fd s1 = a" "a \<in> set fds1"
    and second: "httpd_loop env2 s1 fds1 = (None, s2, fds2)"
    and fresh: "lo_tries env2 = Some ts" "fresh_tries ts fds1"
    and slots: "\<forall>c\<in>set (hs_slots s2). cs_client_fd c \<noteq> a"
  shows "\<not> hs_is_started s1 \<and> a \<in> set fds2 \<and> hs_listen_fd s2 \<noteq> a \<and> a \<in> set (httpd_dispose s2 fds2)"
proof -
  have keep: "a \<in> set fds' \<Longrightarrow> \<forall>c\<in>set cs. cs_client_fd c \<noteq> a \<Longrightarrow> a \<in> set (close_slots cs fds')" for cs fds'
    by (induction cs arbitrary: fds') (auto simp: close_slots_def close_if_open_snd)
  have ns: "\<not> hs_is_started s1"
    using first by (auto simp: httpd_loop_def Let_def split: if_splits prod.splits option.splits sum.splits)
  obtain e' q fds' where bind: "bind_loop (-1) ts fds1 = (e', q, fds')" using prod_cases3 by blast
  then have new: "hs_listen_fd s2 = q" "fds2 = fds'" "0 \<le> q"
    using second ns
    by (auto simp: httpd_loop_def open_listen_socket_def fresh(1) Let_def
        split: if_splits prod.splits option.splits sum.splits)
  with bind_loop_fds [OF fresh(2) _ bind] have fds2: "fds2 = q # fds1" "q \<notin> set fds1" by auto
  with first(3) new(1) have a: "a \<in> set fds2" "hs_listen_fd s2 \<noteq> a" by auto
  then have "a \<in> set (snd (close_if_open (hs_listen_fd s2) fds2))" by (simp add: close_if_open_snd)
  from keep [OF this slots] a ns show ?thesis by (simp add: httpd_dispose_def)
qed

lemma failing_loop:
  "httpd_loop ((calm_loop 4 1)\<lparr>lo_create := Inl DTERR_NOMEM\<rparr>) example_server [0] =
    (Some DTERR_NOMEM, example_server\<lparr>hs_listen_fd := 4\<rparr>, [4, 0])"
  by (simp add: httpd_loop_def open_listen_socket_def calm_loop_def example_server_def httpd_zeroed_def)

theorem httpd_loop_retry_leaks_witness:
  "4 \<in> set (httpd_dispose (example_server\<lparr>hs_listen_fd := 5, hs_accept_tasker := Some 1, hs_is_started := True\<rparr>) [5, 4, 0])"
proof -
  have "httpd_loop (calm_loop 5 1) (example_server\<lparr>hs_listen_fd := 4\<rparr>) [4, 0] =
    (None, example_server\<lparr>hs_listen_fd := 5, hs_accept_tasker := Some 1, hs_is_started := True\<rparr>, [5, 4, 0])"
    by (simp add: httpd_loop_def open_listen_socket_def calm_loop_def example_server_def httpd_zeroed_def)
  from httpd_loop_retry_leaks [OF failing_loop _ _ this, of 4] show ?thesis
    by (simp add: calm_loop_def fresh_tries_def hs_slots_def example_server_def client_slot_init_def)
qed

lemma join_slots_cases:
  "join_slots ja k cs fds = (r, cs', fds') \<Longrightarrow>
     length cs' = length cs \<and>
     (r = Joined \<longrightarrow> (\<forall>i<length cs. cs_tasker (cs' ! i) = None \<and>
        (cs_tasker (cs ! i) \<noteq> None \<longrightarrow> cs_client_fd (cs' ! i) < 0 \<and> cs_is_joined (cs' ! i))))"
proof (induction ja k cs fds arbitrary: r cs' fds' rule: join_slots.induct)
  case (1 ja i fds)
  then show ?case by simp
next
  case (2 ja i c cs fds)
  show ?case
  proof (cases "cs_tasker c = None")
    case True
    obtain r2 cs2 fds2 where "join_slots ja (i + 1) cs fds = (r2, cs2, fds2)" using prod_cases3 by blast
    with 2(1) [OF True this] 2(3) True show ?thesis by (auto simp: nth_Cons split: nat.splits)
  next
    case False
    obtain r2 cs2 fds2 where j: "join_slots ja (i + 1) cs (snd (close_if_open (cs_client_fd c) fds)) = (r2, cs2, fds2)"
      using prod_cases3 by blast
    show ?thesis
    proof (cases "ja i")
      case Joined
      from 2(2) [OF False Joined j] 2(3) False Joined j show ?thesis
        by (auto simp: nth_Cons split: nat.splits)
    qed (use 2(3) False in auto)
  qed
qed

text \<open>
  A join that succeeds leaves no task behind. When all joins succeed, the server is not
  started, has no accept task and no client task, counts no clients, and every slot that had a task
  has its connection closed; when one times out, that is reported and the server stays started.
\<close>

theorem httpd_join_leaves_no_task:
  assumes "httpd_join aj ja s fds = (e, timeout, s', fds')"
  shows "(e = None \<and> \<not> timeout \<longrightarrow>
      \<not> hs_is_started s' \<and> hs_accept_tasker s' = None \<and> hs_active_count s' = 0 \<and>
      (\<forall>i<length (hs_slots s'). cs_tasker (hs_slots s' ! i) = None \<and>
         (cs_tasker (hs_slots s ! i) \<noteq> None \<longrightarrow> cs_client_fd (hs_slots s' ! i) < 0))) \<and>
    (timeout \<or> e \<noteq> None \<longrightarrow> hs_is_started s' = hs_is_started s)"
proof -
  obtain r cs fds2 where j: "join_slots ja 0 (hs_slots s) fds = (r, cs, fds2)" using prod_cases3 by blast
  have slots: "hs_slots (s\<lparr>hs_accept_tasker := t, hs_client_slots := map_option (\<lambda>_. cs) (hs_client_slots s)\<rparr>) =
      (if hs_client_slots s = None then [] else cs)"
    "hs_slots (s\<lparr>hs_accept_tasker := t, hs_client_slots := map_option (\<lambda>_. cs) (hs_client_slots s),
        hs_is_started := b, hs_active_count := n\<rparr>) = (if hs_client_slots s = None then [] else cs)" for t b n
    by (auto simp: hs_slots_def split: option.split)
  show ?thesis
    using assms j join_slots_cases [OF j] slots
    by (auto simp: httpd_join_def Let_def split: join_answer.splits if_splits)
qed

theorem httpd_join_leaves_no_task_witness:
  "\<not> hs_is_started (serving_server\<lparr>hs_accept_tasker := None, hs_client_slots := Some [\<lparr>cs_is_active = True,
     cs_is_joined = True, cs_client_fd = -1, cs_tasker = None\<rparr>], hs_is_started := False, hs_active_count := 0\<rparr>)"
proof -
  have "httpd_join Joined (\<lambda>_. Joined) serving_server [7, 4, 0] =
    (None, False, serving_server\<lparr>hs_accept_tasker := None, hs_client_slots := Some [\<lparr>cs_is_active = True,
      cs_is_joined = True, cs_client_fd = -1, cs_tasker = None\<rparr>], hs_is_started := False, hs_active_count := 0\<rparr>, [4, 0])"
    by (simp add: httpd_join_def serving_server_def hs_slots_def close_if_open_def)
  from httpd_join_leaves_no_task [OF this] show ?thesis by simp
qed

end
