(* ===== verification/Lock.thy ===== *)
theory Lock
  imports Prelude
begin

text \<open>
  \<open>dtmc_linux_library/src/dtlock_linux.c\<close>: a lock over an error-checking pthread mutex. The
  mutex is what POSIX says of \<open>PTHREAD_MUTEX_ERRORCHECK\<close>: locking it again from its owner
  answers EDEADLK, unlocking it from any other thread answers EPERM, and locking it while another
  thread owns it blocks. The interface of a lock is the locale \<open>mutex_lock\<close>.
\<close>

section \<open>The pthread mutex\<close>

type_synonym thread = nat

datatype mutex = Unlocked | LockedBy thread

text \<open>A return code is \<open>None\<close> for 0. \<open>None\<close> for the whole answer: the call blocks.\<close>

definition pthread_mutex_lock :: "thread \<Rightarrow> mutex \<Rightarrow> (errno option \<times> mutex) option" where
  "pthread_mutex_lock t m =
     (case m of
        Unlocked \<Rightarrow> Some (None, LockedBy t)
      | LockedBy u \<Rightarrow> if u = t then Some (Some EDEADLK, m) else None)"

definition pthread_mutex_unlock :: "thread \<Rightarrow> mutex \<Rightarrow> errno option \<times> mutex" where
  "pthread_mutex_unlock t m =
     (case m of
        Unlocked \<Rightarrow> (Some EPERM, m)
      | LockedBy u \<Rightarrow> if u = t then (None, Unlocked) else (Some EPERM, m))"

section \<open>The lock\<close>

text \<open>\<open>mutex\<close> is \<open>None\<close> while \<open>pthread_mutex_init\<close> has not run on it.\<close>

record dtlock_linux_t =
  lk_mutex :: "mutex option"
  lk_is_malloced :: bool
  lk_is_mutex_initialized :: bool

definition pthread_rc :: "errno option \<Rightarrow> dterr" where
  "pthread_rc rc = (case rc of None \<Rightarrow> None | Some _ \<Rightarrow> Some DTERR_OS)"

text \<open>\<open>dtlock_dispose\<close>: \<open>None\<close> for memory that is freed.\<close>

definition dtlock_dispose :: "dtlock_linux_t option \<Rightarrow> dtlock_linux_t option" where
  "dtlock_dispose self =
     (case self of
        None \<Rightarrow> None
      | Some l \<Rightarrow>
          if lk_is_malloced l then None
          else Some \<lparr>lk_mutex = None, lk_is_malloced = False, lk_is_mutex_initialized = False\<rparr>)"

text \<open>
  The answers of the calls of \<open>dtlock_create\<close>: \<open>malloc\<close>, \<open>pthread_mutexattr_init\<close>,
  \<open>pthread_mutexattr_settype\<close>, \<open>pthread_mutex_init\<close>.
\<close>

record lock_env =
  le_malloc_ok :: bool
  le_attr_init :: "errno option"
  le_settype :: "errno option"
  le_init :: "errno option"

text \<open>
  The result, the caller's handle after the call (its old value when the code does not
  reach the store), and the allocated lock, which is leaked when no handle refers to it.
\<close>

definition dtlock_create ::
  "lock_env \<Rightarrow> dtlock_linux_t option \<Rightarrow> dterr \<times> dtlock_linux_t option" where
  "dtlock_create env old_handle =
     (if \<not> le_malloc_ok env then (Some DTERR_NOMEM, old_handle)
      else
        let self = \<lparr>lk_mutex = None, lk_is_malloced = True, lk_is_mutex_initialized = False\<rparr> in
        (case pthread_rc (le_attr_init env) of
           Some e \<Rightarrow> (Some e, Some self)
         | None \<Rightarrow>
             (case pthread_rc (le_settype env) of
                Some e \<Rightarrow> (Some e, Some self)
              | None \<Rightarrow>
                  (case pthread_rc (le_init env) of
                     Some e \<Rightarrow> (Some e, Some self)
                   | None \<Rightarrow>
                       (None, Some (self\<lparr>lk_mutex := Some Unlocked, lk_is_mutex_initialized := True\<rparr>))))))"

text \<open>
  \<open>dtlock_acquire\<close> and \<open>dtlock_release\<close> by thread \<open>t\<close>. \<open>None\<close>: the call blocks, or is made on
  a mutex that was never initialised, where POSIX promises nothing.
\<close>

definition dtlock_acquire :: "thread \<Rightarrow> dtlock_linux_t option \<Rightarrow> (dterr \<times> dtlock_linux_t option) option" where
  "dtlock_acquire t self =
     (case self of
        None \<Rightarrow> Some (Some DTERR_ASSERT, None)
      | Some l \<Rightarrow>
          (case lk_mutex l of
             None \<Rightarrow> None
           | Some m \<Rightarrow>
               (case pthread_mutex_lock t m of
                  None \<Rightarrow> None
                | Some (rc, m') \<Rightarrow>
                    Some (if rc = Some EDEADLK then Some DTERR_STATE else pthread_rc rc,
                          Some (l\<lparr>lk_mutex := Some m'\<rparr>)))))"

definition dtlock_release :: "thread \<Rightarrow> dtlock_linux_t option \<Rightarrow> (dterr \<times> dtlock_linux_t option) option" where
  "dtlock_release t self =
     (case self of
        None \<Rightarrow> Some (Some DTERR_ASSERT, None)
      | Some l \<Rightarrow>
          (case lk_mutex l of
             None \<Rightarrow> None
           | Some m \<Rightarrow>
               (case pthread_mutex_unlock t m of
                  (rc, m') \<Rightarrow>
                    Some (if rc = Some EPERM then Some DTERR_STATE else pthread_rc rc,
                          Some (l\<lparr>lk_mutex := Some m'\<rparr>)))))"

section \<open>The interface of a lock\<close>

text \<open>
  \<open>holder l\<close> is the thread that owns the lock. Every operation either succeeds and changes the
  holder, or reports an error and changes nothing.
\<close>

locale mutex_lock =
  fixes acquire :: "thread \<Rightarrow> 'l \<Rightarrow> (dterr \<times> 'l) option"
    and release :: "thread \<Rightarrow> 'l \<Rightarrow> (dterr \<times> 'l) option"
    and holder :: "'l \<Rightarrow> thread option"
    and valid :: "'l \<Rightarrow> bool"
  assumes acquire_ok: "valid l \<Longrightarrow> acquire t l = Some (None, l') \<Longrightarrow>
      holder l = None \<and> holder l' = Some t \<and> valid l'"
    and acquire_err: "valid l \<Longrightarrow> acquire t l = Some (Some e, l') \<Longrightarrow> holder l = Some t \<and> e = DTERR_STATE \<and> l' = l"
    and acquire_blocks: "valid l \<Longrightarrow> acquire t l = None \<Longrightarrow> \<exists>u. u \<noteq> t \<and> holder l = Some u"
    and release_ok: "valid l \<Longrightarrow> release t l = Some (None, l') \<Longrightarrow>
      holder l = Some t \<and> holder l' = None \<and> valid l'"
    and release_err: "valid l \<Longrightarrow> release t l = Some (Some e, l') \<Longrightarrow> holder l \<noteq> Some t \<and> e = DTERR_STATE \<and> l' = l"
    and release_total: "valid l \<Longrightarrow> release t l \<noteq> None"
begin

text \<open>
  Any number of threads that call the two operations in any order. The state is the lock and the
  set of threads whose last successful call was an acquire.
\<close>

inductive step :: "'l \<times> thread set \<Rightarrow> 'l \<times> thread set \<Rightarrow> bool" where
  acq: "acquire t l = Some (None, l') \<Longrightarrow> step (l, cs) (l', insert t cs)"
| acq_fails: "acquire t l = Some (Some e, l') \<Longrightarrow> step (l, cs) (l', cs)"
| rel: "release t l = Some (None, l') \<Longrightarrow> step (l, cs) (l', cs - {t})"
| rel_fails: "release t l = Some (Some e, l') \<Longrightarrow> step (l, cs) (l', cs)"

definition consistent :: "'l \<times> thread set \<Rightarrow> bool" where
  "consistent s \<longleftrightarrow> valid (fst s) \<and> snd s = (case holder (fst s) of None \<Rightarrow> {} | Some t \<Rightarrow> {t})"

lemma step_consistent: "step s s' \<Longrightarrow> consistent s \<Longrightarrow> consistent s'"
  by (induction rule: step.induct)
    (auto simp: consistent_def dest: acquire_ok acquire_err release_ok release_err)

lemma steps_consistent: "step\<^sup>*\<^sup>* s s' \<Longrightarrow> consistent s \<Longrightarrow> consistent s'"
  by (induction rule: rtranclp_induct) (auto dest: step_consistent)

lemma exclusion: "step\<^sup>*\<^sup>* (l, {}) (l', cs) \<Longrightarrow> valid l \<Longrightarrow> holder l = None \<Longrightarrow> t \<in> cs \<Longrightarrow> u \<in> cs \<Longrightarrow> t = u"
  using steps_consistent [of "(l, {})" "(l', cs)"]
  by (auto simp: consistent_def split: option.splits)

text \<open>Between a successful acquire and its release nobody else gets the lock.\<close>

lemma acquire_release:
  assumes "valid l" "holder l = None"
  shows "\<exists>l'. acquire t l = Some (None, l') \<and> (\<exists>l''. release t l' = Some (None, l'') \<and> holder l'' = None)"
proof -
  obtain r where r: "acquire t l = Some r"
    using acquire_blocks [OF assms(1), of t] assms(2) by fastforce
  obtain e l' where "r = (e, l')" by (cases r)
  with r acquire_err [OF assms(1), of t] assms(2) have acq: "acquire t l = Some (None, l')"
    by (cases e) auto
  from acquire_ok [OF assms(1) acq] have l': "holder l' = Some t" "valid l'" by simp_all
  obtain r' where r': "release t l' = Some r'" using release_total [OF l'(2), of t] by auto
  obtain e' l'' where "r' = (e', l'')" by (cases r')
  with r' release_err [OF l'(2), of t] l'(1) have "release t l' = Some (None, l'')" by (cases e') auto
  with release_ok [OF l'(2) this] acq show ?thesis by blast
qed

end

section \<open>The lock implements it\<close>

definition lock_holder :: "dtlock_linux_t option \<Rightarrow> thread option" where
  "lock_holder self =
     (case self of None \<Rightarrow> None
      | Some l \<Rightarrow> (case lk_mutex l of Some (LockedBy t) \<Rightarrow> Some t | _ \<Rightarrow> None))"

definition lock_valid :: "dtlock_linux_t option \<Rightarrow> bool" where
  "lock_valid self = (case self of None \<Rightarrow> False | Some l \<Rightarrow> lk_mutex l \<noteq> None)"

lemmas lock_defs =
  dtlock_acquire_def dtlock_release_def pthread_mutex_lock_def pthread_mutex_unlock_def
  pthread_rc_def lock_holder_def lock_valid_def

interpretation dtlock: mutex_lock dtlock_acquire dtlock_release lock_holder lock_valid
  by unfold_locales (auto simp: lock_defs split: option.splits mutex.splits if_splits prod.splits)


section \<open>Properties\<close>

text \<open>Threads that share one lock: its state and the threads inside their critical section.\<close>

inductive lock_step :: "dtlock_linux_t option \<times> thread set \<Rightarrow> dtlock_linux_t option \<times> thread set \<Rightarrow> bool" where
  enter: "dtlock_acquire t l = Some (None, l') \<Longrightarrow> lock_step (l, cs) (l', insert t cs)"
| refused: "dtlock_acquire t l = Some (Some e, l') \<Longrightarrow> lock_step (l, cs) (l', cs)"
| leave: "dtlock_release t l = Some (None, l') \<Longrightarrow> lock_step (l, cs) (l', cs - {t})"
| not_owner: "dtlock_release t l = Some (Some e, l') \<Longrightarrow> lock_step (l, cs) (l', cs)"

lemma lock_step_is_step: "lock_step s s' \<Longrightarrow> dtlock.step s s'"
  by (induction rule: lock_step.induct) (auto intro: dtlock.step.intros)

lemma lock_steps_are_steps: "lock_step\<^sup>*\<^sup>* s s' \<Longrightarrow> dtlock.step\<^sup>*\<^sup>* s s'"
  by (induction rule: rtranclp_induct) (auto intro: rtranclp.rtrancl_into_rtrancl lock_step_is_step)

lemma dtlock_create_ok:
  "dtlock_create env h = (None, l) \<Longrightarrow> lock_valid l \<and> lock_holder l = None"
  by (auto simp: dtlock_create_def pthread_rc_def lock_valid_def lock_holder_def Let_def
      split: option.splits if_splits)


definition calm_lock_env :: lock_env where
  "calm_lock_env = \<lparr>le_malloc_ok = True, le_attr_init = None, le_settype = None, le_init = None\<rparr>"

definition fresh_lock :: "mutex \<Rightarrow> dtlock_linux_t option" where
  "fresh_lock m = Some \<lparr>lk_mutex = Some m, lk_is_malloced = True, lk_is_mutex_initialized = True\<rparr>"

lemma create_calm: "dtlock_create calm_lock_env h = (None, fresh_lock Unlocked)"
  by (simp add: dtlock_create_def calm_lock_env_def fresh_lock_def pthread_rc_def)


text \<open>
  Misuse of a lock is reported and changes nothing. An acquire fails exactly when the
  caller owns the lock, a release exactly when it does not, both with STATE and the lock unchanged;
  an acquire blocks exactly while another thread owns the lock.
\<close>

theorem lock_misuse_reported:
  assumes "lock_valid l"
  shows "dtlock_acquire t l =
      (if lock_holder l = Some t then Some (Some DTERR_STATE, l)
       else if lock_holder l = None then Some (None, map_option (\<lambda>x. x\<lparr>lk_mutex := Some (LockedBy t)\<rparr>) l)
       else None) \<and>
    dtlock_release t l =
      Some (if lock_holder l = Some t then (None, map_option (\<lambda>x. x\<lparr>lk_mutex := Some Unlocked\<rparr>) l)
            else (Some DTERR_STATE, l))"
  using assms by (auto simp: lock_defs split: option.splits mutex.splits)

theorem lock_misuse_reported_witness:
  "dtlock_acquire 1 (fresh_lock (LockedBy 1)) = Some (Some DTERR_STATE, fresh_lock (LockedBy 1)) \<and>
   dtlock_release 2 (fresh_lock (LockedBy 1)) = Some (Some DTERR_STATE, fresh_lock (LockedBy 1))"
proof -
  have v: "lock_valid (fresh_lock (LockedBy 1))" by (simp add: lock_defs fresh_lock_def)
  show ?thesis
    using lock_misuse_reported [OF v, of 1] lock_misuse_reported [OF v, of 2]
    by (simp add: lock_holder_def fresh_lock_def)
qed

text \<open>
  When a pthread call of \<open>dtlock_create\<close> fails, the error is reported but the caller's
  handle is left pointing at the new lock, whose mutex was never initialised: it is neither
  freed nor reset, since the cleanup is guarded by the flag that only a success sets.
\<close>

theorem lock_create_failure_keeps_handle:
  assumes "dtlock_create env h = (Some e, h')" "le_malloc_ok env"
  shows "\<exists>l. h' = Some l \<and> lk_mutex l = None \<and> lk_is_malloced l \<and> e = DTERR_OS \<and> dtlock_acquire t h' = None"
  using assms
  by (auto simp: dtlock_create_def pthread_rc_def dtlock_acquire_def Let_def split: option.splits if_splits)

theorem lock_create_failure_keeps_handle_witness:
  "\<exists>l. snd (dtlock_create (calm_lock_env\<lparr>le_init := Some EAGAIN\<rparr>) None) = Some l \<and> lk_mutex l = None"
proof -
  have "dtlock_create (calm_lock_env\<lparr>le_init := Some EAGAIN\<rparr>) None =
    (Some DTERR_OS, Some \<lparr>lk_mutex = None, lk_is_malloced = True, lk_is_mutex_initialized = False\<rparr>)"
    by (simp add: dtlock_create_def calm_lock_env_def pthread_rc_def)
  from lock_create_failure_keeps_handle [OF this] show ?thesis
    unfolding \<open>dtlock_create _ _ = _\<close> by (auto simp: calm_lock_env_def)
qed

end
