(* ===== verification/Condvar.thy ===== *)
theory Condvar
  imports Prelude "HOL-Library.Signed_Division"
begin

text \<open>
  What the semaphore and the buffer queue share: the way they wait. A condition variable is the
  set of threads asleep on it and the set of those that a signal (or a spurious wakeup) has woken
  and that have not yet tested the predicate again. \<open>no_lost_wakeup avail cv\<close> says that no thread
  sleeps while more of the resource is available than there are woken threads to take it.
\<close>

section \<open>Ways to wait\<close>

datatype wait_mode = WaitForever | WaitNot | WaitMillis int

text \<open>
  The result of a call that may wait: still asleep, or returned with an error and the value it
  left in \<open>*was_timeout\<close> (\<open>None\<close>: not written, or the pointer is NULL).
\<close>

datatype wait_result = Asleep | Returned dterr "bool option"

definition set_flag :: "bool \<Rightarrow> bool \<Rightarrow> bool option" where
  "set_flag has_flag v = (if has_flag then Some v else None)"

text \<open>\<open>add_ms_to_timespec_monotonic\<close>; C's division truncates.\<close>

definition add_ms_to_timespec_monotonic :: "int \<times> int \<Rightarrow> int \<Rightarrow> int \<times> int" where
  "add_ms_to_timespec_monotonic ts ms =
     (let sec = fst ts + ms sdiv 1000; nsec = snd ts + (ms smod 1000) * 1000000 in
      if 1000000000 \<le> nsec then (sec + 1, nsec - 1000000000)
      else if nsec < 0 then (sec - 1, nsec + 1000000000)
      else (sec, nsec))"

definition timespec_ns :: "int \<times> int \<Rightarrow> int" where
  "timespec_ns ts = fst ts * 1000000000 + snd ts"

definition timespec_ok :: "int \<times> int \<Rightarrow> bool" where
  "timespec_ok ts \<longleftrightarrow> 0 \<le> snd ts \<and> snd ts < 1000000000"

lemma smod_1000: "-1000 < ms smod (1000::int)" "ms smod 1000 < (1000::int)"
  using smod_int_range [of 1000 ms] by auto

lemma add_ms_exact:
  assumes "timespec_ok ts"
  shows "timespec_ok (add_ms_to_timespec_monotonic ts ms) \<and>
    timespec_ns (add_ms_to_timespec_monotonic ts ms) = timespec_ns ts + ms * 1000000"
proof -
  have "ms sdiv 1000 * 1000 + ms smod 1000 = ms" by (rule sdiv_mult_smod_eq)
  then have ms: "ms * 1000000 = (ms sdiv 1000) * 1000000000 + (ms smod 1000) * 1000000" by linarith
  show ?thesis
    using assms smod_1000 [of ms] ms
    by (auto simp: add_ms_to_timespec_monotonic_def timespec_ok_def timespec_ns_def Let_def)
qed

section \<open>Condition variables\<close>

type_synonym tid = nat

record condvar =
  cv_asleep :: "tid set"
  cv_woken :: "tid set"

definition cv_empty :: condvar where
  "cv_empty = \<lparr>cv_asleep = {}, cv_woken = {}\<rparr>"

definition cv_threads :: "condvar \<Rightarrow> tid set" where
  "cv_threads cv = cv_asleep cv \<union> cv_woken cv"

definition cv_sleep :: "tid \<Rightarrow> condvar \<Rightarrow> condvar" where
  "cv_sleep t cv = \<lparr>cv_asleep = insert t (cv_asleep cv), cv_woken = cv_woken cv - {t}\<rparr>"

definition cv_leave :: "tid \<Rightarrow> condvar \<Rightarrow> condvar" where
  "cv_leave t cv = \<lparr>cv_asleep = cv_asleep cv - {t}, cv_woken = cv_woken cv - {t}\<rparr>"

definition cv_wake :: "tid \<Rightarrow> condvar \<Rightarrow> condvar" where
  "cv_wake t cv = \<lparr>cv_asleep = cv_asleep cv - {t}, cv_woken = insert t (cv_woken cv)\<rparr>"

text \<open>\<open>pthread_cond_signal\<close>: wakes one sleeping thread, when there is one.\<close>

inductive cv_signal :: "condvar \<Rightarrow> condvar \<Rightarrow> bool" where
  nobody: "cv_asleep cv = {} \<Longrightarrow> cv_signal cv cv"
| one: "t \<in> cv_asleep cv \<Longrightarrow> cv_signal cv (cv_wake t cv)"

inductive_simps cv_signal_iff: "cv_signal cv cv'"

definition cv_ok :: "condvar \<Rightarrow> bool" where
  "cv_ok cv \<longleftrightarrow> finite (cv_woken cv) \<and> cv_asleep cv \<inter> cv_woken cv = {}"

definition no_lost_wakeup :: "nat \<Rightarrow> condvar \<Rightarrow> bool" where
  "no_lost_wakeup avail cv \<longleftrightarrow> cv_ok cv \<and> (cv_asleep cv \<noteq> {} \<longrightarrow> avail \<le> card (cv_woken cv))"

lemmas cv_defs = cv_sleep_def cv_leave_def cv_wake_def cv_ok_def cv_threads_def

lemma no_lost_empty [intro, simp]: "no_lost_wakeup n cv_empty"
  by (simp add: no_lost_wakeup_def cv_ok_def cv_empty_def)

text \<open>One more of the resource, with a signal.\<close>

lemma no_lost_release [inv_intros]:
  assumes "no_lost_wakeup n cv" "cv_signal cv cv'"
  shows "no_lost_wakeup (Suc n) cv'"
  using assms(2,1)
proof (induction rule: cv_signal.induct)
  case (nobody cv)
  then show ?case by (simp add: no_lost_wakeup_def)
next
  case (one t cv)
  then have "t \<notin> cv_woken cv" by (auto simp: no_lost_wakeup_def cv_ok_def)
  with one show ?case by (auto simp: no_lost_wakeup_def cv_defs)
qed

text \<open>A thread that was not waiting takes one (it barges in).\<close>

lemma no_lost_take [inv_intros]: "no_lost_wakeup n cv \<Longrightarrow> no_lost_wakeup (n - 1) cv"
  by (auto simp: no_lost_wakeup_def)

text \<open>A woken thread takes one.\<close>

lemma no_lost_woken_take [inv_intros]:
  assumes "no_lost_wakeup n cv" "t \<in> cv_woken cv"
  shows "no_lost_wakeup (n - 1) (cv_leave t cv)"
  using assms by (auto simp: no_lost_wakeup_def cv_defs card_Diff_singleton)

text \<open>A thread that finds nothing goes to sleep.\<close>

lemma no_lost_sleep [inv_intros]: "no_lost_wakeup n cv \<Longrightarrow> no_lost_wakeup 0 (cv_sleep t cv)"
  by (auto simp: no_lost_wakeup_def cv_defs)

text \<open>A sleeping thread gives up, or wakes for no reason.\<close>

lemma no_lost_timeout [inv_intros]:
  assumes "no_lost_wakeup n cv" "t \<in> cv_asleep cv"
  shows "no_lost_wakeup n (cv_leave t cv)"
proof -
  have "t \<notin> cv_woken cv" using assms by (auto simp: no_lost_wakeup_def cv_ok_def)
  with assms show ?thesis by (auto simp: no_lost_wakeup_def cv_defs)
qed

lemma no_lost_spurious [inv_intros]:
  assumes "no_lost_wakeup n cv" "t \<in> cv_asleep cv"
  shows "no_lost_wakeup n (cv_wake t cv)"
proof -
  have "t \<notin> cv_woken cv" using assms by (auto simp: no_lost_wakeup_def cv_ok_def)
  with assms show ?thesis by (auto simp: no_lost_wakeup_def cv_defs)
qed

text \<open>A thread that was woken or never slept takes one; one that slept or never did leaves.\<close>

lemma cv_leave_other: "t \<notin> cv_threads cv \<Longrightarrow> cv_leave t cv = cv"
  by (simp add: cv_defs)

lemma no_lost_taker [inv_intros]:
  "no_lost_wakeup n cv \<Longrightarrow> t \<in> cv_woken cv \<or> t \<notin> cv_threads cv \<Longrightarrow> no_lost_wakeup (n - 1) (cv_leave t cv)"
  using no_lost_take [of n cv] no_lost_woken_take [of n cv t] cv_leave_other [of t cv] by auto

lemma no_lost_leaver [inv_intros]:
  "no_lost_wakeup n cv \<Longrightarrow> t \<in> cv_asleep cv \<or> t \<notin> cv_threads cv \<Longrightarrow> no_lost_wakeup n (cv_leave t cv)"
  using no_lost_timeout [of n cv t] cv_leave_other [of t cv] by auto

end
