(* ===== verification/Semaphore.thy ===== *)
theory Semaphore
  imports Condvar
begin

text \<open>
  \<open>dtmc_linux_library/src/dtsemaphore_linux.c\<close>: the counting semaphore. The parts of
  \<open>dtsemaphore_wait\<close> between two sleeps run under the mutex; each is a definition, and the threads
  of a program are a step relation over them.
\<close>

section \<open>Data and operations\<close>

record dtsemaphore_linux_t =
  sem_is_initialized :: bool
  sem_count :: u32
  sem_max_count :: u32

text \<open>The answers of the allocation and of the four pthread initialisations.\<close>

record sem_env =
  se_alloc :: dterr
  se_mutex_init :: "errno option"
  se_attr_init :: "errno option"
  se_setclock :: "errno option"
  se_cond_init :: "errno option"

text \<open>The error and the new handle; \<open>None\<close> where the caller's handle is not written.\<close>

definition dtsemaphore_create :: "sem_env \<Rightarrow> int \<Rightarrow> int \<Rightarrow> dterr \<times> dtsemaphore_linux_t option" where
  "dtsemaphore_create env initial_count max_count =
     (if se_alloc env \<noteq> None then (se_alloc env, None)
      else if se_mutex_init env \<noteq> None then (Some DTERR_FAIL, None)
      else if se_attr_init env \<noteq> None then (Some DTERR_FAIL, None)
      else if se_setclock env \<noteq> None then (Some DTERR_FAIL, None)
      else if se_cond_init env \<noteq> None then (Some DTERR_FAIL, None)
      else (None, Some \<lparr>sem_is_initialized = False, sem_count = word_of_int initial_count,
              sem_max_count = word_of_int (if max_count = 0 then INT32_MAX else max_count)\<rparr>))"

text \<open>The error, the semaphore, and whether the condition variable is signalled.\<close>

definition dtsemaphore_post ::
  "errno option \<Rightarrow> dtsemaphore_linux_t \<Rightarrow> dterr \<times> dtsemaphore_linux_t \<times> bool" where
  "dtsemaphore_post lock_rc self =
     (if lock_rc \<noteq> None then (Some DTERR_FAIL, self, False)
      else if sem_count self < sem_max_count self
      then (None, self\<lparr>sem_count := sem_count self + 1\<rparr>, True)
      else (None, self, False))"

text \<open>The loop test: sleep on a zero count, take a permit otherwise.\<close>

definition sem_test :: "bool \<Rightarrow> dtsemaphore_linux_t \<Rightarrow> wait_result \<times> dtsemaphore_linux_t" where
  "sem_test has_flag self =
     (if sem_count self = 0 then (Asleep, self)
      else (Returned None (set_flag has_flag False), self\<lparr>sem_count := sem_count self - 1\<rparr>))"

text \<open>The result of a wait that timed out.\<close>

definition sem_timed_out :: "bool \<Rightarrow> wait_result" where
  "sem_timed_out has_flag =
     Returned (if has_flag then None else Some DTERR_TIMEOUT) (set_flag has_flag True)"

text \<open>\<open>dtsemaphore_wait\<close> from its start to its first sleep.\<close>

definition dtsemaphore_wait ::
  "errno option \<Rightarrow> wait_mode \<Rightarrow> bool \<Rightarrow> dtsemaphore_linux_t \<Rightarrow> wait_result \<times> dtsemaphore_linux_t" where
  "dtsemaphore_wait lock_rc mode has_flag self =
     (if lock_rc \<noteq> None then (Returned (Some DTERR_FAIL) None, self)
      else (case mode of
              WaitForever \<Rightarrow> sem_test has_flag self
            | WaitNot \<Rightarrow>
                if sem_count self = 0 then (sem_timed_out has_flag, self)
                else sem_test has_flag self
            | WaitMillis _ \<Rightarrow> sem_test has_flag self))"

text \<open>\<open>dtsemaphore_wait\<close> from the return of the condition wait with code \<open>rc\<close>.\<close>

definition dtsemaphore_wait_resume ::
  "errno option \<Rightarrow> wait_mode \<Rightarrow> bool \<Rightarrow> dtsemaphore_linux_t \<Rightarrow> wait_result \<times> dtsemaphore_linux_t" where
  "dtsemaphore_wait_resume rc mode has_flag self =
     (case mode of
        WaitMillis _ \<Rightarrow>
          if rc = Some ETIMEDOUT then (sem_timed_out has_flag, self)
          else if rc \<noteq> None then (Returned (Some DTERR_FAIL) None, self)
          else sem_test has_flag self
      | _ \<Rightarrow> if rc \<noteq> None then (Returned (Some DTERR_FAIL) None, self) else sem_test has_flag self)"

text \<open>\<open>dtsemaphore_dispose\<close> frees the object.\<close>

definition dtsemaphore_dispose :: "dtsemaphore_linux_t option \<Rightarrow> dtsemaphore_linux_t option" where
  "dtsemaphore_dispose self = None"

section \<open>Threads\<close>

text \<open>
  \<open>sy_released\<close> and \<open>sy_taken\<close> count the posts that raised the count and the waits that took a
  permit; they are not part of the code.
\<close>

record sem_system =
  sy_sem :: dtsemaphore_linux_t
  sy_cv :: condvar
  sy_mode :: "tid \<Rightarrow> wait_mode"
  sy_flag :: "tid \<Rightarrow> bool"
  sy_released :: nat
  sy_taken :: nat

definition count_taken :: "wait_result \<Rightarrow> nat" where
  "count_taken r = (case r of Returned None f \<Rightarrow> if f = Some True then 0 else 1 | _ \<Rightarrow> 0)"

text \<open>Thread \<open>t\<close> gets result \<open>r\<close>: it sleeps, or is done with the condition variable.\<close>

definition sem_after :: "tid \<Rightarrow> wait_result \<times> dtsemaphore_linux_t \<Rightarrow> sem_system \<Rightarrow> sem_system" where
  "sem_after t rs y =
     y\<lparr>sy_sem := snd rs,
       sy_cv := (case fst rs of Asleep \<Rightarrow> cv_sleep t (sy_cv y) | Returned _ _ \<Rightarrow> cv_leave t (sy_cv y)),
       sy_taken := sy_taken y + count_taken (fst rs)\<rparr>"

text \<open>
  One atomic step of some thread: a post, the start of a wait, a woken thread's return from the
  condition wait, a spurious wakeup, and the deadline of a sleeping thread.
\<close>

inductive sem_step :: "sem_system \<Rightarrow> sem_system \<Rightarrow> bool" where
  post: "dtsemaphore_post None (sy_sem y) = (None, s', True) \<Longrightarrow> cv_signal (sy_cv y) cv' \<Longrightarrow>
     sem_step y (y\<lparr>sy_sem := s', sy_cv := cv', sy_released := sy_released y + 1\<rparr>)"
| post_full: "dtsemaphore_post None (sy_sem y) = (None, s', False) \<Longrightarrow> sem_step y (y\<lparr>sy_sem := s'\<rparr>)"
| start: "t \<notin> cv_threads (sy_cv y) \<Longrightarrow>
     sem_step y (sem_after t (dtsemaphore_wait None m f (sy_sem y))
       (y\<lparr>sy_mode := (sy_mode y)(t := m), sy_flag := (sy_flag y)(t := f)\<rparr>))"
| resume: "t \<in> cv_woken (sy_cv y) \<Longrightarrow>
     sem_step y (sem_after t (dtsemaphore_wait_resume None (sy_mode y t) (sy_flag y t) (sy_sem y)) y)"
| spurious: "t \<in> cv_asleep (sy_cv y) \<Longrightarrow> sem_step y (y\<lparr>sy_cv := cv_wake t (sy_cv y)\<rparr>)"
| deadline: "t \<in> cv_asleep (sy_cv y) \<Longrightarrow> sy_mode y t = WaitMillis ms \<Longrightarrow>
     sem_step y (sem_after t (dtsemaphore_wait_resume (Some ETIMEDOUT) (sy_mode y t) (sy_flag y t) (sy_sem y)) y)"

inductive_cases sem_stepE: "sem_step y y'"

definition sem_inv :: "nat \<Rightarrow> sem_system \<Rightarrow> bool" where
  "sem_inv n y \<longleftrightarrow>
     sem_count (sy_sem y) \<le> sem_max_count (sy_sem y) \<and>
     n + sy_released y = unat (sem_count (sy_sem y)) + sy_taken y \<and>
     no_lost_wakeup (unat (sem_count (sy_sem y))) (sy_cv y)"

text \<open>The outcomes of a loop test on the invariant.\<close>

lemma sem_test_inv:
  assumes inv: "sem_inv n y" and t: "t \<in> cv_woken (sy_cv y) \<or> t \<notin> cv_threads (sy_cv y)"
  shows "sem_inv n (sem_after t (sem_test f (sy_sem y)) y)"
proof (cases "sem_count (sy_sem y) = 0")
  case True
  then have nl: "no_lost_wakeup 0 (sy_cv y)" using inv by (simp add: sem_inv_def)
  from True inv no_lost_sleep [OF nl, of t] show ?thesis
    by (simp add: sem_inv_def sem_test_def sem_after_def count_taken_def)
next
  case False
  let ?n = "unat (sem_count (sy_sem y))"
  have nl: "no_lost_wakeup ?n (sy_cv y)" using inv by (simp add: sem_inv_def)
  have "no_lost_wakeup (?n - 1) (cv_leave t (sy_cv y))" by (rule no_lost_taker [OF nl t])
  moreover have "0 < ?n" using False by (simp add: unat_gt_0)
  moreover have "sem_count (sy_sem y) - 1 \<le> sem_max_count (sy_sem y)"
    using inv False by (auto simp: sem_inv_def word_le_nat_alt unat_word_dec)
  ultimately show ?thesis
    using inv False
    by (simp add: sem_inv_def sem_test_def sem_after_def count_taken_def set_flag_def unat_word_dec)
qed

lemma sem_timed_out_taken [simp]: "count_taken (sem_timed_out f) = 0"
  by (simp add: count_taken_def sem_timed_out_def set_flag_def)

lemma sem_inv_ghost [simp]:
  "sem_inv n (y\<lparr>sy_mode := m, sy_flag := f\<rparr>) = sem_inv n y"
  by (simp add: sem_inv_def)

lemma sem_step_inv: "sem_step y y' \<Longrightarrow> sem_inv n y \<Longrightarrow> sem_inv n y'"
proof (induction rule: sem_step.induct)
  case (post y s' cv')
  then have "sem_count (sy_sem y) < sem_max_count (sy_sem y)" "s' = (sy_sem y)\<lparr>sem_count := sem_count (sy_sem y) + 1\<rparr>"
    by (auto simp: dtsemaphore_post_def split: if_splits)
  with post no_lost_release [of "unat (sem_count (sy_sem y))" "sy_cv y" cv'] show ?case
    by (simp add: sem_inv_def unat_word_inc word_le_nat_alt word_less_nat_alt)
next
  case (post_full y s')
  then show ?case by (auto simp: dtsemaphore_post_def sem_inv_def split: if_splits)
next
  case (start t y m f)
  let ?y = "y\<lparr>sy_mode := (sy_mode y)(t := m), sy_flag := (sy_flag y)(t := f)\<rparr>"
  have test: "sem_inv n (sem_after t (sem_test f (sy_sem y)) ?y)"
    using sem_test_inv [of n ?y t f] start by simp
  have "cv_leave t (sy_cv y) = sy_cv y" using start by (simp add: cv_defs)
  then have out: "sem_inv n (sem_after t (sem_timed_out f, sy_sem y) ?y)"
    using start by (simp add: sem_after_def sem_inv_def) (simp add: sem_timed_out_def)
  show ?case
    using test out by (cases m) (simp_all add: dtsemaphore_wait_def)
next
  case (resume t y)
  then show ?case
    using sem_test_inv [of n y t] by (simp add: dtsemaphore_wait_resume_def split: wait_mode.splits)
next
  case (spurious t y)
  then show ?case
    using no_lost_spurious [of _ "sy_cv y" t] by (simp add: sem_inv_def)
next
  case (deadline t y ms)
  then have "no_lost_wakeup (unat (sem_count (sy_sem y))) (cv_leave t (sy_cv y))"
    by (auto simp: sem_inv_def intro: no_lost_timeout)
  with deadline show ?case
    by (simp add: dtsemaphore_wait_resume_def sem_after_def sem_inv_def) (simp add: sem_timed_out_def)
qed

lemma sem_steps_inv: "sem_step\<^sup>*\<^sup>* y y' \<Longrightarrow> sem_inv n y \<Longrightarrow> sem_inv n y'"
  by (induction rule: rtranclp_induct) (auto dest: sem_step_inv)


section \<open>Properties\<close>

definition sem_start :: "dtsemaphore_linux_t \<Rightarrow> sem_system" where
  "sem_start s = \<lparr>sy_sem = s, sy_cv = cv_empty, sy_mode = (\<lambda>_. WaitNot), sy_flag = (\<lambda>_. False),
     sy_released = 0, sy_taken = 0\<rparr>"

lemma unat_of_int: "0 \<le> i \<Longrightarrow> i \<le> INT32_MAX \<Longrightarrow> unat (word_of_int i :: u32) = nat i"
  by (simp add: unat_eq_nat_uint uint_word_of_int INT32_MAX_def)

lemma sem_start_inv:
  assumes create: "dtsemaphore_create env i m = (None, Some s)"
    and args: "0 \<le> i" "i \<le> (if m = 0 then INT32_MAX else m)" "m \<le> INT32_MAX"
  shows "sem_inv (nat i) (sem_start s)"
proof -
  have "unat (word_of_int i :: u32) = nat i"
    "unat (word_of_int (if m = 0 then INT32_MAX else m) :: u32) = nat (if m = 0 then INT32_MAX else m)"
    using args by (auto intro!: unat_of_int simp: INT32_MAX_def split: if_splits)
  with create args show ?thesis
    by (auto simp: dtsemaphore_create_def sem_inv_def sem_start_def word_le_nat_alt split: if_splits)
qed

text \<open>
  C18: permits are conserved and bounded. After any interleaving of posts, waits, wakeups and
  deadlines of any threads, the initial count and the effective posts together are the current count
  and the permits taken, and the count is at most the maximum.
\<close>

theorem sem_permits_conserved:
  assumes "dtsemaphore_create env i m = (None, Some s)"
    and "0 \<le> i" "i \<le> (if m = 0 then INT32_MAX else m)" "m \<le> INT32_MAX"
    and "sem_step\<^sup>*\<^sup>* (sem_start s) y"
  shows "sem_count (sy_sem y) \<le> sem_max_count (sy_sem y) \<and>
    nat i + sy_released y = unat (sem_count (sy_sem y)) + sy_taken y"
  using sem_steps_inv [OF assms(5) sem_start_inv [OF assms(1-4)]] by (simp add: sem_inv_def)

definition calm_sem_env :: sem_env where
  "calm_sem_env = \<lparr>se_alloc = None, se_mutex_init = None, se_attr_init = None, se_setclock = None, se_cond_init = None\<rparr>"

definition sem_of :: "u32 \<Rightarrow> u32 \<Rightarrow> dtsemaphore_linux_t" where
  "sem_of c m = \<lparr>sem_is_initialized = False, sem_count = c, sem_max_count = m\<rparr>"

lemma sem_create_1_2: "dtsemaphore_create calm_sem_env 1 2 = (None, Some (sem_of 1 2))"
  by (simp add: dtsemaphore_create_def calm_sem_env_def sem_of_def)

lemma sem_sample_run:
  "sem_step\<^sup>*\<^sup>* (sem_start (sem_of 1 2))
     ((sem_start (sem_of 1 2))\<lparr>sy_sem := sem_of 2 2, sy_cv := cv_empty, sy_released := 1\<rparr>)"
proof -
  have "cv_signal (sy_cv (sem_start (sem_of 1 2))) cv_empty"
    by (simp add: sem_start_def cv_signal_iff) (simp add: cv_empty_def)
  then have "sem_step (sem_start (sem_of 1 2))
      ((sem_start (sem_of 1 2))\<lparr>sy_sem := sem_of 2 2, sy_cv := cv_empty,
        sy_released := sy_released (sem_start (sem_of 1 2)) + 1\<rparr>)"
    by (intro sem_step.post) (simp_all add: dtsemaphore_post_def sem_start_def sem_of_def)
  then show ?thesis by (simp add: sem_start_def)
qed

theorem sem_permits_conserved_witness:
  "(2::u32) \<le> 2 \<and> nat 1 + (1::nat) = unat (2::u32) + 0"
  using sem_permits_conserved [OF sem_create_1_2 _ _ _ sem_sample_run]
  by (simp add: INT32_MAX_def sem_of_def sem_start_def)

text \<open>
  No wakeup is lost. After any interleaving, while a thread sleeps in
  \<open>dtsemaphore_wait\<close> the available permits are covered by threads already woken to take them; so
  when every waiting thread is asleep there is no permit.
\<close>

theorem sem_no_lost_wakeup:
  assumes "dtsemaphore_create env i m = (None, Some s)"
    and "0 \<le> i" "i \<le> (if m = 0 then INT32_MAX else m)" "m \<le> INT32_MAX"
    and "sem_step\<^sup>*\<^sup>* (sem_start s) y" and "t \<in> cv_asleep (sy_cv y)"
  shows "unat (sem_count (sy_sem y)) \<le> card (cv_woken (sy_cv y)) \<and>
    (cv_woken (sy_cv y) = {} \<longrightarrow> sem_count (sy_sem y) = 0)"
  using sem_steps_inv [OF assms(5) sem_start_inv [OF assms(1-4)]] assms(6)
  by (auto simp: sem_inv_def no_lost_wakeup_def unat_eq_0)

definition sleeping_run :: sem_system where
  "sleeping_run = (sem_start (sem_of 0 2))\<lparr>sy_mode := (\<lambda>_. WaitNot)(7 := WaitForever),
     sy_flag := (\<lambda>_. False)(7 := False), sy_cv := \<lparr>cv_asleep = {7}, cv_woken = {}\<rparr>\<rparr>"

lemma sleeping_sample: "sem_step\<^sup>*\<^sup>* (sem_start (sem_of 0 2)) sleeping_run"
proof -
  have "sem_step (sem_start (sem_of 0 2)) (sem_after 7 (dtsemaphore_wait None WaitForever False (sy_sem (sem_start (sem_of 0 2))))
      ((sem_start (sem_of 0 2))\<lparr>sy_mode := (sy_mode (sem_start (sem_of 0 2)))(7 := WaitForever),
        sy_flag := (sy_flag (sem_start (sem_of 0 2)))(7 := False)\<rparr>))"
    by (rule sem_step.start) (simp add: sem_start_def cv_empty_def cv_threads_def)
  then show ?thesis
    by (simp add: sem_after_def dtsemaphore_wait_def sem_test_def sem_start_def sem_of_def cv_empty_def
        cv_sleep_def count_taken_def sleeping_run_def)
qed

lemma sem_create_0_2: "dtsemaphore_create calm_sem_env 0 2 = (None, Some (sem_of 0 2))"
  by (simp add: dtsemaphore_create_def calm_sem_env_def sem_of_def)

theorem sem_no_lost_wakeup_witness:
  "unat (sem_count (sem_of 0 2)) \<le> card ({} :: tid set)"
  using sem_no_lost_wakeup [OF sem_create_0_2 _ _ _ sleeping_sample, of 7]
  by (simp add: sleeping_run_def sem_start_def INT32_MAX_def)

text \<open>
  A wait that returns tells the truth. It reports success (no error, and the timeout
  flag false or not asked for) exactly when it took one permit; a timeout or a failure leaves the
  count alone, and a timeout is an error when the caller passed no flag.
\<close>

theorem sem_wait_accounting:
  assumes "dtsemaphore_wait lock_rc mode has_flag s = (Returned e f, s') \<or>
    dtsemaphore_wait_resume rc mode has_flag s = (Returned e f, s')"
  shows "if e = None \<and> f \<noteq> Some True
    then sem_count s \<noteq> 0 \<and> s' = s\<lparr>sem_count := sem_count s - 1\<rparr> \<and> (has_flag \<longrightarrow> f = Some False)
    else s' = s \<and> (e = None \<longrightarrow> has_flag) \<and> (f = Some True \<longrightarrow> e = None)"
  using assms
  by (auto simp: dtsemaphore_wait_def dtsemaphore_wait_resume_def sem_test_def sem_timed_out_def set_flag_def
      split: if_splits wait_mode.splits)

theorem sem_wait_accounting_witness:
  "dtsemaphore_wait None (WaitMillis 5) True (sem_of 2 2) = (Returned None (Some False), sem_of 1 2) \<and>
   sem_of 1 2 = (sem_of 2 2)\<lparr>sem_count := sem_count (sem_of 2 2) - 1\<rparr>"
proof
  show w: "dtsemaphore_wait None (WaitMillis 5) True (sem_of 2 2) = (Returned None (Some False), sem_of 1 2)"
    by (simp add: dtsemaphore_wait_def sem_test_def set_flag_def sem_of_def)
  show "sem_of 1 2 = (sem_of 2 2)\<lparr>sem_count := sem_count (sem_of 2 2) - 1\<rparr>"
    using sem_wait_accounting [OF disjI1 [OF w]] by simp
qed

text \<open>
  The deadline of a timed wait is exact. For any number of milliseconds, negative ones
  included, the deadline is a normalised time, exactly that much from the current one.
\<close>

theorem deadline_exact:
  assumes "timespec_ok now"
  shows "timespec_ok (add_ms_to_timespec_monotonic now ms) \<and>
    timespec_ns (add_ms_to_timespec_monotonic now ms) = timespec_ns now + ms * 1000000"
  using assms by (rule add_ms_exact)

theorem deadline_exact_witness:
  "timespec_ns (add_ms_to_timespec_monotonic (5, 999000000) (-1001)) = timespec_ns (5, 999000000) - 1001000000"
  using deadline_exact [of "(5, 999000000)" "-1001"] by (simp add: timespec_ok_def)

end
