(* ===== verification/BufferQueue.thy ===== *)
theory BufferQueue
  imports Condvar
begin

text \<open>
  \<open>dtmc_linux_library/src/dtbufferqueue_linux.c\<close>: the bounded queue of buffer pointers, a ring
  with two condition variables. The interface of a bounded queue is the locale
  \<open>bounded_queue\<close>; the ring is shown to implement it, and the threads of a program are a step
  relation over the code's critical sections.
\<close>

section \<open>Data and operations\<close>

type_synonym buffer = nat

text \<open>A ring cell is \<open>None\<close> for NULL; the ring's length is the allocated storage.\<close>

record dtbufferqueue_t =
  bq_max_count :: int
  bq_should_overwrite :: bool
  bq_ring :: "buffer option list"
  bq_count :: u32
  bq_head :: u32
  bq_tail :: u32

record bq_env =
  be_alloc :: dterr
  be_alloc_ring :: dterr
  be_mutex_init :: "errno option"
  be_attr_init :: "errno option"
  be_setclock :: "errno option"
  be_not_empty_init :: "errno option"
  be_not_full_init :: "errno option"

text \<open>\<open>(int32_t)(sizeof(dtbuffer_t*) * (size_t)max_count)\<close>, pointers having 8 bytes.\<close>

definition storage_size :: "int \<Rightarrow> int" where
  "storage_size max_count = to_int32 (8 * max_count)"

definition dtbufferqueue_create :: "bq_env \<Rightarrow> int \<Rightarrow> bool \<Rightarrow> dterr \<times> dtbufferqueue_t option" where
  "dtbufferqueue_create env max_count should_overwrite =
     (if be_alloc env \<noteq> None then (be_alloc env, None)
      else let m = (if max_count = 0 then 1 else max_count) in
        if be_alloc_ring env \<noteq> None then (be_alloc_ring env, None)
        else if be_mutex_init env \<noteq> None then (Some DTERR_FAIL, None)
        else if be_attr_init env \<noteq> None then (Some DTERR_FAIL, None)
        else if be_setclock env \<noteq> None then (Some DTERR_FAIL, None)
        else if be_not_empty_init env \<noteq> None then (Some DTERR_FAIL, None)
        else if be_not_full_init env \<noteq> None then (Some DTERR_FAIL, None)
        else (None, Some \<lparr>bq_max_count = m, bq_should_overwrite = should_overwrite,
                bq_ring = replicate (nat (storage_size m) div 8) None,
                bq_count = 0, bq_head = 0, bq_tail = 0\<rparr>))"

text \<open>\<open>(uint32_t)max_count\<close>, the conversion of the comparisons and of the modulus.\<close>

definition bq_cap :: "dtbufferqueue_t \<Rightarrow> u32" where
  "bq_cap self = word_of_int (bq_max_count self)"

definition bq_full :: "dtbufferqueue_t \<Rightarrow> bool" where
  "bq_full self \<longleftrightarrow> bq_count self = bq_cap self"

text \<open>The enqueue; \<open>None\<close>: the store is outside the ring's storage.\<close>

definition bq_enqueue :: "buffer option \<Rightarrow> dtbufferqueue_t \<Rightarrow> dtbufferqueue_t option" where
  "bq_enqueue buffer self =
     (if length (bq_ring self) \<le> unat (bq_tail self) then None
      else Some (self\<lparr>bq_ring := (bq_ring self)[unat (bq_tail self) := buffer],
             bq_tail := (bq_tail self + 1) mod bq_cap self,
             bq_count := bq_count self + 1\<rparr>))"

definition bq_dequeue :: "dtbufferqueue_t \<Rightarrow> (buffer option \<times> dtbufferqueue_t) option" where
  "bq_dequeue self =
     (if length (bq_ring self) \<le> unat (bq_head self) then None
      else Some (bq_ring self ! unat (bq_head self),
             self\<lparr>bq_head := (bq_head self + 1) mod bq_cap self, bq_count := bq_count self - 1\<rparr>))"

text \<open>
  What a put or a get does under the mutex: sleeps, returns with an error and the timeout flag, or
  moves a buffer (the flag then stays at the false it starts with). \<open>BqFault\<close>: the access is
  outside the ring.
\<close>

datatype bq_result = BqAsleep | BqReturned dterr "bool option" | BqMoved "bool option" "buffer option" | BqFault

definition bq_do_put :: "bool \<Rightarrow> buffer \<Rightarrow> dtbufferqueue_t \<Rightarrow> bq_result \<times> dtbufferqueue_t" where
  "bq_do_put has_flag buffer self =
     (case bq_enqueue (Some buffer) self of
        None \<Rightarrow> (BqFault, self)
      | Some self' \<Rightarrow> (BqMoved (set_flag has_flag False) (Some buffer), self'))"

definition bq_do_get :: "bool \<Rightarrow> dtbufferqueue_t \<Rightarrow> bq_result \<times> dtbufferqueue_t" where
  "bq_do_get has_flag self =
     (case bq_dequeue self of
        None \<Rightarrow> (BqFault, self)
      | Some (b, self') \<Rightarrow> (BqMoved (set_flag has_flag False) b, self'))"

text \<open>\<open>dtbufferqueue_put\<close> from its start to its first sleep, and from the return of a sleep.\<close>

definition dtbufferqueue_put ::
  "errno option \<Rightarrow> wait_mode \<Rightarrow> bool \<Rightarrow> buffer option \<Rightarrow> dtbufferqueue_t \<Rightarrow> bq_result \<times> dtbufferqueue_t" where
  "dtbufferqueue_put lock_rc mode has_flag buffer self =
     (case buffer of
        None \<Rightarrow> (BqReturned (Some DTERR_ASSERT) None, self)
      | Some b \<Rightarrow>
          if lock_rc \<noteq> None then (BqReturned (Some DTERR_FAIL) (set_flag has_flag False), self)
          else (case mode of
                  WaitForever \<Rightarrow> if bq_full self then (BqAsleep, self) else bq_do_put has_flag b self
                | WaitNot \<Rightarrow>
                    if bq_full self then (BqReturned None (set_flag has_flag True), self)
                    else bq_do_put has_flag b self
                | WaitMillis _ \<Rightarrow> if bq_full self then (BqAsleep, self) else bq_do_put has_flag b self))"

definition dtbufferqueue_put_resume ::
  "errno option \<Rightarrow> wait_mode \<Rightarrow> bool \<Rightarrow> buffer \<Rightarrow> dtbufferqueue_t \<Rightarrow> bq_result \<times> dtbufferqueue_t" where
  "dtbufferqueue_put_resume rc mode has_flag b self =
     (if rc = Some ETIMEDOUT \<and> (case mode of WaitMillis _ \<Rightarrow> True | _ \<Rightarrow> False)
      then (BqReturned None (set_flag has_flag True), self)
      else if rc \<noteq> None then (BqReturned (Some DTERR_FAIL) (set_flag has_flag False), self)
      else if bq_full self then (BqAsleep, self)
      else bq_do_put has_flag b self)"

definition dtbufferqueue_get ::
  "errno option \<Rightarrow> wait_mode \<Rightarrow> bool \<Rightarrow> dtbufferqueue_t \<Rightarrow> bq_result \<times> dtbufferqueue_t" where
  "dtbufferqueue_get lock_rc mode has_flag self =
     (if lock_rc \<noteq> None then (BqReturned (Some DTERR_FAIL) (set_flag has_flag False), self)
      else if 0 < bq_count self then bq_do_get has_flag self
      else (case mode of
              WaitForever \<Rightarrow> (BqAsleep, self)
            | WaitNot \<Rightarrow> (BqReturned None (set_flag has_flag True), self)
            | WaitMillis _ \<Rightarrow> (BqAsleep, self)))"

definition dtbufferqueue_get_resume ::
  "errno option \<Rightarrow> wait_mode \<Rightarrow> bool \<Rightarrow> dtbufferqueue_t \<Rightarrow> bq_result \<times> dtbufferqueue_t" where
  "dtbufferqueue_get_resume rc mode has_flag self =
     (if rc = Some ETIMEDOUT \<and> (case mode of WaitMillis _ \<Rightarrow> True | _ \<Rightarrow> False)
      then (BqReturned None (set_flag has_flag True), self)
      else if rc \<noteq> None then (BqReturned (Some DTERR_FAIL) (set_flag has_flag False), self)
      else if bq_count self = 0 then (BqAsleep, self)
      else bq_do_get has_flag self)"

section \<open>The interface of a bounded queue\<close>

text \<open>
  \<open>items q\<close> is the contents, oldest first. A put on a queue that is not full appends, a get on
  one that is not empty removes the oldest.
\<close>

locale bounded_queue =
  fixes items :: "'q \<Rightarrow> 'b list"
    and capacity :: "'q \<Rightarrow> nat"
    and valid :: "'q \<Rightarrow> bool"
    and put :: "'b \<Rightarrow> 'q \<Rightarrow> 'q option"
    and get :: "'q \<Rightarrow> ('b \<times> 'q) option"
  assumes bounded: "valid q \<Longrightarrow> length (items q) \<le> capacity q"
    and put_ok: "valid q \<Longrightarrow> length (items q) < capacity q \<Longrightarrow>
      \<exists>q'. put b q = Some q' \<and> valid q' \<and> items q' = items q @ [b] \<and> capacity q' = capacity q"
    and get_ok: "valid q \<Longrightarrow> items q \<noteq> [] \<Longrightarrow>
      \<exists>q'. get q = Some (hd (items q), q') \<and> valid q' \<and> items q' = tl (items q) \<and> capacity q' = capacity q"
begin

lemma put_items:
  assumes "valid q" "length (items q) < capacity q" "put b q = Some q'"
  shows "valid q'" "items q' = items q @ [b]" "capacity q' = capacity q"
  using put_ok [OF assms(1,2), of b] assms(3) by auto

lemma get_items:
  assumes "valid q" "items q \<noteq> []" "get q = Some (b, q')"
  shows "valid q'" "items q = b # items q'" "capacity q' = capacity q"
  using get_ok [OF assms(1,2)] assms(2,3) by (auto simp: hd_Cons_tl)

text \<open>A history: what was put and what was got so far, with the queue between.\<close>

definition fifo :: "'b list \<Rightarrow> 'b list \<Rightarrow> 'q \<Rightarrow> bool" where
  "fifo ins outs q \<longleftrightarrow> valid q \<and> ins = outs @ items q"

lemma fifo_put:
  "fifo ins outs q \<Longrightarrow> length (items q) < capacity q \<Longrightarrow> put b q = Some q' \<Longrightarrow> fifo (ins @ [b]) outs q'"
  using put_items [of q b q'] by (simp add: fifo_def)

lemma fifo_get:
  "fifo ins outs q \<Longrightarrow> items q \<noteq> [] \<Longrightarrow> get q = Some (b, q') \<Longrightarrow> fifo ins (outs @ [b]) q'"
  using get_items [of q b q'] by (simp add: fifo_def)

end

section \<open>The ring implements it\<close>

definition bq_items :: "dtbufferqueue_t \<Rightarrow> buffer option list" where
  "bq_items q = map (\<lambda>i. bq_ring q ! ((unat (bq_head q) + i) mod nat (bq_max_count q))) [0..<unat (bq_count q)]"

text \<open>
  The ring's invariant: the storage has a cell for each of the \<open>max_count\<close> places, the pop index
  is one of them and the push index is \<open>count\<close> places on.
\<close>

definition bq_valid :: "dtbufferqueue_t \<Rightarrow> bool" where
  "bq_valid q \<longleftrightarrow>
     0 < bq_max_count q \<and> bq_max_count q \<le> INT32_MAX \<and> length (bq_ring q) = nat (bq_max_count q) \<and>
     unat (bq_head q) < nat (bq_max_count q) \<and>
     unat (bq_tail q) = (unat (bq_head q) + unat (bq_count q)) mod nat (bq_max_count q) \<and>
     unat (bq_count q) \<le> nat (bq_max_count q)"

lemma bq_cap_unat: "0 < bq_max_count q \<Longrightarrow> bq_max_count q \<le> INT32_MAX \<Longrightarrow> unat (bq_cap q) = nat (bq_max_count q)"
  by (simp add: bq_cap_def unat_eq_nat_uint uint_word_of_int INT32_MAX_def)

lemma bq_full_iff: "bq_valid q \<Longrightarrow> bq_full q \<longleftrightarrow> unat (bq_count q) = nat (bq_max_count q)"
  by (metis bq_cap_unat bq_full_def bq_valid_def word_unat_eq_iff)

lemma length_bq_items [simp]: "length (bq_items q) = unat (bq_count q)"
  by (simp add: bq_items_def)

lemma unat_inc_mod:
  assumes "0 < m" "m \<le> INT32_MAX" "unat (w :: u32) < nat m"
  shows "unat ((w + 1) mod word_of_int m) = (unat w + 1) mod nat m"
proof -
  have m: "unat (word_of_int m :: u32) = nat m"
    using assms(1,2) by (simp add: unat_eq_nat_uint uint_word_of_int INT32_MAX_def)
  have "unat (w + 1) = unat w + 1"
    using assms m by (intro unat_word_inc [of w "word_of_int m"]) (simp add: word_less_nat_alt)
  with m show ?thesis by (simp add: unat_mod)
qed

lemma ring_places:
  assumes "i < c" "c < m"
  shows "(h + i) mod m \<noteq> (h + c) mod (m :: nat)"
proof
  assume "(h + i) mod m = (h + c) mod m"
  then have "m dvd (h + c) - (h + i)"
    using assms(1) mod_eq_dvd_iff_nat [of "h + i" "h + c" m] by simp
  with assms show False by (auto dest: dvd_imp_le)
qed

lemma bq_enqueue_valid:
  assumes "bq_valid q" "length (bq_items q) < nat (bq_max_count q)"
  shows "\<exists>q'. bq_enqueue b q = Some q' \<and> bq_valid q' \<and> bq_items q' = bq_items q @ [b] \<and>
    nat (bq_max_count q') = nat (bq_max_count q)"
proof -
  let ?m = "nat (bq_max_count q)" and ?h = "unat (bq_head q)" and ?c = "unat (bq_count q)"
  let ?t = "unat (bq_tail q)"
  have q: "0 < bq_max_count q" "bq_max_count q \<le> INT32_MAX" "length (bq_ring q) = ?m" "?h < ?m"
    "?t = (?h + ?c) mod ?m" "?c < ?m"
    using assms by (simp_all add: bq_valid_def)
  have "0 < ?m" using q(1) by simp
  then have t: "?t < ?m" unfolding q(5) by (rule mod_less_divisor)
  define q' where "q' = q\<lparr>bq_ring := (bq_ring q)[?t := b],
    bq_tail := (bq_tail q + 1) mod bq_cap q, bq_count := bq_count q + 1\<rparr>"
  have c': "unat (bq_count q + 1) = ?c + 1"
    using q bq_cap_unat [of q] by (intro unat_word_inc [of _ "bq_cap q"]) (simp add: word_less_nat_alt)
  have t': "unat ((bq_tail q + 1) mod bq_cap q) = (?h + (?c + 1)) mod ?m"
    using unat_inc_mod [OF q(1,2) t] q(5) by (simp add: bq_cap_def mod_Suc_eq)
  have "bq_enqueue b q = Some q'" using t q(3) by (simp add: bq_enqueue_def q'_def)
  moreover have "bq_valid q'" using q c' t' by (simp add: bq_valid_def q'_def)
  moreover have "bq_items q' = bq_items q @ [b]"
  proof -
    have "?t \<noteq> (?h + i) mod ?m" if "i < ?c" for i
      unfolding q(5) using ring_places [OF that q(6)] by (rule not_sym)
    then show ?thesis
      using t q(3) c' by (auto simp: bq_items_def q'_def q(5) [symmetric])
  qed
  ultimately show ?thesis by (intro exI [of _ q']) (simp add: q'_def)
qed

lemma bq_dequeue_valid:
  assumes "bq_valid q" "bq_items q \<noteq> []"
  shows "\<exists>q'. bq_dequeue q = Some (hd (bq_items q), q') \<and> bq_valid q' \<and> bq_items q' = tl (bq_items q) \<and>
    nat (bq_max_count q') = nat (bq_max_count q)"
proof -
  let ?m = "nat (bq_max_count q)" and ?h = "unat (bq_head q)" and ?c = "unat (bq_count q)"
  have q: "0 < bq_max_count q" "bq_max_count q \<le> INT32_MAX" "length (bq_ring q) = ?m" "?h < ?m"
    "unat (bq_tail q) = (?h + ?c) mod ?m" "?c \<le> ?m"
    using assms by (simp_all add: bq_valid_def)
  have pos: "0 < ?c" using assms(2) by (metis length_bq_items length_greater_0_conv)
  then have upt: "[0..<?c] = 0 # map Suc [0..<?c - 1]"
    by (metis Suc_diff_1 map_Suc_upt upt_conv_Cons)
  define q' where "q' = q\<lparr>bq_head := (bq_head q + 1) mod bq_cap q, bq_count := bq_count q - 1\<rparr>"
  have c': "unat (bq_count q - 1) = ?c - 1" using pos by (simp add: unat_word_dec unat_gt_0)
  have h': "unat ((bq_head q + 1) mod bq_cap q) = (?h + 1) mod ?m"
    using unat_inc_mod [OF q(1,2,4)] by (simp add: bq_cap_def)
  have "hd (bq_items q) = bq_ring q ! ?h" using q(4) by (simp add: bq_items_def upt)
  then have deq: "bq_dequeue q = Some (hd (bq_items q), q')" using q by (simp add: bq_dequeue_def q'_def)
  have "((?h + 1) mod ?m + (?c - 1)) mod ?m = (?h + ?c) mod ?m"
    unfolding mod_add_left_eq using pos by simp
  moreover have "?c - 1 \<le> ?m" using q(6) by simp
  ultimately have "bq_valid q'"
    using q c' h' by (auto simp: bq_valid_def q'_def)
  moreover have "bq_items q' = tl (bq_items q)"
    using c' h' by (simp add: bq_items_def q'_def upt mod_add_left_eq)
  ultimately show ?thesis using deq by (intro exI [of _ q']) (simp add: q'_def)
qed


interpretation bq: bounded_queue bq_items "\<lambda>q. nat (bq_max_count q)" bq_valid bq_enqueue bq_dequeue
proof unfold_locales
  show "length (bq_items q) \<le> nat (bq_max_count q)" if "bq_valid q" for q
    using that by (simp add: bq_valid_def)
qed (fact bq_enqueue_valid bq_dequeue_valid)+

section \<open>Threads\<close>

text \<open>
  \<open>by_ins\<close> and \<open>by_outs\<close> are the buffers put and got so far, \<open>by_fault\<close> records an access
  outside the ring; they are not part of the code.
\<close>

record bq_system =
  by_queue :: dtbufferqueue_t
  by_getters :: condvar
  by_putters :: condvar
  by_mode :: "tid \<Rightarrow> wait_mode"
  by_flag :: "tid \<Rightarrow> bool"
  by_arg :: "tid \<Rightarrow> buffer"
  by_ins :: "buffer option list"
  by_outs :: "buffer option list"
  by_fault :: bool

text \<open>
  The atomic parts of a put by thread \<open>t\<close>: its start, its return from a sleep after a wakeup, and
  its deadline.
\<close>

inductive put_call :: "bq_system \<Rightarrow> tid \<Rightarrow> wait_mode \<Rightarrow> bool \<Rightarrow> buffer \<Rightarrow> bq_result \<times> dtbufferqueue_t \<Rightarrow> bool" where
  put_start: "t \<notin> cv_threads (by_putters y) \<Longrightarrow> t \<notin> cv_threads (by_getters y) \<Longrightarrow>
     put_call y t m f b (dtbufferqueue_put None m f (Some b) (by_queue y))"
| put_woken: "t \<in> cv_woken (by_putters y) \<Longrightarrow>
     put_call y t (by_mode y t) (by_flag y t) (by_arg y t)
       (dtbufferqueue_put_resume None (by_mode y t) (by_flag y t) (by_arg y t) (by_queue y))"
| put_deadline: "t \<in> cv_asleep (by_putters y) \<Longrightarrow> by_mode y t = WaitMillis ms \<Longrightarrow>
     put_call y t (by_mode y t) (by_flag y t) (by_arg y t)
       (dtbufferqueue_put_resume (Some ETIMEDOUT) (by_mode y t) (by_flag y t) (by_arg y t) (by_queue y))"

inductive get_call :: "bq_system \<Rightarrow> tid \<Rightarrow> wait_mode \<Rightarrow> bool \<Rightarrow> bq_result \<times> dtbufferqueue_t \<Rightarrow> bool" where
  get_start: "t \<notin> cv_threads (by_putters y) \<Longrightarrow> t \<notin> cv_threads (by_getters y) \<Longrightarrow>
     get_call y t m f (dtbufferqueue_get None m f (by_queue y))"
| get_woken: "t \<in> cv_woken (by_getters y) \<Longrightarrow>
     get_call y t (by_mode y t) (by_flag y t)
       (dtbufferqueue_get_resume None (by_mode y t) (by_flag y t) (by_queue y))"
| get_deadline: "t \<in> cv_asleep (by_getters y) \<Longrightarrow> by_mode y t = WaitMillis ms \<Longrightarrow>
     get_call y t (by_mode y t) (by_flag y t)
       (dtbufferqueue_get_resume (Some ETIMEDOUT) (by_mode y t) (by_flag y t) (by_queue y))"

inductive bq_step :: "bq_system \<Rightarrow> bq_system \<Rightarrow> bool" where
  put_sleeps: "put_call y t m f b (BqAsleep, q') \<Longrightarrow>
     bq_step y (y\<lparr>by_queue := q', by_putters := cv_sleep t (by_putters y),
       by_mode := (by_mode y)(t := m), by_flag := (by_flag y)(t := f), by_arg := (by_arg y)(t := b)\<rparr>)"
| put_returns: "put_call y t m f b (BqReturned e fl, q') \<Longrightarrow>
     bq_step y (y\<lparr>by_queue := q', by_putters := cv_leave t (by_putters y)\<rparr>)"
| put_moves: "put_call y t m f b (BqMoved fl x, q') \<Longrightarrow> cv_signal (by_getters y) g \<Longrightarrow>
     bq_step y (y\<lparr>by_queue := q', by_putters := cv_leave t (by_putters y), by_getters := g,
       by_ins := by_ins y @ [x]\<rparr>)"
| put_faults: "put_call y t m f b (BqFault, q') \<Longrightarrow> bq_step y (y\<lparr>by_fault := True\<rparr>)"
| get_sleeps: "get_call y t m f (BqAsleep, q') \<Longrightarrow>
     bq_step y (y\<lparr>by_queue := q', by_getters := cv_sleep t (by_getters y),
       by_mode := (by_mode y)(t := m), by_flag := (by_flag y)(t := f)\<rparr>)"
| get_returns: "get_call y t m f (BqReturned e fl, q') \<Longrightarrow>
     bq_step y (y\<lparr>by_queue := q', by_getters := cv_leave t (by_getters y)\<rparr>)"
| get_moves: "get_call y t m f (BqMoved fl x, q') \<Longrightarrow> cv_signal (by_putters y) p \<Longrightarrow>
     bq_step y (y\<lparr>by_queue := q', by_getters := cv_leave t (by_getters y), by_putters := p,
       by_outs := by_outs y @ [x]\<rparr>)"
| get_faults: "get_call y t m f (BqFault, q') \<Longrightarrow> bq_step y (y\<lparr>by_fault := True\<rparr>)"
| put_spurious: "t \<in> cv_asleep (by_putters y) \<Longrightarrow> bq_step y (y\<lparr>by_putters := cv_wake t (by_putters y)\<rparr>)"
| get_spurious: "t \<in> cv_asleep (by_getters y) \<Longrightarrow> bq_step y (y\<lparr>by_getters := cv_wake t (by_getters y)\<rparr>)"

definition bq_free :: "dtbufferqueue_t \<Rightarrow> nat" where
  "bq_free q = nat (bq_max_count q) - length (bq_items q)"

definition bq_inv :: "bq_system \<Rightarrow> bool" where
  "bq_inv y \<longleftrightarrow> bq.fifo (by_ins y) (by_outs y) (by_queue y) \<and>
     no_lost_wakeup (length (bq_items (by_queue y))) (by_getters y) \<and>
     no_lost_wakeup (bq_free (by_queue y)) (by_putters y) \<and> \<not> by_fault y"

lemma bq_inv_valid: "bq_inv y \<Longrightarrow> bq_valid (by_queue y)"
  by (simp add: bq_inv_def bq.fifo_def)

text \<open>What a put and a get on a valid ring can give.\<close>

definition put_outcome :: "dtbufferqueue_t \<Rightarrow> bq_result \<times> dtbufferqueue_t \<Rightarrow> bool" where
  "put_outcome q rq =
     (case fst rq of
        BqAsleep \<Rightarrow> snd rq = q \<and> bq_free q = 0
      | BqReturned e fl \<Rightarrow> snd rq = q
      | BqMoved fl x \<Rightarrow> bq_enqueue x q = Some (snd rq) \<and> length (bq_items q) < nat (bq_max_count q)
      | BqFault \<Rightarrow> False)"

definition get_outcome :: "dtbufferqueue_t \<Rightarrow> bq_result \<times> dtbufferqueue_t \<Rightarrow> bool" where
  "get_outcome q rq =
     (case fst rq of
        BqAsleep \<Rightarrow> snd rq = q \<and> bq_items q = []
      | BqReturned e fl \<Rightarrow> snd rq = q
      | BqMoved fl x \<Rightarrow> bq_dequeue q = Some (x, snd rq) \<and> bq_items q \<noteq> []
      | BqFault \<Rightarrow> False)"

lemma bq_items_empty: "bq_items q = [] \<longleftrightarrow> bq_count q = 0"
  by (metis length_0_conv length_bq_items unat_eq_0)

lemma full_free: "bq_valid q \<Longrightarrow> bq_full q \<Longrightarrow> bq_free q = 0"
  by (simp add: bq_full_iff bq_free_def)

lemma put_outcome_moves: "bq_valid q \<Longrightarrow> \<not> bq_full q \<Longrightarrow> put_outcome q (bq_do_put f b q)"
  using bq_enqueue_valid [of q "Some b"] bq_full_iff [of q]
  by (auto simp: put_outcome_def bq_do_put_def bq_valid_def)

lemma get_outcome_moves:
  assumes "bq_valid q" "bq_count q \<noteq> 0"
  shows "get_outcome q (bq_do_get f q)"
proof -
  have "bq_items q \<noteq> []" using assms(2) by (simp add: bq_items_empty)
  from bq_dequeue_valid [OF assms(1) this] this show ?thesis
    by (auto simp: get_outcome_def bq_do_get_def)
qed

lemma put_outcomes:
  assumes "bq_valid q"
  shows "put_outcome q (dtbufferqueue_put rc m f b q)" "put_outcome q (dtbufferqueue_put_resume rc m f b' q)"
proof -
  have stay: "put_outcome q (BqReturned e fl, q)" for e fl by (simp add: put_outcome_def)
  have sleep: "bq_full q \<Longrightarrow> put_outcome q (BqAsleep, q)" using full_free [OF assms] by (simp add: put_outcome_def)
  note moves = put_outcome_moves [OF assms]
  show "put_outcome q (dtbufferqueue_put rc m f b q)"
    by (simp add: dtbufferqueue_put_def stay sleep moves split: option.split wait_mode.split)
  show "put_outcome q (dtbufferqueue_put_resume rc m f b' q)"
    by (simp add: dtbufferqueue_put_resume_def stay sleep moves)
qed

lemma get_outcomes:
  assumes "bq_valid q"
  shows "get_outcome q (dtbufferqueue_get rc m f q)" "get_outcome q (dtbufferqueue_get_resume rc m f q)"
proof -
  have stay: "get_outcome q (BqReturned e fl, q)" for e fl by (simp add: get_outcome_def)
  have sleep: "bq_count q = 0 \<Longrightarrow> get_outcome q (BqAsleep, q)" by (simp add: get_outcome_def bq_items_empty)
  note moves = get_outcome_moves [OF assms]
  show "get_outcome q (dtbufferqueue_get rc m f q)"
    by (simp add: dtbufferqueue_get_def stay sleep moves word_greater_zero_iff split: wait_mode.split)
  show "get_outcome q (dtbufferqueue_get_resume rc m f q)"
    by (simp add: dtbufferqueue_get_resume_def stay sleep moves)
qed

lemma put_call_outcome: "put_call y t m f b rq \<Longrightarrow> bq_valid (by_queue y) \<Longrightarrow> put_outcome (by_queue y) rq"
  by (induction rule: put_call.induct) (simp_all add: put_outcomes)

lemma get_call_outcome: "get_call y t m f rq \<Longrightarrow> bq_valid (by_queue y) \<Longrightarrow> get_outcome (by_queue y) rq"
  by (induction rule: get_call.induct) (simp_all add: get_outcomes)


text \<open>A thread that gives up was asleep or new, one that moves or sleeps was woken or new.\<close>

lemma put_call_thread:
  "put_call y t m f b rq \<Longrightarrow>
     t \<notin> cv_threads (by_putters y) \<or>
     (case fst rq of BqReturned e fl \<Rightarrow> t \<in> cv_asleep (by_putters y) | _ \<Rightarrow> t \<in> cv_woken (by_putters y))"
  by (induction rule: put_call.induct)
    (auto simp: dtbufferqueue_put_resume_def bq_do_put_def split: option.split)

lemma get_call_thread:
  "get_call y t m f rq \<Longrightarrow>
     t \<notin> cv_threads (by_getters y) \<or>
     (case fst rq of BqReturned e fl \<Rightarrow> t \<in> cv_asleep (by_getters y) | _ \<Rightarrow> t \<in> cv_woken (by_getters y))"
  by (induction rule: get_call.induct)
    (auto simp: dtbufferqueue_get_resume_def bq_do_get_def split: option.split)

lemma bq_step_inv: "bq_step y y' \<Longrightarrow> bq_inv y \<Longrightarrow> bq_inv y'"
proof (induction rule: bq_step.induct)
  case (put_sleeps y t m f b q')
  then have "put_outcome (by_queue y) (BqAsleep, q')" by (intro put_call_outcome bq_inv_valid)
  with put_sleeps no_lost_sleep [of 0 "by_putters y" t] show ?case
    by (simp add: put_outcome_def bq_inv_def)
next
  case (put_returns y t m f b e fl q')
  then have "put_outcome (by_queue y) (BqReturned e fl, q')" by (intro put_call_outcome bq_inv_valid)
  with put_returns put_call_thread [OF put_returns(1)] show ?case
    by (auto simp: put_outcome_def bq_inv_def intro: no_lost_leaver)
next
  case (put_moves y t m f b fl x q' g)
  then have out: "bq_enqueue x (by_queue y) = Some q'"
    "length (bq_items (by_queue y)) < nat (bq_max_count (by_queue y))"
    using put_call_outcome [OF put_moves(1) bq_inv_valid] by (auto simp: put_outcome_def)
  note q' = bq.put_items [OF bq_inv_valid [OF put_moves(3)] out(2,1)]
  have "no_lost_wakeup (bq_free (by_queue y) - 1) (cv_leave t (by_putters y))"
    using put_moves put_call_thread [OF put_moves(1)] by (intro no_lost_taker) (auto simp: bq_inv_def)
  moreover have "bq_free q' = bq_free (by_queue y) - 1"
    using q'(2,3) by (simp add: bq_free_def del: length_bq_items)
  moreover have "no_lost_wakeup (Suc (length (bq_items (by_queue y)))) g"
    using put_moves by (intro no_lost_release) (auto simp: bq_inv_def)
  ultimately show ?case
    using put_moves(3) bq.fifo_put [OF _ out(2,1)] q'(2) by (simp add: bq_inv_def del: length_bq_items)
next
  case (put_faults y t m f b q')
  then have "put_outcome (by_queue y) (BqFault, q')" by (intro put_call_outcome bq_inv_valid)
  then show ?case by (simp add: put_outcome_def)
next
  case (get_sleeps y t m f q')
  then have "get_outcome (by_queue y) (BqAsleep, q')" by (intro get_call_outcome bq_inv_valid)
  with get_sleeps no_lost_sleep [of 0 "by_getters y" t] show ?case
    by (simp add: get_outcome_def bq_inv_def del: length_bq_items)
next
  case (get_returns y t m f e fl q')
  then have "get_outcome (by_queue y) (BqReturned e fl, q')" by (intro get_call_outcome bq_inv_valid)
  with get_returns get_call_thread [OF get_returns(1)] show ?case
    by (auto simp: get_outcome_def bq_inv_def intro: no_lost_leaver)
next
  case (get_moves y t m f fl x q' p)
  then have out: "bq_dequeue (by_queue y) = Some (x, q')" "bq_items (by_queue y) \<noteq> []"
    using get_call_outcome [OF get_moves(1) bq_inv_valid] by (auto simp: get_outcome_def)
  note q' = bq.get_items [OF bq_inv_valid [OF get_moves(3)] out(2,1)]
  have "no_lost_wakeup (length (bq_items (by_queue y)) - 1) (cv_leave t (by_getters y))"
    using get_moves get_call_thread [OF get_moves(1)] by (intro no_lost_taker) (auto simp: bq_inv_def)
  moreover have "bq_free q' = Suc (bq_free (by_queue y))"
    using q'(2,3) bq.bounded [OF bq_inv_valid [OF get_moves(3)]]
    by (simp add: bq_free_def del: length_bq_items)
  moreover have "no_lost_wakeup (Suc (bq_free (by_queue y))) p"
    using get_moves by (intro no_lost_release) (auto simp: bq_inv_def)
  ultimately show ?case
    using get_moves(3) bq.fifo_get [OF _ out(2,1)] q'(2) by (simp add: bq_inv_def del: length_bq_items)
next
  case (get_faults y t m f q')
  then have "get_outcome (by_queue y) (BqFault, q')" by (intro get_call_outcome bq_inv_valid)
  then show ?case by (simp add: get_outcome_def)
next
  case (put_spurious t y)
  then show ?case by (auto simp: bq_inv_def intro: no_lost_spurious)
next
  case (get_spurious t y)
  then show ?case by (auto simp: bq_inv_def intro: no_lost_spurious)
qed

lemma bq_steps_inv: "bq_step\<^sup>*\<^sup>* y y' \<Longrightarrow> bq_inv y \<Longrightarrow> bq_inv y'"
  by (induction rule: rtranclp_induct) (auto dest: bq_step_inv)


section \<open>Properties\<close>

definition bq_start :: "dtbufferqueue_t \<Rightarrow> bq_system" where
  "bq_start q = \<lparr>by_queue = q, by_getters = cv_empty, by_putters = cv_empty, by_mode = (\<lambda>_. WaitNot),
     by_flag = (\<lambda>_. False), by_arg = (\<lambda>_. 0), by_ins = [], by_outs = [], by_fault = False\<rparr>"

lemma storage_size_exact: "0 \<le> m \<Longrightarrow> m < 2 ^ 28 \<Longrightarrow> storage_size m = 8 * m"
  by (simp add: storage_size_def is_int32_def)

lemma bq_create_ok:
  assumes "dtbufferqueue_create env m ow = (None, Some q)" "0 \<le> m" "m < 2 ^ 28"
  shows "bq_valid q" "bq_items q = []" "bq_max_count q = (if m = 0 then 1 else m)"
  using assms storage_size_exact [of "if m = 0 then 1 else m"]
  by (auto simp: dtbufferqueue_create_def bq_valid_def bq_items_empty INT32_MAX_def Let_def split: if_splits)

lemma bq_start_inv: "bq_valid q \<Longrightarrow> bq_items q = [] \<Longrightarrow> bq_inv (bq_start q)"
  by (simp add: bq_inv_def bq.fifo_def bq_start_def del: length_bq_items)

lemma bq_reach_inv:
  assumes "dtbufferqueue_create env m ow = (None, Some q)" "0 \<le> m" "m < 2 ^ 28"
    and "bq_step\<^sup>*\<^sup>* (bq_start q) y"
  shows "bq_inv y"
  using bq_steps_inv [OF assms(4) bq_start_inv] bq_create_ok [OF assms(1-3)] by blast

text \<open>
  C15: the queue is first in, first out. After any interleaving of puts, gets, wakeups and
  deadlines of any threads on a queue of fewer than 2^28 places, what was put is what was got
  followed by the contents of the ring, in order: nothing is lost, duplicated or reordered. The
  contents never exceed the capacity and no access is outside the ring.
\<close>

theorem bq_fifo:
  assumes "dtbufferqueue_create env m ow = (None, Some q)" "0 \<le> m" "m < 2 ^ 28"
    and "bq_step\<^sup>*\<^sup>* (bq_start q) y"
  shows "by_ins y = by_outs y @ bq_items (by_queue y) \<and>
    length (bq_items (by_queue y)) \<le> nat (bq_max_count (by_queue y)) \<and> \<not> by_fault y"
  using bq_reach_inv [OF assms] bq.bounded [OF bq_inv_valid [OF bq_reach_inv [OF assms]]]
  by (simp add: bq_inv_def bq.fifo_def del: length_bq_items)

definition calm_bq_env :: bq_env where
  "calm_bq_env = \<lparr>be_alloc = None, be_alloc_ring = None, be_mutex_init = None, be_attr_init = None,
     be_setclock = None, be_not_empty_init = None, be_not_full_init = None\<rparr>"

definition example_queue :: "buffer option list \<Rightarrow> u32 \<Rightarrow> u32 \<Rightarrow> u32 \<Rightarrow> dtbufferqueue_t" where
  "example_queue r c h t = \<lparr>bq_max_count = 2, bq_should_overwrite = True, bq_ring = r,
     bq_count = c, bq_head = h, bq_tail = t\<rparr>"

lemma create_example_queue:
  "dtbufferqueue_create calm_bq_env 2 True = (None, Some (example_queue [None, None] 0 0 0))"
  by (simp add: dtbufferqueue_create_def calm_bq_env_def example_queue_def storage_size_exact
      numeral_2_eq_2)

lemma bq_sample_run:
  "bq_step\<^sup>*\<^sup>* (bq_start (example_queue [None, None] 0 0 0))
     ((bq_start (example_queue [None, None] 0 0 0))\<lparr>by_queue := example_queue [Some 5, None] 1 0 1, by_ins := [Some 5]\<rparr>)"
proof -
  let ?y = "bq_start (example_queue [None, None] 0 0 0)"
  have "put_call ?y 1 WaitNot True 5 (dtbufferqueue_put None WaitNot True (Some 5) (by_queue ?y))"
    by (rule put_start) (simp_all add: bq_start_def cv_empty_def cv_threads_def)
  moreover have "dtbufferqueue_put None WaitNot True (Some 5) (by_queue ?y) =
      (BqMoved (Some False) (Some 5), example_queue [Some 5, None] 1 0 1)"
    by (simp add: bq_start_def example_queue_def dtbufferqueue_put_def bq_full_def bq_cap_def bq_do_put_def
        bq_enqueue_def set_flag_def)
  moreover have "cv_signal (by_getters ?y) cv_empty"
    by (simp add: bq_start_def cv_signal_iff) (simp add: cv_empty_def)
  ultimately have "bq_step ?y (?y\<lparr>by_queue := example_queue [Some 5, None] 1 0 1,
      by_putters := cv_leave 1 (by_putters ?y), by_getters := cv_empty, by_ins := by_ins ?y @ [Some 5]\<rparr>)"
    by (intro put_moves) simp_all
  then show ?thesis by (simp add: bq_start_def cv_leave_def cv_empty_def)
qed

theorem bq_fifo_witness: "[Some (5::buffer)] = [] @ bq_items (example_queue [Some 5, None] 1 0 1)"
  using bq_fifo [OF create_example_queue _ _ bq_sample_run] by (simp add: bq_start_def)

text \<open>
  C16: no wakeup is lost. While a get sleeps, the buffers in the queue are covered by getters
  already woken; while a put sleeps, the free places are covered by woken putters.
\<close>

theorem bq_no_lost_wakeup:
  assumes "dtbufferqueue_create env m ow = (None, Some q)" "0 \<le> m" "m < 2 ^ 28"
    and "bq_step\<^sup>*\<^sup>* (bq_start q) y"
  shows "(cv_asleep (by_getters y) \<noteq> {} \<longrightarrow> length (bq_items (by_queue y)) \<le> card (cv_woken (by_getters y))) \<and>
    (cv_asleep (by_putters y) \<noteq> {} \<longrightarrow>
       nat (bq_max_count (by_queue y)) - length (bq_items (by_queue y)) \<le> card (cv_woken (by_putters y)))"
  using bq_reach_inv [OF assms] by (simp add: bq_inv_def no_lost_wakeup_def bq_free_def del: length_bq_items)

lemma bq_sleep_run:
  "bq_step\<^sup>*\<^sup>* (bq_start (example_queue [None, None] 0 0 0))
     ((bq_start (example_queue [None, None] 0 0 0))\<lparr>by_getters := \<lparr>cv_asleep = {3}, cv_woken = {}\<rparr>,
        by_mode := (\<lambda>_. WaitNot)(3 := WaitForever), by_flag := (\<lambda>_. False)(3 := True)\<rparr>)"
proof -
  let ?y = "bq_start (example_queue [None, None] 0 0 0)"
  have "get_call ?y 3 WaitForever True (dtbufferqueue_get None WaitForever True (by_queue ?y))"
    by (rule get_start) (simp_all add: bq_start_def cv_empty_def cv_threads_def)
  moreover have "dtbufferqueue_get None WaitForever True (by_queue ?y) = (BqAsleep, by_queue ?y)"
    by (simp add: bq_start_def example_queue_def dtbufferqueue_get_def)
  ultimately have "bq_step ?y (?y\<lparr>by_queue := by_queue ?y, by_getters := cv_sleep 3 (by_getters ?y),
       by_mode := (by_mode ?y)(3 := WaitForever), by_flag := (by_flag ?y)(3 := True)\<rparr>)"
    by (intro get_sleeps) simp
  then show ?thesis by (simp add: bq_start_def cv_sleep_def cv_empty_def)
qed

theorem bq_no_lost_wakeup_witness:
  "length (bq_items (example_queue [None, None] 0 0 0)) \<le> card ({} :: tid set)"
  using bq_no_lost_wakeup [OF create_example_queue _ _ bq_sleep_run] by (simp add: bq_start_def)

text \<open>
  The ring is smaller than the queue for a capacity of 2^28 or more. The byte count of its
  storage is cut to 32 bits, so the queue is not full when the allocated cells are used up, and the
  next put writes past the storage.
\<close>

theorem bq_ring_too_small:
  assumes "dtbufferqueue_create env m ow = (None, Some q)" "2 ^ 28 \<le> m" "m \<le> INT32_MAX"
    and "bq_max_count q' = bq_max_count q" "length (bq_ring q') = length (bq_ring q)"
    and "unat (bq_tail q') = length (bq_ring q)" "unat (bq_count q') = length (bq_ring q)"
  shows "length (bq_ring q) < nat m \<and> dtbufferqueue_put None WaitNot f (Some b) q' = (BqFault, q')"
proof -
  have "storage_size m < 2147483648"
    using is_int32_to_int32 [of "8 * m"] by (simp add: storage_size_def is_int32_def)
  then have "nat (storage_size m) div 8 < 2 ^ 28" by simp
  moreover have q: "bq_max_count q = m" "length (bq_ring q) = nat (storage_size m) div 8"
    using assms(1,2) by (auto simp: dtbufferqueue_create_def Let_def split: if_splits)
  ultimately have small: "length (bq_ring q) < nat m" using assms(2) by simp
  have "unat (bq_cap q') = nat m"
    using bq_cap_unat [of q'] assms(2,3,4) q(1) by simp
  then have "bq_count q' \<noteq> bq_cap q'" using small assms(7) by auto
  then show ?thesis
    using small assms(5,6) by (simp add: dtbufferqueue_put_def bq_full_def bq_do_put_def bq_enqueue_def)
qed

definition huge_queue :: dtbufferqueue_t where
  "huge_queue = \<lparr>bq_max_count = 2 ^ 29 + 1, bq_should_overwrite = False, bq_ring = [None],
     bq_count = 0, bq_head = 0, bq_tail = 0\<rparr>"

theorem bq_ring_too_small_witness:
  "dtbufferqueue_put None WaitNot True (Some 9) (huge_queue\<lparr>bq_ring := [Some 8], bq_count := 1, bq_tail := 1\<rparr>) =
     (BqFault, huge_queue\<lparr>bq_ring := [Some 8], bq_count := 1, bq_tail := 1\<rparr>)"
proof -
  have "dtbufferqueue_create calm_bq_env (2 ^ 29 + 1) False = (None, Some huge_queue)"
    by (simp add: dtbufferqueue_create_def calm_bq_env_def huge_queue_def storage_size_def to_int32_def)
  from bq_ring_too_small [OF this, of "huge_queue\<lparr>bq_ring := [Some 8], bq_count := 1, bq_tail := 1\<rparr>" True 9]
  show ?thesis by (simp add: INT32_MAX_def huge_queue_def)
qed

text \<open>
  \<open>should_overwrite\<close> has no effect. Whatever its value, a put does the same, and a put
  without waiting on a full queue leaves the buffer out and returns no error; only the timeout
  flag, when the caller passed one, tells.
\<close>

theorem bq_overwrite_ignored:
  "dtbufferqueue_put rc m f b (q\<lparr>bq_should_overwrite := v\<rparr>) =
     map_prod id (\<lambda>q. q\<lparr>bq_should_overwrite := v\<rparr>) (dtbufferqueue_put rc m f b q) \<and>
   (bq_full q \<longrightarrow> dtbufferqueue_put None WaitNot f (Some x) q = (BqReturned None (set_flag f True), q))"
  by (simp add: dtbufferqueue_put_def bq_full_def bq_cap_def bq_do_put_def bq_enqueue_def
      split: option.split wait_mode.split)

theorem bq_overwrite_ignored_witness:
  "dtbufferqueue_put None WaitNot False (Some 7) (example_queue [Some 5, Some 6] 2 0 0) =
     (BqReturned None None, example_queue [Some 5, Some 6] 2 0 0)"
proof -
  have "bq_full (example_queue [Some 5, Some 6] 2 0 0)"
    by (simp add: bq_full_def bq_cap_def example_queue_def)
  then show ?thesis
    using bq_overwrite_ignored [where q = "example_queue [Some 5, Some 6] 2 0 0" and f = False and x = 7]
    by (simp add: set_flag_def)
qed

end
