(* ===== verification/Nvblob.thy ===== *)
theory Nvblob
  imports Prelude
begin

text \<open>
  \<open>dtmc_linux_library/src/dtnvblob_linux_file.c\<close>: the blob that is kept in a file. The disk is a
  map from file names to contents; what the C library's calls answer is a record for each
  operation.
\<close>

section \<open>The object\<close>

type_synonym disk = "string \<rightharpoonup> byte list"

record dtnvblob_linux_file_t =
  nb_model_number :: int
  nb_filename :: "string option"
  nb_is_malloced :: bool

definition nvblob_zeroed :: dtnvblob_linux_file_t where
  "nvblob_zeroed = \<lparr>nb_model_number = 0, nb_filename = None, nb_is_malloced = False\<rparr>"

text \<open>\<open>vtable\<close> is the answer of \<open>dtnvblob_set_vtable\<close>.\<close>

definition nvblob_init :: "int \<Rightarrow> dterr \<Rightarrow> dterr \<times> dtnvblob_linux_file_t" where
  "nvblob_init model vtable = (vtable, nvblob_zeroed\<lparr>nb_model_number := model\<rparr>)"

definition nvblob_create :: "bool \<Rightarrow> int \<Rightarrow> dterr \<Rightarrow> dterr \<times> dtnvblob_linux_file_t option" where
  "nvblob_create malloc_ok model vtable =
     (if \<not> malloc_ok then (Some DTERR_NOMEM, None)
      else (case nvblob_init model vtable of
              (Some e, _) \<Rightarrow> (Some e, None)
            | (None, self) \<Rightarrow> (None, Some (self\<lparr>nb_is_malloced := True\<rparr>))))"

definition nvblob_configure :: "string option \<Rightarrow> dtnvblob_linux_file_t \<Rightarrow> dtnvblob_linux_file_t" where
  "nvblob_configure filename self = self\<lparr>nb_filename := filename\<rparr>"

definition nvblob_dispose :: "dtnvblob_linux_file_t option \<Rightarrow> dtnvblob_linux_file_t option" where
  "nvblob_dispose self =
     (case self of None \<Rightarrow> None | Some s \<Rightarrow> if nb_is_malloced s then None else Some nvblob_zeroed)"

section \<open>Read\<close>

text \<open>
  \<open>re_open\<close> is an error of \<open>fopen\<close> other than that the file does not exist; \<open>re_fread\<close> is how many
  bytes \<open>fread\<close> delivers at most, and whether \<open>ferror\<close> holds afterwards.
\<close>

record read_env =
  re_open :: "errno option"
  re_seek_end_ok :: bool
  re_ftell_ok :: bool
  re_seek_set_ok :: bool
  re_fread :: "nat \<times> bool"

text \<open>
  The error, the new value of \<open>*size\<close> and the bytes stored at \<open>blob\<close>. \<open>has_blob\<close>: \<open>blob\<close> is not
  NULL; \<open>psize\<close> is \<open>None\<close> for a NULL pointer.
\<close>

definition nvblob_read ::
  "read_env \<Rightarrow> disk \<Rightarrow> dtnvblob_linux_file_t \<Rightarrow> bool \<Rightarrow> int option \<Rightarrow> dterr \<times> int option \<times> byte list" where
  "nvblob_read env disk self has_blob psize =
     (case psize of
        None \<Rightarrow> (Some DTERR_ASSERT, None, [])
      | Some sz \<Rightarrow>
          (case nb_filename self of
             None \<Rightarrow> (Some DTERR_INTERNAL, psize, [])
           | Some name \<Rightarrow>
               if re_open env \<noteq> None
               then (if re_open env = Some ENOENT then Some DTERR_NOTFOUND else Some DTERR_IO, psize, [])
               else (case disk name of
                 None \<Rightarrow> (Some DTERR_NOTFOUND, psize, [])
               | Some file_bytes \<Rightarrow>
                   let file_len = (if re_ftell_ok env then int (length file_bytes) else -1) in
                   if \<not> re_seek_end_ok env then (Some DTERR_IO, psize, [])
                   else if file_len < 0 then (Some DTERR_IO, psize, [])
                   else if INT32_MAX < file_len then (Some DTERR_IO, psize, [])
                   else if \<not> re_seek_set_ok env then (Some DTERR_IO, psize, [])
                   else if \<not> has_blob then (None, Some file_len, [])
                   else
                     let capacity = (if sz < 0 then 0 else sz);
                         to_read = (if capacity < file_len then capacity else file_len);
                         nread = (if 0 < to_read then min (nat to_read) (fst (re_fread env)) else 0) in
                     if 0 < to_read \<and> int nread < to_read \<and> snd (re_fread env)
                     then (Some DTERR_IO, psize, take nread file_bytes)
                     else (None, Some (int nread), take nread file_bytes))))"

section \<open>Write\<close>

text \<open>
  \<open>we_fwrite\<close> is how many bytes \<open>fwrite\<close> takes at most; \<open>we_stored\<close> how many of the bytes
  taken are in the file after an incomplete \<open>fwrite\<close> or a failed \<open>fflush\<close>.
\<close>

record write_env =
  we_open :: "errno option"
  we_fwrite :: nat
  we_fflush_ok :: bool
  we_stored :: nat

definition nvblob_write ::
  "write_env \<Rightarrow> disk \<Rightarrow> dtnvblob_linux_file_t \<Rightarrow> byte list option \<Rightarrow> int option \<Rightarrow> dterr \<times> int option \<times> disk" where
  "nvblob_write env disk self blob psize =
     (case blob of
        None \<Rightarrow> (Some DTERR_ASSERT, psize, disk)
      | Some b \<Rightarrow>
        (case psize of
           None \<Rightarrow> (Some DTERR_ASSERT, None, disk)
         | Some sz \<Rightarrow>
           (case nb_filename self of
              None \<Rightarrow> (Some DTERR_INTERNAL, psize, disk)
            | Some name \<Rightarrow>
                if we_open env \<noteq> None then (Some DTERR_IO, psize, disk)
                else
                  let to_write = (if sz < 0 then 0 else sz);
                      nwritten = (if 0 < to_write then min (nat to_write) (we_fwrite env) else 0);
                      partial = disk(name \<mapsto> take (min (we_stored env) nwritten) b) in
                  if 0 < to_write \<and> int nwritten < to_write then (Some DTERR_IO, psize, partial)
                  else if \<not> we_fflush_ok env then (Some DTERR_IO, psize, partial)
                  else (None, Some (int nwritten), disk(name \<mapsto> take nwritten b)))))"

section \<open>Properties\<close>

text \<open>A library whose calls do not fail.\<close>

definition calm_read :: "read_env \<Rightarrow> nat \<Rightarrow> bool" where
  "calm_read env n \<longleftrightarrow> re_open env = None \<and> re_seek_end_ok env \<and> re_ftell_ok env \<and> re_seek_set_ok env \<and>
     n \<le> fst (re_fread env)"

lemma nvblob_write_ok:
  assumes "nvblob_write wenv disk self (Some b) (Some n) = (None, r, disk')"
  shows "\<exists>name. nb_filename self = Some name \<and> r = Some (max 0 n) \<and> disk' = disk(name \<mapsto> take (nat n) b)"
  using assms by (auto simp: nvblob_write_def Let_def split: option.splits if_splits)

lemma nvblob_read_calm:
  assumes "nb_filename self = Some name" "disk name = Some data" "calm_read env (length data)"
    and "int (length data) \<le> INT32_MAX"
  shows "nvblob_read env disk self True (Some cap) =
      (None, Some (min (max 0 cap) (int (length data))), take (nat cap) data)"
    and "nvblob_read env disk self False (Some cap) = (None, Some (int (length data)), [])"
  using assms by (auto simp: nvblob_read_def calm_read_def Let_def min_def)

text \<open>
  C21: what was written is what is read. After a write of \<open>n\<close> bytes reports success, a size
  query gives \<open>n\<close>, and a read into a buffer of \<open>cap\<close> bytes gives the first \<open>min n cap\<close> bytes
  of the blob; no other file changed.
\<close>

theorem nvblob_roundtrip:
  assumes "nvblob_write wenv disk self (Some b) (Some (int (length b))) = (None, r, disk')"
    and "calm_read env (length b)" "int (length b) \<le> INT32_MAX"
  shows "nvblob_read env disk' self False (Some cap) = (None, Some (int (length b)), []) \<and>
    nvblob_read env disk' self True (Some cap) =
      (None, Some (min (max 0 cap) (int (length b))), take (nat cap) b) \<and>
    (\<forall>other. Some other \<noteq> nb_filename self \<longrightarrow> disk' other = disk other)"
proof -
  obtain name where name: "nb_filename self = Some name" and disk': "disk' = disk(name \<mapsto> b)"
    using nvblob_write_ok [OF assms(1)] by auto
  then have "disk' name = Some b" by simp
  from nvblob_read_calm [where disk = disk', OF name this assms(2,3)] name disk' show ?thesis by auto
qed

definition example_blob :: dtnvblob_linux_file_t where
  "example_blob = \<lparr>nb_model_number = 1, nb_filename = Some ''f'', nb_is_malloced = True\<rparr>"

definition calm_renv :: read_env where
  "calm_renv = \<lparr>re_open = None, re_seek_end_ok = True, re_ftell_ok = True, re_seek_set_ok = True, re_fread = (100, False)\<rparr>"

definition calm_wenv :: write_env where
  "calm_wenv = \<lparr>we_open = None, we_fwrite = 100, we_fflush_ok = True, we_stored = 0\<rparr>"

theorem nvblob_roundtrip_witness:
  "nvblob_read calm_renv [''f'' \<mapsto> [1, 2, 3]] example_blob True (Some 2) = (None, Some 2, [1, 2])"
proof -
  have "nvblob_write calm_wenv Map.empty example_blob (Some [1, 2, 3]) (Some (int (length [1::byte, 2, 3]))) =
    (None, Some 3, [''f'' \<mapsto> [1, 2, 3]])"
    by (simp add: nvblob_write_def calm_wenv_def example_blob_def Let_def)
  from nvblob_roundtrip [OF this, of calm_renv 2] show ?thesis
    by (simp add: calm_read_def calm_renv_def INT32_MAX_def)
qed

text \<open>
  A read never overruns the caller's buffer and reports what it stored. Whatever the file
  and the library do, at most \<open>max 0 cap\<close> bytes are stored, they are the front of the file, and on
  success \<open>*size\<close> is their number; on failure \<open>*size\<close> keeps its value.
\<close>

theorem nvblob_read_bounded:
  assumes "nvblob_read env disk self True (Some cap) = (e, r, out)"
  shows "int (length out) \<le> max 0 cap \<and>
    (out \<noteq> [] \<longrightarrow> (\<exists>name data. nb_filename self = Some name \<and> disk name = Some data \<and> out = take (length out) data)) \<and>
    (if e = None then r = Some (int (length out)) else r = Some cap)"
  using assms
  by (auto simp: nvblob_read_def Let_def min_def max_def split: option.splits if_splits)

theorem nvblob_read_bounded_witness:
  "int (length [1 :: byte, 2]) \<le> max 0 2"
proof -
  have "nvblob_read calm_renv [''f'' \<mapsto> [1, 2, 3]] example_blob True (Some 2) = (None, Some 2, [1, 2])"
    by (simp add: nvblob_read_def calm_renv_def example_blob_def INT32_MAX_def)
  from nvblob_read_bounded [OF this] show ?thesis by simp
qed

text \<open>
  A write is not atomic. When it fails after the file was opened, the previous blob is
  gone: the file holds a front part of the new one, possibly nothing, and the error is IO; any
  earlier failure leaves the disk as it was.
\<close>

theorem nvblob_failed_write:
  assumes "nvblob_write env disk self (Some b) (Some n) = (Some e, r, disk')"
  shows "r = Some n \<and>
    (if nb_filename self = None \<or> we_open env \<noteq> None then disk' = disk
     else e = DTERR_IO \<and> (\<exists>k\<le>nat n. disk' = disk(the (nb_filename self) \<mapsto> take k b)))"
proof (cases "nb_filename self = None \<or> we_open env \<noteq> None")
  case True
  with assms show ?thesis by (auto simp: nvblob_write_def split: option.splits)
next
  case False
  then obtain name where name: "nb_filename self = Some name" "we_open env = None" by auto
  define k where "k = min (we_stored env) (if 0 < n then min (nat n) (we_fwrite env) else 0)"
  have "disk' = disk(name \<mapsto> take k b)" "e = DTERR_IO" "r = Some n"
    using assms name by (auto simp: nvblob_write_def Let_def k_def split: if_splits)
  moreover have "k \<le> nat n" by (auto simp: k_def)
  ultimately show ?thesis using name by auto
qed

theorem nvblob_failed_write_witness:
  "(if nb_filename example_blob = None \<or> we_open (calm_wenv\<lparr>we_fwrite := 0\<rparr>) \<noteq> None
      then [''f'' \<mapsto> []] = [''f'' \<mapsto> [9 :: byte]]
      else DTERR_IO = DTERR_IO \<and>
        (\<exists>k\<le>nat 3. [''f'' \<mapsto> []] = [''f'' \<mapsto> [9]](the (nb_filename example_blob) \<mapsto> take k [1, 2, 3 :: byte])))"
proof -
  have "nvblob_write (calm_wenv\<lparr>we_fwrite := 0\<rparr>) [''f'' \<mapsto> [9]] example_blob (Some [1, 2, 3]) (Some 3) =
    (Some DTERR_IO, Some 3, [''f'' \<mapsto> []])"
    by (simp add: nvblob_write_def calm_wenv_def example_blob_def)
  from nvblob_failed_write [OF this] show ?thesis by blast
qed

end
