(* ===== verification/Clock.thy ===== *)
theory Clock
  imports Prelude
begin

text \<open>
  The clocks and sleeps of \<open>dtmc_linux_library/src/dtruntime_linux.c\<close> and
  \<open>dtmc_linux_library/src/dtcpu_linux.c\<close>. A \<open>timespec\<close> is a pair of seconds and nanoseconds; the
  counters are unsigned 64-bit words and wrap.
\<close>

section \<open>Reading the clock\<close>

text \<open>
  The check of the clock that the first reader makes; the flag is set once. \<open>getres_ok\<close>:
  \<open>clock_getres\<close> succeeds.
\<close>

definition init_microseconds :: "bool \<Rightarrow> bool \<Rightarrow> dterr \<times> bool" where
  "init_microseconds getres_ok initialized =
     (if initialized then (None, True) else if \<not> getres_ok then (Some DTERR_FAIL, False) else (None, True))"

definition now_milliseconds :: "int \<times> int \<Rightarrow> u64" where
  "now_milliseconds ts = word_of_int (fst ts) * 1000 + word_of_int (snd ts div 1000000)"

record dtcpu_t =
  cpu_old :: u64
  cpu_new :: u64

definition mark_time :: "int \<times> int \<Rightarrow> u64" where
  "mark_time ts = word_of_int (fst ts) * 1000000 + word_of_int (snd ts div 1000)"

definition dtcpu_mark :: "int \<times> int \<Rightarrow> dtcpu_t \<Rightarrow> dtcpu_t" where
  "dtcpu_mark ts m = m\<lparr>cpu_old := cpu_new m, cpu_new := mark_time ts\<rparr>"

definition dtcpu_elapsed_microseconds :: "dtcpu_t \<Rightarrow> u64" where
  "dtcpu_elapsed_microseconds m = cpu_new m - cpu_old m"

section \<open>Sleeping\<close>

text \<open>
  What a \<open>nanosleep\<close> answers: it slept the whole request, a signal interrupted it with the given
  time remaining, or it failed.
\<close>

datatype nanosleep_answer = SleptAll | Interrupted "int \<times> int" | SleepFailed

definition spec_ns :: "int \<times> int \<Rightarrow> int" where
  "spec_ns ts = fst ts * 1000000000 + snd ts"

text \<open>The retry loop; the result is the time slept. \<open>None\<close>: still asleep.\<close>

fun nanosleep_loop :: "int \<times> int \<Rightarrow> nanosleep_answer list \<Rightarrow> int option" where
  "nanosleep_loop req [] = None"
| "nanosleep_loop req (SleptAll # as) = Some (spec_ns req)"
| "nanosleep_loop req (Interrupted rem # as) =
     map_option (\<lambda>t. (spec_ns req - spec_ns rem) + t) (nanosleep_loop rem as)"
| "nanosleep_loop req (SleepFailed # as) = Some 0"

definition sleep_request_ms :: "int \<Rightarrow> int \<times> int" where
  "sleep_request_ms milliseconds = (milliseconds div 1000, (milliseconds mod 1000) * 1000000)"

text \<open>\<open>dtruntime_sleep_milliseconds\<close>: zero or less only yields.\<close>

definition sleep_milliseconds :: "int \<Rightarrow> nanosleep_answer list \<Rightarrow> int option" where
  "sleep_milliseconds milliseconds as =
     (if milliseconds \<le> 0 then Some 0 else nanosleep_loop (sleep_request_ms milliseconds) as)"

definition busywait_request :: "u64 \<Rightarrow> int \<times> int" where
  "busywait_request us = (uint (us div 1000000), uint ((us mod 1000000) * 1000))"

definition busywait_microseconds :: "u64 \<Rightarrow> nanosleep_answer list \<Rightarrow> int option" where
  "busywait_microseconds us as = nanosleep_loop (busywait_request us) as"

text \<open>
  \<open>dtcpu_random_int32\<close>: \<open>rc\<close> is what \<open>getrandom\<close> returned, with the value it stored; the
  fallback is the C library's \<open>rand\<close>.
\<close>

definition random_int32 :: "int \<times> int \<Rightarrow> int \<Rightarrow> int" where
  "random_int32 got fallback = (if fst got \<noteq> 4 then to_int32 fallback else snd got)"

section \<open>Properties\<close>

lemma nanosleep_total:
  "SleepFailed \<notin> set as \<Longrightarrow> nanosleep_loop req as = Some t \<Longrightarrow> t = spec_ns req"
  by (induction req as arbitrary: t rule: nanosleep_loop.induct) auto

lemma nanosleep_returns: "SleptAll \<in> set as \<Longrightarrow> nanosleep_loop req as \<noteq> None"
  by (induction req as rule: nanosleep_loop.induct) auto

lemma split_units: "x div m * (m * k) + x mod m * k = x * (k :: int)"
  by (metis div_mult_mod_eq distrib_right mult.assoc)

lemma busywait_request_ns:
  "spec_ns (busywait_request us) = uint us * 1000 \<and> 0 \<le> snd (busywait_request us) \<and>
   snd (busywait_request us) < 1000000000"
proof -
  have m: "uint (us mod 1000000) = uint us mod 1000000" by (simp add: uint_mod)
  have "uint ((us mod 1000000) * 1000) = (uint us mod 1000000) * 1000 mod 2 ^ 64"
    by (simp add: uint_word_ariths m)
  moreover have "(uint us mod 1000000) * 1000 mod 2 ^ 64 = (uint us mod 1000000) * 1000"
  proof (rule mod_pos_pos_trivial)
    have "uint us mod 1000000 < 1000000" by simp
    then show "(uint us mod 1000000) * 1000 < 2 ^ 64" by simp
  qed simp
  ultimately have n: "uint ((us mod 1000000) * 1000) = (uint us mod 1000000) * 1000" by simp
  have "uint us mod 1000000 < 1000000" by simp
  moreover have "uint us div 1000000 * 1000000000 + uint us mod 1000000 * 1000 = uint us * 1000"
    using split_units [of "uint us" 1000000 1000] by simp
  ultimately show ?thesis by (simp add: busywait_request_def spec_ns_def n uint_div)
qed

text \<open>
  A sleep lasts as long as asked however often signals interrupt it. The request is a
  valid \<open>timespec\<close>, and once \<open>nanosleep\<close> completes without failing the time slept is exactly
  the number of microseconds, respectively milliseconds.
\<close>

theorem sleep_exact:
  assumes "SleepFailed \<notin> set as" "SleptAll \<in> set as"
  shows "busywait_microseconds us as = Some (uint us * 1000) \<and>
    (0 < ms \<longrightarrow> sleep_milliseconds ms as = Some (ms * 1000000)) \<and>
    0 \<le> snd (busywait_request us) \<and> snd (busywait_request us) < 1000000000 \<and>
    0 \<le> snd (sleep_request_ms ms) \<and> snd (sleep_request_ms ms) < 1000000000"
proof -
  have run: "nanosleep_loop req as = Some (spec_ns req)" for req
    using nanosleep_total [OF assms(1), of req] nanosleep_returns [OF assms(2), of req] by auto
  have "spec_ns (sleep_request_ms ms) = ms * 1000000"
    unfolding sleep_request_ms_def spec_ns_def
    using split_units [of ms 1000 1000000] by simp
  moreover have "0 \<le> ms mod 1000" "ms mod 1000 < 1000" by simp_all
  then have "0 \<le> snd (sleep_request_ms ms)" "snd (sleep_request_ms ms) < 1000000000"
    by (simp_all add: sleep_request_ms_def)
  ultimately show ?thesis
    using busywait_request_ns [of us] run
    by (simp add: busywait_microseconds_def sleep_milliseconds_def)
qed

theorem sleep_exact_witness:
  "busywait_microseconds 1500000 [Interrupted (1, 200000000), Interrupted (0, 7), SleptAll] =
     Some (uint (1500000 :: u64) * 1000)"
  using sleep_exact [of "[Interrupted (1, 200000000), Interrupted (0, 7), SleptAll]" 1500000] by simp

text \<open>
  The elapsed time is right across a wrap of the counter. Marking twice, at times \<open>t1\<close> and
  then \<open>t2\<close> (in microseconds since an arbitrary epoch) less than 2^64 apart, gives their difference.
\<close>

theorem elapsed_exact:
  assumes "fst a * 1000000 + snd a div 1000 = t1" "fst b * 1000000 + snd b div 1000 = t2"
    and "t1 \<le> t2" "t2 - t1 < 2 ^ 64"
  shows "uint (dtcpu_elapsed_microseconds (dtcpu_mark b (dtcpu_mark a m))) = t2 - t1"
proof -
  have mark: "mark_time ts = word_of_int (fst ts * 1000000 + snd ts div 1000)" for ts
    by (simp add: mark_time_def)
  have "dtcpu_elapsed_microseconds (dtcpu_mark b (dtcpu_mark a m)) = word_of_int (t2 - t1)"
    using assms(1,2) by (simp add: dtcpu_elapsed_microseconds_def dtcpu_mark_def mark flip: wi_hom_sub)
  then show ?thesis using assms(3,4) by (simp only: uint_word_of_int) simp
qed

theorem elapsed_exact_witness:
  "uint (dtcpu_elapsed_microseconds (dtcpu_mark (18446744073709, 552000000)
     (dtcpu_mark (18446744073709, 551000000) \<lparr>cpu_old = 0, cpu_new = 0\<rparr>))) = 1000"
  using elapsed_exact [of "(18446744073709, 551000000)" 18446744073709551000
      "(18446744073709, 552000000)" 18446744073709552000]
  by simp

end
