(* ===== verification/Tasker.thy ===== *)
theory Tasker
  imports Semaphore
begin

text \<open>
  \<open>dtmc_linux_library/src/dttasker_linux.c\<close>: a task over a pthread. The operations between two
  blocking calls are definitions on the task's record; a starter, the task's own thread and a
  joiner are a step relation over them. The calls on the state lock succeed: no operation makes
  them with the lock held, and the lock then never fails (theory Lock).
\<close>

section \<open>Priorities\<close>

datatype dttasker_priority_t =
    PRIORITY__START | PRIORITY_DEFAULT_FOR_SITUATION
  | PRIORITY_BACKGROUND_LOWEST | PRIORITY_BACKGROUND_LOW | PRIORITY_BACKGROUND_MEDIUM
  | PRIORITY_BACKGROUND_HIGH | PRIORITY_BACKGROUND_HIGHEST
  | PRIORITY_NORMAL_LOWEST | PRIORITY_NORMAL_LOW | PRIORITY_NORMAL_MEDIUM
  | PRIORITY_NORMAL_HIGH | PRIORITY_NORMAL_HIGHEST
  | PRIORITY_URGENT_LOWEST | PRIORITY_URGENT_LOW | PRIORITY_URGENT_MEDIUM
  | PRIORITY_URGENT_HIGH | PRIORITY_URGENT_HIGHEST | PRIORITY__COUNT

fun priority_to_native :: "dttasker_priority_t \<Rightarrow> errcode + int" where
  "priority_to_native PRIORITY_DEFAULT_FOR_SITUATION = Inr 8"
| "priority_to_native PRIORITY_BACKGROUND_LOWEST = Inr 14"
| "priority_to_native PRIORITY_BACKGROUND_LOW = Inr 13"
| "priority_to_native PRIORITY_BACKGROUND_MEDIUM = Inr 12"
| "priority_to_native PRIORITY_BACKGROUND_HIGH = Inr 11"
| "priority_to_native PRIORITY_BACKGROUND_HIGHEST = Inr 10"
| "priority_to_native PRIORITY_NORMAL_LOWEST = Inr 9"
| "priority_to_native PRIORITY_NORMAL_LOW = Inr 8"
| "priority_to_native PRIORITY_NORMAL_MEDIUM = Inr 7"
| "priority_to_native PRIORITY_NORMAL_HIGH = Inr 6"
| "priority_to_native PRIORITY_NORMAL_HIGHEST = Inr 5"
| "priority_to_native PRIORITY_URGENT_LOWEST = Inr 4"
| "priority_to_native PRIORITY_URGENT_LOW = Inr 3"
| "priority_to_native PRIORITY_URGENT_MEDIUM = Inr 2"
| "priority_to_native PRIORITY_URGENT_HIGH = Inr 1"
| "priority_to_native PRIORITY_URGENT_HIGHEST = Inr 0"
| "priority_to_native PRIORITY__START = Inl DTERR_BADARG"
| "priority_to_native PRIORITY__COUNT = Inl DTERR_BADARG"

section \<open>The task\<close>

datatype task_status = TASK_UNSET | TASK_INITIALIZED | TASK_RUNNING | TASK_STOPPED

record dttasker_t =
  tk_name :: string
  tk_priority :: dttasker_priority_t
  tk_stack_size :: int
  tk_ready_semaphore :: dtsemaphore_linux_t
  tk_ready_posted :: bool
  tk_status :: task_status
  tk_info_error :: dterr
  tk_thread_created :: bool
  tk_stop_requested :: bool
  tk_thread_exited :: bool
  tk_thread_joined :: bool

text \<open>\<open>dttasker_set_info\<close>; \<open>cb\<close> is what the configured callback returns, \<open>None\<close> without one.\<close>

definition dttasker_set_info :: "dterr \<Rightarrow> task_status \<Rightarrow> dterr \<Rightarrow> dttasker_t \<Rightarrow> dterr \<times> dttasker_t" where
  "dttasker_set_info cb status err self = (cb, self\<lparr>tk_status := status, tk_info_error := err\<rparr>)"

definition dttasker_get_info :: "dttasker_t \<Rightarrow> string \<times> task_status \<times> dterr" where
  "dttasker_get_info self = (tk_name self, tk_status self, tk_info_error self)"

definition post_ready_once :: "dttasker_t \<Rightarrow> dterr \<times> dttasker_t" where
  "post_ready_once self =
     (if tk_ready_posted self then (None, self)
      else (case dtsemaphore_post None (tk_ready_semaphore self) of
              (e, sem, _) \<Rightarrow> (e, self\<lparr>tk_ready_posted := True, tk_ready_semaphore := sem\<rparr>)))"

text \<open>What the calls of \<open>dttasker_create\<close> answer, in their order.\<close>

record create_env =
  te_validate :: dterr
  te_alloc :: dterr
  te_stack_min :: int
  te_set_vtable :: dterr
  te_lock_create :: dterr
  te_sem :: sem_env
  te_callback :: dterr
  te_registry_init :: dterr
  te_registry_insert :: dterr

definition dttasker_create ::
  "create_env \<Rightarrow> string \<Rightarrow> dttasker_priority_t \<Rightarrow> int \<Rightarrow> dterr \<times> dttasker_t option" where
  "dttasker_create env name priority stack_size =
     (if te_validate env \<noteq> None then (te_validate env, None)
      else if te_alloc env \<noteq> None then (te_alloc env, None)
      else if te_set_vtable env \<noteq> None then (te_set_vtable env, None)
      else if te_lock_create env \<noteq> None then (te_lock_create env, None)
      else (case dtsemaphore_create (te_sem env) 0 0 of
              (e, None) \<Rightarrow> (e, None)
            | (_, Some sem) \<Rightarrow>
                let self = \<lparr>tk_name = take 31 name, tk_priority = priority,
                      tk_stack_size = (if stack_size \<noteq> 0 \<and> stack_size < te_stack_min env
                                       then te_stack_min env else stack_size),
                      tk_ready_semaphore = sem, tk_ready_posted = False,
                      tk_status = TASK_UNSET, tk_info_error = None,
                      tk_thread_created = False, tk_stop_requested = False,
                      tk_thread_exited = False, tk_thread_joined = False\<rparr> in
                (case dttasker_set_info (te_callback env) TASK_INITIALIZED None self of
                   (Some e, _) \<Rightarrow> (Some e, None)
                 | (None, self') \<Rightarrow>
                     if te_registry_init env \<noteq> None then (te_registry_init env, None)
                     else if te_registry_insert env \<noteq> None then (te_registry_insert env, None)
                     else (None, Some self'))))"

section \<open>Start, ready, stop\<close>

text \<open>The errors of the pthread calls of \<open>dttasker_start\<close>.\<close>

record start_env =
  st_attr_init :: dterr
  st_setstacksize :: dterr
  st_pthread_create :: dterr

text \<open>\<open>dttasker_start\<close> up to its wait on the ready semaphore.\<close>

definition start_begin :: "start_env \<Rightarrow> dttasker_t \<Rightarrow> dterr \<times> dttasker_t" where
  "start_begin env self =
     (if tk_thread_created self \<and> \<not> tk_thread_exited self then (Some DTERR_STATE, self)
      else if st_attr_init env \<noteq> None then (st_attr_init env, self)
      else if tk_stack_size self \<noteq> 0 \<and> st_setstacksize env \<noteq> None then (st_setstacksize env, self)
      else (case priority_to_native (tk_priority self) of
              Inl e \<Rightarrow> (Some e, self)
            | Inr _ \<Rightarrow>
                let self' = self\<lparr>tk_stop_requested := False, tk_thread_exited := False,
                      tk_thread_joined := False, tk_ready_posted := False\<rparr> in
                if st_pthread_create env \<noteq> None then (st_pthread_create env, self')
                else (None, self'\<lparr>tk_thread_created := True\<rparr>)))"

text \<open>Its wait, as one test of the semaphore: \<open>Asleep\<close> while it blocks.\<close>

definition start_wait :: "dttasker_t \<Rightarrow> wait_result \<times> dttasker_t" where
  "start_wait self =
     (case dtsemaphore_wait None WaitForever False (tk_ready_semaphore self) of
        (r, sem) \<Rightarrow> (r, self\<lparr>tk_ready_semaphore := sem\<rparr>))"

definition dttasker_ready :: "dterr \<Rightarrow> dttasker_t \<Rightarrow> dterr \<times> dttasker_t" where
  "dttasker_ready cb self =
     (case dttasker_set_info cb TASK_RUNNING None self of
        (Some e, self') \<Rightarrow> (Some e, self')
      | (None, self') \<Rightarrow> post_ready_once self')"

text \<open>
  The rest of \<open>dttasker__thread_inception_function\<close> after the entry point returned \<open>err\<close>:
  \<open>dterr_append\<close> keeps the first error.
\<close>

definition thread_epilogue :: "dterr \<Rightarrow> dterr \<Rightarrow> dttasker_t \<Rightarrow> dttasker_t" where
  "thread_epilogue err cb self =
     (case dttasker_set_info cb TASK_STOPPED err self of
        (e, self1) \<Rightarrow>
          let d = (if err \<noteq> None then err else e);
              self2 = (if d \<noteq> None then snd (post_ready_once self1) else self1)
          in self2\<lparr>tk_thread_exited := True\<rparr>)"

definition dttasker_stop :: "dttasker_t \<Rightarrow> dttasker_t" where
  "dttasker_stop self = self\<lparr>tk_stop_requested := True\<rparr>"

definition dttasker_poll :: "dttasker_t \<Rightarrow> bool" where
  "dttasker_poll self = tk_stop_requested self"

definition dttasker_set_priority :: "dterr \<Rightarrow> dttasker_priority_t \<Rightarrow> dttasker_t option \<Rightarrow> dterr \<times> dttasker_t option" where
  "dttasker_set_priority validate priority self =
     (if validate \<noteq> None then (validate, self)
      else (case priority_to_native priority of
              Inl e \<Rightarrow> (Some e, self)
            | Inr _ \<Rightarrow> (None, map_option (\<lambda>s. s\<lparr>tk_priority := priority\<rparr>) self)))"

section \<open>Join\<close>

text \<open>
  The polling loop: each round sees whether the thread has exited and reads the clock. A timeout
  of \<open>None\<close> is forever; the result says whether it timed out, \<open>None\<close> while it still waits.
\<close>

fun join_wait :: "int option \<Rightarrow> int \<Rightarrow> (bool \<times> int) list \<Rightarrow> bool option" where
  "join_wait timeout start [] = None"
| "join_wait timeout start ((exited, now) # rounds) =
     (if exited then Some False
      else (case timeout of
              None \<Rightarrow> join_wait timeout start rounds
            | Some ms \<Rightarrow> if ms \<le> now - start then Some True else join_wait timeout start rounds))"

text \<open>
  \<open>dttasker_join\<close>: the error, \<open>*was_timeout\<close>, the task, and whether \<open>pthread_join\<close> was called
  (\<open>pj\<close> is its error).
\<close>

definition dttasker_join ::
  "dterr \<Rightarrow> int option \<Rightarrow> bool \<Rightarrow> int \<Rightarrow> (bool \<times> int) list \<Rightarrow> dttasker_t \<Rightarrow>
     (dterr \<times> bool option \<times> dttasker_t \<times> bool) option" where
  "dttasker_join pj timeout has_flag start rounds self =
     (if \<not> tk_thread_created self \<or> tk_thread_joined self
      then Some (None, set_flag has_flag False, self, False)
      else (case join_wait timeout start rounds of
              None \<Rightarrow> None
            | Some True \<Rightarrow>
                Some (if has_flag then None else Some DTERR_TIMEOUT, set_flag has_flag True, self, False)
            | Some False \<Rightarrow>
                if pj \<noteq> None then Some (pj, set_flag has_flag False, self, True)
                else Some (None, set_flag has_flag False,
                       self\<lparr>tk_thread_joined := True, tk_thread_created := False\<rparr>, True)))"

section \<open>The starter, the thread and the joiner\<close>

datatype thread_phase = NoThread | InEntry | Exited

record task_system =
  ts_task :: dttasker_t
  ts_waiting :: bool
  ts_thread :: thread_phase

text \<open>
  One thread starts, stops and joins the task; the task's own thread runs its entry point, which may
  call ready and stop at any time, and ends.
\<close>

inductive task_step :: "task_system \<Rightarrow> task_system \<Rightarrow> bool" where
  start: "\<not> ts_waiting y \<Longrightarrow> start_begin env (ts_task y) = (None, k) \<Longrightarrow>
     task_step y (y\<lparr>ts_task := k, ts_waiting := True, ts_thread := InEntry\<rparr>)"
| start_fails: "\<not> ts_waiting y \<Longrightarrow> start_begin env (ts_task y) = (Some e, k) \<Longrightarrow>
     task_step y (y\<lparr>ts_task := k\<rparr>)"
| started: "ts_waiting y \<Longrightarrow> start_wait (ts_task y) = (Returned e f, k) \<Longrightarrow>
     task_step y (y\<lparr>ts_task := k, ts_waiting := False\<rparr>)"
| ready: "ts_thread y = InEntry \<Longrightarrow> dttasker_ready cb (ts_task y) = (e, k) \<Longrightarrow>
     task_step y (y\<lparr>ts_task := k\<rparr>)"
| exits: "ts_thread y = InEntry \<Longrightarrow> thread_epilogue err cb (ts_task y) = k \<Longrightarrow>
     task_step y (y\<lparr>ts_task := k, ts_thread := Exited\<rparr>)"
| stop: "task_step y (y\<lparr>ts_task := dttasker_stop (ts_task y)\<rparr>)"
| join: "\<not> ts_waiting y \<Longrightarrow> (\<And>r. r \<in> fst ` set rounds \<Longrightarrow> r \<longrightarrow> tk_thread_exited (ts_task y)) \<Longrightarrow>
     dttasker_join pj timeout f s rounds (ts_task y) = Some (e, w, k, pjoined) \<Longrightarrow>
     task_step y (y\<lparr>ts_task := k\<rparr>)"

definition task_inv :: "task_system \<Rightarrow> bool" where
  "task_inv y \<longleftrightarrow>
     (let k = ts_task y in
      sem_max_count (tk_ready_semaphore k) \<noteq> 0 \<and>
      sem_count (tk_ready_semaphore k) = (if ts_waiting y \<and> tk_ready_posted k then 1 else 0) \<and>
      (ts_thread y = InEntry \<longrightarrow> tk_thread_created k \<and> \<not> tk_thread_exited k) \<and>
      (ts_waiting y \<longrightarrow> ts_thread y \<noteq> NoThread) \<and>
      (ts_thread y = InEntry \<and> \<not> ts_waiting y \<longrightarrow> tk_ready_posted k))"

lemmas task_defs = start_begin_def start_wait_def dttasker_ready_def thread_epilogue_def dttasker_stop_def
  dttasker_set_info_def post_ready_once_def dtsemaphore_post_def dtsemaphore_wait_def sem_test_def Let_def

lemma join_task:
  "dttasker_join pj timeout f s rounds k = Some (e, w, k', j) \<Longrightarrow>
     k' = k \<or> (k' = k\<lparr>tk_thread_joined := True, tk_thread_created := False\<rparr> \<and>
       tk_thread_created k \<and> True \<in> fst ` set rounds)"
proof -
  have "join_wait timeout s rounds = Some False \<Longrightarrow> True \<in> fst ` set rounds"
    by (induction timeout s rounds rule: join_wait.induct) (auto split: if_splits option.splits)
  then show "dttasker_join pj timeout f s rounds k = Some (e, w, k', j) \<Longrightarrow> ?thesis"
    by (auto simp: dttasker_join_def split: if_splits option.splits bool.splits)
qed

lemma task_step_inv: "task_step y y' \<Longrightarrow> task_inv y \<Longrightarrow> task_inv y'"
proof (induction rule: task_step.induct)
  case (start y env k)
  then show ?case by (auto simp: task_inv_def task_defs split: if_splits sum.splits)
next
  case (start_fails y env e k)
  then show ?case
    by (cases "ts_thread y") (auto simp: task_inv_def task_defs split: if_splits sum.splits)
next
  case (started y e f k)
  then show ?case by (auto simp: task_inv_def task_defs split: if_splits)
next
  case (ready y cb e k)
  then show ?case
    by (auto simp: task_inv_def task_defs word_gt_0 split: if_splits option.splits)
next
  case (exits y err cb k)
  then show ?case
    by (auto simp: task_inv_def task_defs word_gt_0 split: if_splits)
next
  case (stop y)
  then show ?case by (simp add: task_inv_def task_defs)
next
  case (join y rounds pj timeout f s e w k pjoined)
  from join_task [OF join(3)] show ?case
  proof (elim disjE conjE)
    assume "k = ts_task y"
    with join show ?thesis by simp
  next
    assume k: "k = (ts_task y)\<lparr>tk_thread_joined := True, tk_thread_created := False\<rparr>"
      and "True \<in> fst ` set rounds"
    with join(2) have "tk_thread_exited (ts_task y)" by auto
    with k join(1,4) show ?thesis by (auto simp: task_inv_def Let_def)
  qed
qed

lemma task_steps_inv: "task_step\<^sup>*\<^sup>* y y' \<Longrightarrow> task_inv y \<Longrightarrow> task_inv y'"
  by (induction rule: rtranclp_induct) (auto dest: task_step_inv)


section \<open>Properties\<close>

definition task_start :: "dttasker_t \<Rightarrow> task_system" where
  "task_start k = \<lparr>ts_task = k, ts_waiting = False, ts_thread = NoThread\<rparr>"

lemma create_inv:
  assumes "dttasker_create env name p st = (None, Some k)"
  shows "task_inv (task_start k)"
  using assms
  by (auto simp: dttasker_create_def dtsemaphore_create_def dttasker_set_info_def task_inv_def task_start_def
      INT32_MAX_def Let_def split: if_splits option.splits prod.splits)

lemma task_reach_inv:
  "dttasker_create env name p st = (None, Some k) \<Longrightarrow> task_step\<^sup>*\<^sup>* (task_start k) y \<Longrightarrow> task_inv y"
  using task_steps_inv create_inv by blast

text \<open>
  C20: a start returns exactly when this run of the task has signalled. In every reachable
  state in which \<open>dttasker_start\<close> waits, its wait can return, and then without error, if and only
  if the ready signal of this run was posted; a signal of an earlier run is never left over. A call
  of \<open>dttasker_ready\<close> whose callback succeeds, and an entry point that ends with an error,
  post it.
\<close>

theorem tasker_start_returns_when_ready:
  assumes "dttasker_create env name p st = (None, Some k)" "task_step\<^sup>*\<^sup>* (task_start k) y" "ts_waiting y"
  shows "(fst (start_wait (ts_task y)) = Returned None None \<longleftrightarrow> tk_ready_posted (ts_task y)) \<and>
    (fst (start_wait (ts_task y)) = Asleep \<longleftrightarrow> \<not> tk_ready_posted (ts_task y)) \<and>
    fst (start_wait (snd (dttasker_ready None (ts_task y)))) = Returned None None \<and>
    fst (start_wait (thread_epilogue (Some e) cb (ts_task y))) = Returned None None"
proof -
  have inv: "task_inv y" using assms(1,2) by (rule task_reach_inv)
  then show ?thesis
    using assms(3) by (auto simp: task_inv_def task_defs set_flag_def word_gt_0)
qed

definition calm_create :: create_env where
  "calm_create = \<lparr>te_validate = None, te_alloc = None, te_stack_min = 16384, te_set_vtable = None,
     te_lock_create = None, te_sem = calm_sem_env, te_callback = None, te_registry_init = None,
     te_registry_insert = None\<rparr>"

definition example_task :: dttasker_t where
  "example_task = \<lparr>tk_name = ''t'', tk_priority = PRIORITY_NORMAL_MEDIUM, tk_stack_size = 0,
     tk_ready_semaphore = sem_of 0 2147483647, tk_ready_posted = False, tk_status = TASK_INITIALIZED,
     tk_info_error = None, tk_thread_created = False, tk_stop_requested = False, tk_thread_exited = False,
     tk_thread_joined = False\<rparr>"

lemma create_example_task:
  "dttasker_create calm_create ''t'' PRIORITY_NORMAL_MEDIUM 0 = (None, Some example_task)"
  by (simp add: dttasker_create_def calm_create_def calm_sem_env_def dtsemaphore_create_def example_task_def
      sem_of_def dttasker_set_info_def INT32_MAX_def Let_def)

definition calm_start :: start_env where
  "calm_start = \<lparr>st_attr_init = None, st_setstacksize = None, st_pthread_create = None\<rparr>"

definition started_task :: task_system where
  "started_task = \<lparr>ts_task = example_task\<lparr>tk_thread_created := True\<rparr>, ts_waiting = True, ts_thread = InEntry\<rparr>"

lemma started_sample: "task_step\<^sup>*\<^sup>* (task_start example_task) started_task"
proof -
  have "start_begin calm_start (ts_task (task_start example_task)) = (None, example_task\<lparr>tk_thread_created := True\<rparr>)"
    by (simp add: task_defs task_start_def example_task_def calm_start_def)
  then have "task_step (task_start example_task)
      ((task_start example_task)\<lparr>ts_task := example_task\<lparr>tk_thread_created := True\<rparr>, ts_waiting := True, ts_thread := InEntry\<rparr>)"
    by (intro task_step.start) (simp_all add: task_start_def)
  then show ?thesis by (simp add: task_start_def started_task_def)
qed

theorem tasker_start_returns_when_ready_witness:
  "fst (start_wait (snd (dttasker_ready None (ts_task started_task)))) = Returned None None"
  using tasker_start_returns_when_ready [OF create_example_task started_sample] by (simp add: started_task_def)

text \<open>
  A task that ends without an error before it has called ready leaves its starter waiting
  for ever. Once the entry point has returned without error (and the status callback too) with the
  ready signal not posted, no step of the system brings \<open>dttasker_start\<close> back.
\<close>

theorem tasker_silent_exit_hangs_start:
  assumes "dttasker_create env name p st = (None, Some k)" "task_step\<^sup>*\<^sup>* (task_start k) y"
    and "ts_waiting y" "\<not> tk_ready_posted (ts_task y)"
    and "task_step\<^sup>*\<^sup>* (y\<lparr>ts_task := thread_epilogue None None (ts_task y), ts_thread := Exited\<rparr>) z"
  shows "ts_waiting z"
proof -
  define stuck :: "task_system \<Rightarrow> bool" where "stuck z \<longleftrightarrow> ts_waiting z \<and> ts_thread z = Exited \<and> sem_count (tk_ready_semaphore (ts_task z)) = 0" for z
  have "task_inv y" using assms(1,2) by (rule task_reach_inv)
  then have "stuck (y\<lparr>ts_task := thread_epilogue None None (ts_task y), ts_thread := Exited\<rparr>)"
    using assms(3,4) by (simp add: stuck_def task_inv_def task_defs)
  with assms(5) have "stuck z"
  proof (induction rule: rtranclp_induct)
    case (step x z)
    from step(2,3) step(4) show ?case
      by (induction rule: task_step.induct) (auto simp: stuck_def task_defs)
  qed
  then show ?thesis by (simp add: stuck_def)
qed

theorem tasker_silent_exit_hangs_start_witness:
  "ts_waiting (started_task\<lparr>ts_task := thread_epilogue None None (ts_task started_task), ts_thread := Exited\<rparr>)"
  by (rule tasker_silent_exit_hangs_start [OF create_example_task started_sample])
    (simp_all add: started_task_def example_task_def)

text \<open>
  A join tells whether the thread has ended. It calls \<open>pthread_join\<close> only on a thread
  that was created, not joined before and seen to have ended; it reports a timeout only when the
  time has passed; with a timeout it does not wait beyond the first look at the clock after
  it; and a task it has joined is not joined again.
\<close>

theorem tasker_join_outcome:
  assumes "dttasker_join pj timeout f s rounds k = Some (e, w, k', joined)"
  shows "(joined \<longrightarrow> tk_thread_created k \<and> \<not> tk_thread_joined k \<and> True \<in> fst ` set rounds) \<and>
    (e = Some DTERR_TIMEOUT \<and> pj = None \<or> w = Some True \<longrightarrow>
       k' = k \<and> \<not> joined \<and> (\<exists>ms now. timeout = Some ms \<and> now \<in> snd ` set rounds \<and> ms \<le> now - s)) \<and>
    (joined \<and> e = None \<longrightarrow> dttasker_join pj' t' f' s' r' k' = Some (None, set_flag f' False, k', False))"
proof -
  have exit: "join_wait timeout s rounds = Some False \<Longrightarrow> True \<in> fst ` set rounds"
    by (induction timeout s rounds rule: join_wait.induct) (auto split: if_splits option.splits)
  have late: "join_wait timeout s rounds = Some True \<Longrightarrow>
      \<exists>ms now. timeout = Some ms \<and> now \<in> snd ` set rounds \<and> ms \<le> now - s"
    by (induction timeout s rounds rule: join_wait.induct) (auto split: if_splits option.splits)
  show ?thesis
    using assms exit late
    by (auto simp: dttasker_join_def set_flag_def split: if_splits option.splits bool.splits)
qed

theorem tasker_join_outcome_witness:
  "\<exists>ms now. Some (20 :: int) = Some ms \<and> now \<in> snd ` set [(False, 100), (False, 125 :: int)] \<and> ms \<le> now - 100"
proof -
  have "dttasker_join None (Some 20) True 100 [(False, 100), (False, 125)] (ts_task started_task) =
    Some (None, Some True, ts_task started_task, False)"
    by (simp add: dttasker_join_def started_task_def example_task_def set_flag_def)
  from tasker_join_outcome [OF this] show ?thesis by blast
qed

definition priority_levels :: "dttasker_priority_t list" where
  "priority_levels =
     [PRIORITY_URGENT_HIGHEST, PRIORITY_URGENT_HIGH, PRIORITY_URGENT_MEDIUM, PRIORITY_URGENT_LOW,
      PRIORITY_URGENT_LOWEST, PRIORITY_NORMAL_HIGHEST, PRIORITY_NORMAL_HIGH, PRIORITY_NORMAL_MEDIUM,
      PRIORITY_NORMAL_LOW, PRIORITY_NORMAL_LOWEST, PRIORITY_BACKGROUND_HIGHEST, PRIORITY_BACKGROUND_HIGH,
      PRIORITY_BACKGROUND_MEDIUM, PRIORITY_BACKGROUND_LOW, PRIORITY_BACKGROUND_LOWEST]"

text \<open>
  Every priority between the markers has a native number from 0 to 14, more urgent ones
  smaller, and the fifteen named levels have different numbers. The default gets 8, the number of
  NORMAL_LOW and not, as its comment says, that of NORMAL_MEDIUM.
\<close>

theorem tasker_priority_order:
  "map priority_to_native priority_levels = map Inr [0..14] \<and>
   priority_to_native PRIORITY_DEFAULT_FOR_SITUATION = priority_to_native PRIORITY_NORMAL_LOW \<and>
   priority_to_native PRIORITY_DEFAULT_FOR_SITUATION \<noteq> priority_to_native PRIORITY_NORMAL_MEDIUM"
  by (simp add: priority_levels_def upto.simps)

end
