(* ===== verification/Dtiox.thy ===== *)
theory Dtiox
  imports Sockets Tasker "HOL-Library.Sublist"
begin

text \<open>
  What the I/O devices (CAN bus, TTY, TCP, Modbus) share. Every device is the \<open>dtiox\<close> interface
  of dtmc_base over one transport: a background task moves what arrives into a ring FIFO, the
  caller's \<open>read\<close> takes it out without waiting, and a loss is reported once, by the next read, as
  \<open>DTERR_OVERFLOW\<close>. The contract of that receive path is the locale \<open>rx_stream\<close>; every device
  is an instance of it.
\<close>

section \<open>The ring FIFO\<close>

text \<open>
  \<open>dtringfifo_t\<close> is part of dtcore, which is not in the repository: its state is a type
  parameter and its functions are a parameter of every definition that calls them.
  \<open>rf_configure c\<close> is \<open>dtringfifo_configure\<close> with new storage of \<open>c\<close> bytes. The last two
  fields are not functions of dtcore: they say what a state holds, for \<open>ringfifo_ok\<close>.
\<close>

record 'f ringfifo =
  rf_init :: "dterr \<times> 'f"
  rf_configure :: "int \<Rightarrow> 'f \<Rightarrow> dterr \<times> 'f"
  rf_reset :: "'f \<Rightarrow> 'f"
  rf_push :: "'f \<Rightarrow> byte list \<Rightarrow> int \<times> 'f"
  rf_pop :: "'f \<Rightarrow> int \<Rightarrow> byte list \<times> 'f"
  rf_items :: "'f \<Rightarrow> byte list"
  rf_capacity :: "'f \<Rightarrow> nat"

text \<open>
  What the code relies on: a push stores a prefix, all of it when there is room, and returns how
  many bytes it stored; a pop takes up to \<open>n\<close> bytes from the front; a reset empties.
\<close>

definition push_ok :: "'f ringfifo \<Rightarrow> bool" where
  "push_ok rf \<longleftrightarrow> (\<forall>f d. \<exists>k\<le>length d.
     fst (rf_push rf f d) = int k \<and>
     rf_items rf (snd (rf_push rf f d)) = rf_items rf f @ take k d \<and>
     rf_capacity rf (snd (rf_push rf f d)) = rf_capacity rf f \<and>
     (length (rf_items rf f) + length d \<le> rf_capacity rf f \<longrightarrow> k = length d))"

definition pop_ok :: "'f ringfifo \<Rightarrow> bool" where
  "pop_ok rf \<longleftrightarrow> (\<forall>f n. 0 \<le> n \<longrightarrow>
     fst (rf_pop rf f n) = take (nat n) (rf_items rf f) \<and>
     rf_items rf (snd (rf_pop rf f n)) = drop (nat n) (rf_items rf f) \<and>
     rf_capacity rf (snd (rf_pop rf f n)) = rf_capacity rf f)"

definition ringfifo_ok :: "'f ringfifo \<Rightarrow> bool" where
  "ringfifo_ok rf \<longleftrightarrow> push_ok rf \<and> pop_ok rf \<and>
     (\<forall>f. rf_items rf (rf_reset rf f) = [] \<and> rf_capacity rf (rf_reset rf f) = rf_capacity rf f)"

lemma push_cases:
  assumes "ringfifo_ok rf"
  obtains k f' where "rf_push rf f d = (int k, f')" "k \<le> length d"
    "rf_items rf f' = rf_items rf f @ take k d" "rf_capacity rf f' = rf_capacity rf f"
    "length (rf_items rf f) + length d \<le> rf_capacity rf f \<Longrightarrow> k = length d"
proof -
  have "push_ok rf" using assms by (simp add: ringfifo_ok_def)
  then obtain k where "k \<le> length d" "fst (rf_push rf f d) = int k"
    "rf_items rf (snd (rf_push rf f d)) = rf_items rf f @ take k d"
    "rf_capacity rf (snd (rf_push rf f d)) = rf_capacity rf f"
    "length (rf_items rf f) + length d \<le> rf_capacity rf f \<longrightarrow> k = length d"
    unfolding push_ok_def by blast
  then show ?thesis using that [of k "snd (rf_push rf f d)"] by (cases "rf_push rf f d") simp
qed

lemma pop_cases:
  assumes "ringfifo_ok rf" "0 \<le> n"
  obtains f' where "rf_pop rf f n = (take (nat n) (rf_items rf f), f')"
    "rf_items rf f' = drop (nat n) (rf_items rf f)" "rf_capacity rf f' = rf_capacity rf f"
proof -
  have "pop_ok rf" using assms by (simp add: ringfifo_ok_def)
  then have "fst (rf_pop rf f n) = take (nat n) (rf_items rf f)"
    "rf_items rf (snd (rf_pop rf f n)) = drop (nat n) (rf_items rf f)"
    "rf_capacity rf (snd (rf_pop rf f n)) = rf_capacity rf f"
    using assms(2) unfolding pop_ok_def by blast+
  with that [of "snd (rf_pop rf f n)"] show ?thesis by (cases "rf_pop rf f n") simp
qed

lemma reset_items [simp]: "ringfifo_ok rf \<Longrightarrow> rf_items rf (rf_reset rf f) = []"
  unfolding ringfifo_ok_def by blast

lemma reset_capacity [simp]: "ringfifo_ok rf \<Longrightarrow> rf_capacity rf (rf_reset rf f) = rf_capacity rf f"
  unfolding ringfifo_ok_def by blast

text \<open>A bounded list satisfies it; the witnesses of the devices compute with it.\<close>

definition list_fifo :: "(byte list \<times> nat) ringfifo" where
  "list_fifo = \<lparr>rf_init = (None, ([], 0)),
     rf_configure = (\<lambda>c f. (None, ([], nat c))),
     rf_reset = (\<lambda>f. ([], snd f)),
     rf_push = (\<lambda>f d. let k = min (length d) (snd f - length (fst f))
                      in (int k, (fst f @ take k d, snd f))),
     rf_pop = (\<lambda>f n. (take (nat n) (fst f), (drop (nat n) (fst f), snd f))),
     rf_items = fst, rf_capacity = snd\<rparr>"

lemma list_fifo_ok: "ringfifo_ok list_fifo"
proof -
  have "push_ok list_fifo"
    unfolding push_ok_def list_fifo_def
    by (intro allI, rule_tac x = "min (length d) (snd f - length (fst f))" in exI) (auto simp: Let_def)
  then show ?thesis by (simp add: ringfifo_ok_def pop_ok_def list_fifo_def)
qed

section \<open>Helpers of the devices\<close>

text \<open>\<open>fifo_dropped_bytes\<close> stops at the largest \<open>int32_t\<close>.\<close>

definition add_dropped :: "int \<Rightarrow> int \<Rightarrow> int" where
  "add_dropped v dropped = (if dropped \<le> INT32_MAX - v then v + dropped else INT32_MAX)"

text \<open>
  \<open>dtsemaphore_post\<close> on a handle, which may be NULL. \<open>rc\<close> is what the mutex of the semaphore
  answers.
\<close>

definition post_handle :: "errno option \<Rightarrow> dtsemaphore_linux_t option \<Rightarrow> dterr \<times> dtsemaphore_linux_t option" where
  "post_handle rc h =
     (case h of
        None \<Rightarrow> (Some DTERR_ASSERT, None)
      | Some s \<Rightarrow> (case dtsemaphore_post rc s of (e, s', _) \<Rightarrow> (e, Some s')))"

text \<open>\<open>dttasker_get_info\<close> on a handle: the status and the error in the record.\<close>

definition get_info_handle :: "dttasker_t option \<Rightarrow> errcode + (task_status \<times> dterr)" where
  "get_info_handle h =
     (case h of
        None \<Rightarrow> Inl DTERR_ASSERT
      | Some t \<Rightarrow> (case dttasker_get_info t of (_, status, e) \<Rightarrow> Inr (status, e)))"

text \<open>What creating the receive task and starting it answer.\<close>

record task_env =
  ta_create :: "errcode + dttasker_t"
  ta_start :: "errcode + dttasker_t"

text \<open>What a round of a receive task does: it goes on, or leaves the loop with its result.\<close>

datatype rx_outcome = RxGoOn | RxExit dterr

text \<open>A running task, for the samples of the devices.\<close>

definition running_tasker :: dttasker_t where
  "running_tasker = \<lparr>tk_name = ''rx'', tk_priority = PRIORITY_DEFAULT_FOR_SITUATION, tk_stack_size = 0,
     tk_ready_semaphore = \<lparr>sem_is_initialized = False, sem_count = 0, sem_max_count = 1\<rparr>,
     tk_ready_posted = True, tk_status = TASK_RUNNING, tk_info_error = None, tk_thread_created = True,
     tk_stop_requested = False, tk_thread_exited = False, tk_thread_joined = False\<rparr>"

section \<open>The receive path\<close>

datatype rx_event = Arrive "byte list" | Read nat

fun arrivals :: "rx_event list \<Rightarrow> byte list" where
  "arrivals [] = []"
| "arrivals (Arrive d # es) = d @ arrivals es"
| "arrivals (Read n # es) = arrivals es"

text \<open>
  A history of the device: the number of reads that reported an overflow, the bytes that the
  other reads returned, and the state after it.
\<close>

fun rx_run :: "(byte list \<Rightarrow> 's \<Rightarrow> 's) \<Rightarrow> (nat \<Rightarrow> 's \<Rightarrow> dterr \<times> byte list \<times> 's) \<Rightarrow> rx_event list \<Rightarrow> 's \<Rightarrow> nat \<times> byte list \<times> 's" where
  "rx_run arrive read [] s = (0, [], s)"
| "rx_run arrive read (Arrive d # es) s = rx_run arrive read es (arrive d s)"
| "rx_run arrive read (Read n # es) s =
     (case read n s of
        (e, got, s1) \<Rightarrow>
          (case rx_run arrive read es s1 of
             (errs, got', s2) \<Rightarrow> ((if e = None then 0 else 1) + errs, got @ got', s2)))"

text \<open>
  The contract. \<open>env\<close> is what the device calls, \<open>good\<close> what is asked of it; \<open>live s\<close>: the
  device is attached and enabled and its task runs.
\<close>

locale rx_stream =
  fixes good :: "'e \<Rightarrow> bool"
    and live :: "'s \<Rightarrow> bool"
    and chunk :: "byte list \<Rightarrow> bool"
    and pending :: "'e \<Rightarrow> 's \<Rightarrow> byte list"
    and overflowed :: "'s \<Rightarrow> bool"
    and arrive :: "'e \<Rightarrow> byte list \<Rightarrow> 's \<Rightarrow> 's"
    and read :: "'e \<Rightarrow> nat \<Rightarrow> 's \<Rightarrow> dterr \<times> byte list \<times> 's"
  assumes arrive_ok: "good env \<Longrightarrow> live s \<Longrightarrow> chunk d \<Longrightarrow>
      live (arrive env d s) \<and>
      (\<exists>k\<le>length d. pending env (arrive env d s) = pending env s @ take k d \<and>
         (overflowed (arrive env d s) \<longleftrightarrow> overflowed s \<or> k < length d))"
    and read_overflow: "good env \<Longrightarrow> live s \<Longrightarrow> overflowed s \<Longrightarrow>
      \<exists>s'. read env n s = (Some DTERR_OVERFLOW, [], s') \<and> live s' \<and> \<not> overflowed s' \<and>
        pending env s' = pending env s"
    and read_data: "good env \<Longrightarrow> live s \<Longrightarrow> \<not> overflowed s \<Longrightarrow>
      \<exists>s'. read env n s = (None, take n (pending env s), s') \<and> live s' \<and> \<not> overflowed s' \<and>
        pending env s' = drop n (pending env s)"
begin

lemma stream:
  assumes "good env"
  shows "live s \<Longrightarrow> list_all (\<lambda>e. case e of Arrive d \<Rightarrow> chunk d | Read _ \<Rightarrow> True) es \<Longrightarrow>
     rx_run (arrive env) (read env) es s = (errs, got, s') \<Longrightarrow>
     live s' \<and> subseq (got @ pending env s') (pending env s @ arrivals es) \<and>
     (errs = 0 \<and> \<not> overflowed s' \<longrightarrow>
        got @ pending env s' = pending env s @ arrivals es \<and> \<not> overflowed s)"
proof (induction es arbitrary: s errs got)
  case Nil
  then show ?case by simp
next
  case (Cons ev es)
  show ?case
  proof (cases ev)
    case (Arrive d)
    with Cons.prems obtain k where k: "live (arrive env d s)" "k \<le> length d"
        "pending env (arrive env d s) = pending env s @ take k d"
        "overflowed (arrive env d s) \<longleftrightarrow> overflowed s \<or> k < length d"
      using arrive_ok [OF assms] by auto
    have "subseq (take k d) d" using list_emb_append_mono [OF subseq_order.refl list_emb_Nil, of "take k d" "drop k d"]
      by simp
    then have sub: "subseq (take k d @ arrivals es) (d @ arrivals es)"
      by (rule list_emb_append_mono [OF _ subseq_order.refl])
    have "subseq ((pending env s @ take k d) @ arrivals es) (pending env s @ arrivals (ev # es))"
      using list_emb_append_mono [OF subseq_order.refl sub] Arrive by simp
    moreover have "live s' \<and> subseq (got @ pending env s') (pending env (arrive env d s) @ arrivals es) \<and>
      (errs = 0 \<and> \<not> overflowed s' \<longrightarrow> got @ pending env s' = pending env (arrive env d s) @ arrivals es \<and>
        \<not> overflowed (arrive env d s))"
      using Cons.IH [OF k(1), of errs got] Cons.prems(2,3) Arrive by simp
    ultimately show ?thesis
      using k(2-4) Arrive subseq_order.trans by (auto simp: not_less)
  next
    case (Read n)
    obtain e d s1 where r: "read env n s = (e, d, s1)" by (cases "read env n s")
    obtain errs1 got1 where rest: "rx_run (arrive env) (read env) es s1 = (errs1, got1, s')"
        and got: "got = d @ got1" and errs: "errs = (if e = None then 0 else 1) + errs1"
      using Cons.prems(3) Read r by (auto split: prod.splits)
    show ?thesis
    proof (cases "overflowed s")
      case True
      with read_overflow [OF assms Cons.prems(1), of n] r
      have "e = Some DTERR_OVERFLOW" "d = []" "live s1" "pending env s1 = pending env s" by auto
      with Cons.IH [OF _ _ rest] Cons.prems(2) Read got errs show ?thesis by simp
    next
      case False
      with read_data [OF assms Cons.prems(1), of n] r
      have e: "e = None" and live: "live s1" and p: "pending env s = d @ pending env s1"
        by auto
      have a: "arrivals (ev # es) = arrivals es" and c: "list_all (\<lambda>e. case e of Arrive d \<Rightarrow> chunk d | Read _ \<Rightarrow> True) es"
        using Read Cons.prems(2) by simp_all
      from Cons.IH [OF live c rest] show ?thesis
        unfolding p got errs e a by (simp add: False subseq_append')
    qed
  qed
qed

end

end
