(* ===== verification/Canbus.thy ===== *)
theory Canbus
  imports Dtiox
begin

text \<open>
  \<open>dtmc_linux_library/src/dtiox_linux_canbus.c\<close>: a byte stream over classic CAN frames of at most
  eight bytes. A write cuts the caller's bytes into frames; the receive task puts the payload of
  every frame into the ring FIFO. The pushes and pops run under \<open>rx_fifo_mutex\<close>, so a round of
  the task and a read are atomic steps. \<open>thread_dterr\<close> and the socket address are never read
  back and are left out, as is the formatting of the object as a text.
\<close>

section \<open>Data\<close>

record can_config =
  cc_interface_name :: "string option"
  cc_txid :: u32
  cc_rx_ring_capacity :: int

record 'f dtiox_linux_canbus_t =
  can_model_number :: int
  can_is_malloced :: bool
  can_config :: can_config
  can_sock_fd :: fd
  can_rx_semaphore :: "dtsemaphore_linux_t option"
  can_rx_tasker :: "dttasker_t option"
  can_rx_thread_running :: bool
  can_rx_enabled :: bool
  can_rx_overflow_flag :: bool
  can_rx_fifo :: 'f
  can_rx_fifo_storage :: bool
  can_rx_frame_count :: int
  can_rx_byte_count :: int
  can_rx_monitor_count :: int
  can_fifo_dropped_bytes :: int

text \<open>\<open>struct can_frame\<close> of the kernel: 16 bytes, of which 8 are data.\<close>

record can_frame =
  cf_can_id :: u32
  cf_can_dlc :: byte
  cf_data :: "byte list"

definition sizeof_can_frame :: nat where "sizeof_can_frame = 16"

section \<open>The receive task\<close>

definition rx_fifo_capacity_from_config :: "'f dtiox_linux_canbus_t \<Rightarrow> int" where
  "rx_fifo_capacity_from_config self =
     (let capacity = cc_rx_ring_capacity (can_config self) in if capacity \<le> 0 then 1024 else capacity)"

definition rx_fifo_push_locked :: "'f ringfifo \<Rightarrow> byte list \<Rightarrow> 'f dtiox_linux_canbus_t \<Rightarrow> int \<times> 'f dtiox_linux_canbus_t" where
  "rx_fifo_push_locked rf src self =
     (if src = [] then (0, self)
      else
        (case rf_push rf (can_rx_fifo self) src of
           (written, f) \<Rightarrow>
             let dropped = int (length src) - written;
                 self1 = self\<lparr>can_rx_fifo := f\<rparr> in
             (written,
              if 0 < dropped
              then self1\<lparr>can_rx_overflow_flag := True,
                         can_fifo_dropped_bytes := add_dropped (can_fifo_dropped_bytes self) dropped\<rparr>
              else self1)))"

definition rx_fifo_pop_locked :: "'f ringfifo \<Rightarrow> int \<Rightarrow> 'f dtiox_linux_canbus_t \<Rightarrow> byte list \<times> 'f dtiox_linux_canbus_t" where
  "rx_fifo_pop_locked rf len self =
     (if len \<le> 0 then ([], self)
      else (case rf_pop rf (can_rx_fifo self) len of (d, f) \<Rightarrow> (d, self\<lparr>can_rx_fifo := f\<rparr>)))"

text \<open>What \<open>recv\<close> answers: a frame, another number of bytes, or an error.\<close>

datatype can_recv = CanFrame can_frame | CanShort | CanRecvErr

text \<open>One round of the loop of \<open>_rx_task_entry\<close>. \<open>rc\<close> is the answer of the semaphore's mutex.\<close>

definition can_rx_round ::
  "'f ringfifo \<Rightarrow> errno option \<Rightarrow> can_recv \<Rightarrow> 'f dtiox_linux_canbus_t \<Rightarrow> rx_outcome \<times> 'f dtiox_linux_canbus_t" where
  "can_rx_round rf rc r self =
     (case r of
        CanRecvErr \<Rightarrow> (RxExit (Some DTERR_IO), self)
      | CanShort \<Rightarrow> (RxExit (Some DTERR_IO), self)
      | CanFrame frame \<Rightarrow>
          if unat (cf_can_dlc frame) = 0 then (RxGoOn, self)
          else
            let payload_len = min (unat (cf_can_dlc frame)) 8;
                self1 = self\<lparr>can_rx_frame_count := can_rx_frame_count self + 1,
                             can_rx_byte_count := can_rx_byte_count self + int payload_len,
                             can_rx_monitor_count := to_int32 (can_rx_monitor_count self + 1)\<rparr> in
            if \<not> can_rx_enabled self1 then (RxGoOn, self1)
            else
              (case rx_fifo_push_locked rf (take payload_len (cf_data frame)) self1 of
                 (written, self2) \<Rightarrow>
                   if 0 < written \<and> can_rx_semaphore self2 \<noteq> None
                   then (case post_handle rc (can_rx_semaphore self2) of
                           (e, sem) \<Rightarrow> (case e of None \<Rightarrow> RxGoOn | Some _ \<Rightarrow> RxExit e,
                                         self2\<lparr>can_rx_semaphore := sem\<rparr>))
                   else (RxGoOn, self2)))"

fun can_rx_loop ::
  "'f ringfifo \<Rightarrow> (errno option \<times> can_recv) list \<Rightarrow> 'f dtiox_linux_canbus_t \<Rightarrow> (dterr \<times> 'f dtiox_linux_canbus_t) option" where
  "can_rx_loop rf [] self = None"
| "can_rx_loop rf ((rc, r) # rs) self =
     (case can_rx_round rf rc r self of
        (RxGoOn, self') \<Rightarrow> can_rx_loop rf rs self'
      | (RxExit e, self') \<Rightarrow> Some (e, self'))"

text \<open>The whole task; \<open>ready\<close> is the answer of \<open>dttasker_ready\<close>. \<open>None\<close>: waiting for a frame.\<close>

definition can_rx_task ::
  "'f ringfifo \<Rightarrow> dterr \<Rightarrow> (errno option \<times> can_recv) list \<Rightarrow> 'f dtiox_linux_canbus_t
     \<Rightarrow> (dterr \<times> 'f dtiox_linux_canbus_t) option" where
  "can_rx_task rf ready rs self =
     (if ready \<noteq> None then Some (ready, self\<lparr>can_rx_thread_running := False\<rparr>)
      else map_option (\<lambda>(e, self'). (e, self'\<lparr>can_rx_thread_running := False\<rparr>)) (can_rx_loop rf rs self))"

section \<open>The operations\<close>

text \<open>\<open>mutex_rc\<close>: \<open>pthread_mutex_init\<close>; \<open>reg1\<close>, \<open>reg2\<close>: the registrations of the vtables.\<close>

definition can_init :: "'f ringfifo \<Rightarrow> int \<Rightarrow> errno option \<Rightarrow> dterr \<Rightarrow> dterr \<Rightarrow> dterr \<times> 'f dtiox_linux_canbus_t" where
  "can_init rf model mutex_rc reg1 reg2 =
     (let self = \<lparr>can_model_number = model, can_is_malloced = False,
            can_config = \<lparr>cc_interface_name = None, cc_txid = 0, cc_rx_ring_capacity = 0\<rparr>,
            can_sock_fd = -1, can_rx_semaphore = None, can_rx_tasker = None,
            can_rx_thread_running = False, can_rx_enabled = True, can_rx_overflow_flag = False,
            can_rx_fifo = snd (rf_init rf), can_rx_fifo_storage = False, can_rx_frame_count = 0,
            can_rx_byte_count = 0, can_rx_monitor_count = 0, can_fifo_dropped_bytes = 0\<rparr>;
          dterr = (if fst (rf_init rf) \<noteq> None then fst (rf_init rf)
                   else if mutex_rc \<noteq> None then Some DTERR_FAIL
                   else if reg1 \<noteq> None then reg1 else reg2)
      in (dterr, if dterr = None then self else self\<lparr>can_rx_fifo := rf_reset rf (can_rx_fifo self)\<rparr>))"

definition can_create ::
  "bool \<Rightarrow> 'f ringfifo \<Rightarrow> int \<Rightarrow> errno option \<Rightarrow> dterr \<Rightarrow> dterr \<Rightarrow> dterr \<times> 'f dtiox_linux_canbus_t option" where
  "can_create malloc_ok rf model mutex_rc reg1 reg2 =
     (if \<not> malloc_ok then (Some DTERR_NOMEM, None)
      else (case can_init rf model mutex_rc reg1 reg2 of
              (Some e, _) \<Rightarrow> (Some e, None)
            | (None, self) \<Rightarrow> (None, Some (self\<lparr>can_is_malloced := True\<rparr>))))"

definition can_configure :: "'f dtiox_linux_canbus_t \<Rightarrow> can_config \<Rightarrow> dterr \<times> 'f dtiox_linux_canbus_t" where
  "can_configure self config =
     (if cc_interface_name config = None then (Some DTERR_ASSERT, self)
      else if cc_txid config = 0 then (Some DTERR_BADARG, self)
      else if cc_rx_ring_capacity config < 0 then (Some DTERR_BADARG, self)
      else (None, self\<lparr>can_config := config\<rparr>))"

text \<open>The answers of \<open>socket\<close>, \<open>ioctl(SIOCGIFINDEX)\<close>, \<open>bind\<close> and \<open>malloc\<close> in an attach.\<close>

record can_attach_env =
  ca_socket :: fd
  ca_ioctl_ok :: bool
  ca_bind_ok :: bool
  ca_malloc_ok :: bool
  ca_task :: task_env

text \<open>The cleanup of a failed attach.\<close>

definition can_attach_fail ::
  "'f ringfifo \<Rightarrow> dterr \<Rightarrow> 'f dtiox_linux_canbus_t \<Rightarrow> fd list \<Rightarrow> dterr \<times> 'f dtiox_linux_canbus_t \<times> fd list" where
  "can_attach_fail rf e self fds =
     (case close_if_open (can_sock_fd self) fds of
        (fd, fds') \<Rightarrow>
          (e, self\<lparr>can_sock_fd := fd, can_rx_fifo_storage := False,
                   can_rx_fifo := rf_reset rf (can_rx_fifo self)\<rparr>, fds'))"

definition can_attach ::
  "'f ringfifo \<Rightarrow> can_attach_env \<Rightarrow> 'f dtiox_linux_canbus_t \<Rightarrow> fd list \<Rightarrow> dterr \<times> 'f dtiox_linux_canbus_t \<times> fd list" where
  "can_attach rf env self fds =
     (let fd = ca_socket env;
          self1 = self\<lparr>can_sock_fd := fd\<rparr>;
          capacity = rx_fifo_capacity_from_config self
      in if 0 \<le> can_sock_fd self then (None, self, fds)
         else if fd < 0 then can_attach_fail rf (Some DTERR_FAIL) self fds
         else if \<not> ca_ioctl_ok env then can_attach_fail rf (Some DTERR_FAIL) self (removeAll fd (fd # fds))
         else if \<not> ca_bind_ok env then can_attach_fail rf (Some DTERR_FAIL) self (removeAll fd (fd # fds))
         else if capacity \<le> 0 then can_attach_fail rf (Some DTERR_BADARG) self1 (fd # fds)
         else if \<not> ca_malloc_ok env
         then can_attach_fail rf (Some DTERR_NOMEM) (self1\<lparr>can_rx_fifo_storage := False\<rparr>) (fd # fds)
         else (case rf_configure rf capacity (can_rx_fifo self) of
                 (e, f) \<Rightarrow>
                   let self2 = self1\<lparr>can_rx_fifo_storage := True, can_rx_fifo := f\<rparr> in
                   if e \<noteq> None then can_attach_fail rf e self2 (fd # fds)
                   else (case ta_create (ca_task env) of
                           Inl e \<Rightarrow> can_attach_fail rf (Some e) self2 (fd # fds)
                         | Inr t \<Rightarrow>
                             (case ta_start (ca_task env) of
                                Inl e \<Rightarrow> can_attach_fail rf (Some e) (self2\<lparr>can_rx_tasker := Some t\<rparr>) (fd # fds)
                              | Inr t' \<Rightarrow> (None, self2\<lparr>can_rx_tasker := Some t'\<rparr>, fd # fds)))))"

definition can_detach :: "'f dtiox_linux_canbus_t \<Rightarrow> dterr \<times> 'f dtiox_linux_canbus_t" where
  "can_detach self = (None, self)"

definition can_enable :: "'f ringfifo \<Rightarrow> 'f dtiox_linux_canbus_t \<Rightarrow> bool \<Rightarrow> dterr \<times> 'f dtiox_linux_canbus_t" where
  "can_enable rf self enabled =
     (None, if enabled then self\<lparr>can_rx_fifo := rf_reset rf (can_rx_fifo self), can_rx_enabled := True\<rparr>
            else self\<lparr>can_rx_enabled := False\<rparr>)"

text \<open>The bytes read; \<open>*out_read\<close> is their number.\<close>

definition can_read ::
  "'f ringfifo \<Rightarrow> 'f dtiox_linux_canbus_t \<Rightarrow> int \<Rightarrow> dterr \<times> byte list \<times> 'f dtiox_linux_canbus_t" where
  "can_read rf self buf_len =
     (case get_info_handle (can_rx_tasker self) of
        Inl e \<Rightarrow> (Some DTERR_FAIL, [], self)
      | Inr (status, info_error) \<Rightarrow>
          if info_error \<noteq> None \<or> status \<noteq> TASK_RUNNING then (Some DTERR_FAIL, [], self)
          else if can_rx_overflow_flag self
          then (Some DTERR_OVERFLOW, [], self\<lparr>can_rx_overflow_flag := False\<rparr>)
          else if can_sock_fd self < 0 then (Some DTERR_FAIL, [], self)
          else (case rx_fifo_pop_locked rf buf_len self of (d, self') \<Rightarrow> (None, d, self')))"

text \<open>One frame of a write, its data padded by the \<open>memset\<close>.\<close>

definition tx_frame :: "u32 \<Rightarrow> byte list \<Rightarrow> can_frame" where
  "tx_frame txid chunk =
     \<lparr>cf_can_id = txid, cf_can_dlc = word_of_nat (length chunk),
      cf_data = chunk @ replicate (8 - length chunk) 0\<rparr>"

datatype can_send = CanSent nat | CanSendErr

text \<open>
  The loop of \<open>dtiox_linux_canbus_write\<close> over what is left of the buffer: the error, the frames
  on the bus, and the kernel answers not used.
\<close>

function can_write_loop ::
  "u32 \<Rightarrow> byte list \<Rightarrow> can_send list \<Rightarrow> (dterr \<times> can_frame list \<times> can_send list) option" where
  "can_write_loop txid rest ks =
     (if rest = [] then Some (None, [], ks)
      else (case ks of
              [] \<Rightarrow> None
            | CanSendErr # ks' \<Rightarrow> Some (Some DTERR_FAIL, [], ks')
            | CanSent n # ks' \<Rightarrow>
                if n \<noteq> sizeof_can_frame then Some (Some DTERR_FAIL, [], ks')
                else map_option (\<lambda>(e, fs, r). (e, tx_frame txid (take 8 rest) # fs, r))
                       (can_write_loop txid (drop 8 rest) ks')))"
  by pat_completeness auto
termination can_write_loop
  by (relation "measure (\<lambda>(txid, rest, ks). length rest)") auto

declare can_write_loop.simps [simp del]

text \<open>
  \<open>dtiox_linux_canbus_write\<close> of \<open>len\<close> bytes of \<open>buf\<close>: the error, \<open>*out_written\<close>, the frames on
  the bus. \<open>None\<close>: waiting in \<open>send\<close>, or reading behind the buffer.
\<close>

definition can_write ::
  "'f dtiox_linux_canbus_t \<Rightarrow> byte list \<Rightarrow> int \<Rightarrow> can_send list \<Rightarrow> (dterr \<times> int \<times> can_frame list) option" where
  "can_write self buf len ks =
     (if can_sock_fd self < 0 then Some (Some DTERR_FAIL, 0, [])
      else if int (length buf) < len then None
      else (case can_write_loop (cc_txid (can_config self)) (take (nat len) buf) ks of
              None \<Rightarrow> None
            | Some (Some e, fs, _) \<Rightarrow> Some (Some e, 0, fs)
            | Some (None, fs, _) \<Rightarrow> Some (None, int (nat len), fs)))"

definition can_set_rx_semaphore ::
  "'f dtiox_linux_canbus_t \<Rightarrow> dtsemaphore_linux_t option \<Rightarrow> dterr \<times> 'f dtiox_linux_canbus_t" where
  "can_set_rx_semaphore self sem = (None, self\<lparr>can_rx_semaphore := sem\<rparr>)"

text \<open>\<open>None\<close>: \<open>strcmp\<close> on a NULL name.\<close>

definition can_equals :: "'f dtiox_linux_canbus_t option \<Rightarrow> 'f dtiox_linux_canbus_t option \<Rightarrow> bool option" where
  "can_equals a b =
     (case (a, b) of
        (Some x, Some y) \<Rightarrow>
          if can_model_number x \<noteq> can_model_number y then Some False
          else (case (cc_interface_name (can_config x), cc_interface_name (can_config y)) of
                  (Some n, Some m) \<Rightarrow> Some (n = m \<and> cc_txid (can_config x) = cc_txid (can_config y))
                | _ \<Rightarrow> None)
      | _ \<Rightarrow> Some False)"


section \<open>The receive path is a stream\<close>

definition can_live :: "'f dtiox_linux_canbus_t \<Rightarrow> bool" where
  "can_live self \<longleftrightarrow> 0 \<le> can_sock_fd self \<and> can_rx_enabled self \<and>
     get_info_handle (can_rx_tasker self) = Inr (TASK_RUNNING, None)"

definition can_chunk :: "byte list \<Rightarrow> bool" where
  "can_chunk d \<longleftrightarrow> d \<noteq> [] \<and> length d \<le> 8"

definition can_pending :: "'f ringfifo \<Rightarrow> 'f dtiox_linux_canbus_t \<Rightarrow> byte list" where
  "can_pending rf self = rf_items rf (can_rx_fifo self)"

text \<open>A round that receives a frame with payload \<open>d\<close>, and a read into \<open>n\<close> bytes.\<close>

definition can_arrive :: "'f ringfifo \<Rightarrow> byte list \<Rightarrow> 'f dtiox_linux_canbus_t \<Rightarrow> 'f dtiox_linux_canbus_t" where
  "can_arrive rf d self = snd (can_rx_round rf None (CanFrame (tx_frame 1 d)) self)"

definition can_take :: "'f ringfifo \<Rightarrow> nat \<Rightarrow> 'f dtiox_linux_canbus_t \<Rightarrow> dterr \<times> byte list \<times> 'f dtiox_linux_canbus_t" where
  "can_take rf n self = can_read rf self (int n)"

lemma can_chunk_dlc: "can_chunk d \<Longrightarrow> unat (word_of_nat (length d) :: byte) = length d"
  unfolding can_chunk_def by (simp add: unsigned_of_nat take_bit_nat_eq_self)

lemma post_none [simp]: "fst (post_handle None (Some s)) = None"
  by (simp add: post_handle_def dtsemaphore_post_def)

lemma post_handle_some: "h \<noteq> None \<Longrightarrow> \<exists>sem. post_handle None h = (None, Some sem)"
  by (auto simp: post_handle_def dtsemaphore_post_def)

lemma can_push:
  assumes push: "rf_push rf (can_rx_fifo s) d = (int k, f)" and k: "k \<le> length d" "d \<noteq> []"
  shows "\<exists>x. rx_fifo_push_locked rf d s =
    (int k, s\<lparr>can_rx_fifo := f, can_rx_overflow_flag := can_rx_overflow_flag s \<or> k < length d,
              can_fifo_dropped_bytes := x\<rparr>)"
proof -
  have "rx_fifo_push_locked rf d s = (int k,
      if k < length d
      then s\<lparr>can_rx_fifo := f, can_rx_overflow_flag := True,
             can_fifo_dropped_bytes := add_dropped (can_fifo_dropped_bytes s) (int (length d) - int k)\<rparr>
      else s\<lparr>can_rx_fifo := f\<rparr>)"
    using k by (simp add: rx_fifo_push_locked_def push Let_def)
  moreover have "s\<lparr>can_rx_fifo := f\<rparr> = s\<lparr>can_rx_fifo := f, can_rx_overflow_flag := can_rx_overflow_flag s,
      can_fifo_dropped_bytes := can_fifo_dropped_bytes s\<rparr>" by (cases s) (simp only: dtiox_linux_canbus_t.simps)
  ultimately show ?thesis by (cases "k < length d") (simp_all only: if_True if_False simp_thms, blast+)
qed

text \<open>What a round does with a frame.\<close>

lemma can_round_frame:
  assumes rf: "ringfifo_ok rf" and live: "can_live s" and d: "can_chunk d"
  obtains k s' where "can_rx_round rf None (CanFrame (tx_frame txid d)) s = (RxGoOn, s')"
    "k \<le> length d" "can_live s'" "can_pending rf s' = can_pending rf s @ take k d"
    "can_rx_overflow_flag s' \<longleftrightarrow> can_rx_overflow_flag s \<or> k < length d"
    "rf_capacity rf (can_rx_fifo s') = rf_capacity rf (can_rx_fifo s)"
    "length (can_pending rf s) + length d \<le> rf_capacity rf (can_rx_fifo s) \<Longrightarrow> k = length d"
proof -
  obtain k f where k: "rf_push rf (can_rx_fifo s) d = (int k, f)" "k \<le> length d"
    "rf_items rf f = rf_items rf (can_rx_fifo s) @ take k d"
    "rf_capacity rf f = rf_capacity rf (can_rx_fifo s)"
    "length (rf_items rf (can_rx_fifo s)) + length d \<le> rf_capacity rf (can_rx_fifo s) \<Longrightarrow> k = length d"
    using push_cases [OF rf, of "can_rx_fifo s" d] by metis
  have m: "min (length d) 8 = length d" and d0: "d \<noteq> []" using d by (simp_all add: can_chunk_def)
  have u: "unat (cf_can_dlc (tx_frame txid d)) = length d" and t: "take (length d) (cf_data (tx_frame txid d)) = d"
    by (simp_all add: tx_frame_def can_chunk_dlc [OF d])
  let ?s1 = "s\<lparr>can_rx_frame_count := can_rx_frame_count s + 1,
     can_rx_byte_count := can_rx_byte_count s + int (length d),
     can_rx_monitor_count := to_int32 (can_rx_monitor_count s + 1)\<rparr>"
  from can_push [of rf ?s1 d k f] k(1,2) d0 obtain x where push: "rx_fifo_push_locked rf d ?s1 =
    (int k, ?s1\<lparr>can_rx_fifo := f, can_rx_overflow_flag := can_rx_overflow_flag s \<or> k < length d,
              can_fifo_dropped_bytes := x\<rparr>)" (is "_ = (_, ?s2)") by auto
  have round: "can_rx_round rf None (CanFrame (tx_frame txid d)) s = (RxGoOn,
      if 0 < k \<and> can_rx_semaphore s \<noteq> None
      then ?s2\<lparr>can_rx_semaphore := snd (post_handle None (can_rx_semaphore s))\<rparr> else ?s2)"
    using live d0 push post_handle_some [of "can_rx_semaphore s"]
    by (auto simp: can_rx_round_def u m t Let_def can_live_def)
  show ?thesis
    by (rule that [OF round k(2)]) (use live k in \<open>auto simp: can_live_def can_pending_def\<close>)
qed

lemma can_read_live:
  assumes "ringfifo_ok rf" "can_live s"
  shows "can_rx_overflow_flag s \<Longrightarrow>
      can_take rf n s = (Some DTERR_OVERFLOW, [], s\<lparr>can_rx_overflow_flag := False\<rparr>)"
    and "\<not> can_rx_overflow_flag s \<Longrightarrow> \<exists>f. rf_items rf f = drop n (can_pending rf s) \<and>
      can_take rf n s = (None, take n (can_pending rf s), s\<lparr>can_rx_fifo := f\<rparr>)"
proof -
  show "can_rx_overflow_flag s \<Longrightarrow>
      can_take rf n s = (Some DTERR_OVERFLOW, [], s\<lparr>can_rx_overflow_flag := False\<rparr>)"
    using assms by (simp add: can_take_def can_read_def can_live_def)
next
  assume "\<not> can_rx_overflow_flag s"
  moreover obtain f where "rf_pop rf (can_rx_fifo s) (int n) = (take n (can_pending rf s), f)"
      "rf_items rf f = drop n (can_pending rf s)"
    using pop_cases [OF assms(1), of "int n" "can_rx_fifo s"] unfolding can_pending_def by auto
  moreover have "s\<lparr>can_rx_fifo := can_rx_fifo s\<rparr> = s" by simp
  ultimately show "\<exists>f. rf_items rf f = drop n (can_pending rf s) \<and>
      can_take rf n s = (None, take n (can_pending rf s), s\<lparr>can_rx_fifo := f\<rparr>)"
    using assms(2)
    by (cases "n = 0")
      (auto simp: can_take_def can_read_def can_live_def rx_fifo_pop_locked_def can_pending_def)
qed

interpretation can_rx: rx_stream ringfifo_ok can_live can_chunk can_pending can_rx_overflow_flag can_arrive can_take
proof
  fix rf :: "'f ringfifo" and s :: "'f dtiox_linux_canbus_t" and d :: "byte list" and n :: nat
  assume rf: "ringfifo_ok rf" and live: "can_live s"
  {
    assume "can_chunk d"
    from can_round_frame [OF rf live this, of 1]
    show "can_live (can_arrive rf d s) \<and> (\<exists>k\<le>length d.
        can_pending rf (can_arrive rf d s) = can_pending rf s @ take k d \<and>
        can_rx_overflow_flag (can_arrive rf d s) = (can_rx_overflow_flag s \<or> k < length d))"
      unfolding can_arrive_def by (metis snd_conv)
  next
    assume "can_rx_overflow_flag s"
    with can_read_live(1) [OF rf live, of n] live
    show "\<exists>s'. can_take rf n s = (Some DTERR_OVERFLOW, [], s') \<and> can_live s' \<and>
        \<not> can_rx_overflow_flag s' \<and> can_pending rf s' = can_pending rf s"
      by (simp add: can_live_def can_pending_def)
  next
    assume "\<not> can_rx_overflow_flag s"
    with can_read_live(2) [OF rf live, of n] live
    show "\<exists>s'. can_take rf n s = (None, take n (can_pending rf s), s') \<and> can_live s' \<and>
        \<not> can_rx_overflow_flag s' \<and> can_pending rf s' = drop n (can_pending rf s)"
      by (auto simp: can_live_def can_pending_def)
  }
qed


text \<open>
  The receive path of a CAN device is a byte stream that reports its losses. Whatever frames
  arrive and whatever the caller reads, in any order, the bytes read are among those that
  arrived, in their order and none twice; and if no read reported an overflow and none is due,
  then nothing is lost: what was read and what waits in the FIFO is exactly what arrived.
\<close>

theorem can_stream:
  assumes "ringfifo_ok rf" "can_live s" "can_pending rf s = []"
    and "list_all (\<lambda>e. case e of Arrive d \<Rightarrow> can_chunk d | Read _ \<Rightarrow> True) es"
    and "rx_run (can_arrive rf) (can_take rf) es s = (errs, got, s')"
  shows "subseq (got @ can_pending rf s') (arrivals es) \<and>
    (errs = 0 \<and> \<not> can_rx_overflow_flag s' \<longrightarrow> got @ can_pending rf s' = arrivals es)"
  using can_rx.stream [OF assms(1,2,4,5)] assms(3) by simp_all

section \<open>Writing\<close>

lemma can_write_loop_frames:
  "can_write_loop txid rest ks = Some (e, fs, r) \<Longrightarrow>
     (\<exists>ds left. rest = concat ds @ left \<and> fs = map (tx_frame txid) ds \<and> list_all can_chunk ds \<and>
        (e = None \<longleftrightarrow> left = []) \<and> (left \<noteq> [] \<longrightarrow> list_all (\<lambda>d. length d = 8) ds))"
proof (induction txid rest ks arbitrary: fs rule: can_write_loop.induct)
  case (1 txid rest ks)
  show ?case
  proof (cases "rest = []")
    case True
    with "1.prems" show ?thesis by (intro exI [of _ "[]"]) (simp add: can_write_loop.simps)
  next
    case False
    with "1.prems" obtain a ks' where ks: "ks = a # ks'"
      by (cases ks) (simp_all add: can_write_loop.simps)
    show ?thesis
    proof (cases "a = CanSent sizeof_can_frame")
      case True
      then obtain fs' where rest: "can_write_loop txid (drop 8 rest) ks' = Some (e, fs', r)"
          and fs: "fs = tx_frame txid (take 8 rest) # fs'"
        using "1.prems" ks False by (auto simp: can_write_loop.simps [of txid rest])
      from "1.IH" [OF False ks _ _ rest] True obtain ds left where
        IH: "drop 8 rest = concat ds @ left" "fs' = map (tx_frame txid) ds" "list_all can_chunk ds"
          "e = None \<longleftrightarrow> left = []" "left \<noteq> [] \<longrightarrow> list_all (\<lambda>d. length d = 8) ds" by blast
      have "rest = concat (take 8 rest # ds) @ left"
        using IH(1) append_take_drop_id [of 8 rest] by simp
      moreover have "can_chunk (take 8 rest)" using False by (simp add: can_chunk_def)
      moreover have "left \<noteq> [] \<longrightarrow> length (take 8 rest) = 8"
        using IH(1) by (cases "8 \<le> length rest") simp_all
      ultimately show ?thesis
        using IH fs by (intro exI [of _ "take 8 rest # ds"] exI [of _ left]) simp
    next
      case fail: False
      then have "e = Some DTERR_FAIL" "fs = []"
        using "1.prems" ks False
        by (auto simp: can_write_loop.simps [of txid rest] split: can_send.splits if_splits)
      with False show ?thesis by (intro exI [of _ "[]"] exI [of _ rest]) simp
    qed
  qed
qed

lemma can_write_loop_sent:
  "length ks = (length rest + 7) div 8 \<Longrightarrow> set ks \<subseteq> {CanSent sizeof_can_frame} \<Longrightarrow>
     \<exists>fs. can_write_loop txid rest ks = Some (None, fs, [])"
proof (induction txid rest ks rule: can_write_loop.induct)
  case (1 txid rest ks)
  show ?case
  proof (cases "rest = []")
    case True
    with "1.prems" show ?thesis by (simp add: can_write_loop.simps)
  next
    case False
    then have "0 < length ks" using "1.prems"(1) by (cases rest) simp_all
    then obtain ks' where ks: "ks = CanSent sizeof_can_frame # ks'"
      using "1.prems"(2) by (cases ks) auto
    have "length ks' = (length (drop 8 rest) + 7) div 8"
      using "1.prems"(1) ks False by simp
    with "1.IH" [OF False ks refl] "1.prems"(2) ks False show ?thesis
      by (auto simp: can_write_loop.simps [of txid rest])
  qed
qed

lemma can_write_loop_count:
  "can_write_loop txid rest ks = Some (None, fs, r) \<Longrightarrow> length ks = length fs + length r"
proof (induction txid rest ks arbitrary: fs rule: can_write_loop.induct)
  case (1 txid rest ks)
  show ?case
  proof (cases "rest = []")
    case True
    with "1.prems" show ?thesis by (simp add: can_write_loop.simps)
  next
    case False
    with "1.prems" obtain ks' fs' where "ks = CanSent sizeof_can_frame # ks'"
      "can_write_loop txid (drop 8 rest) ks' = Some (None, fs', r)" "fs = tx_frame txid (take 8 rest) # fs'"
      by (auto simp: can_write_loop.simps [of txid rest] split: list.splits can_send.splits if_splits)
    with "1.IH" [OF False this(1) refl _ this(2)] show ?thesis by simp
  qed
qed

section \<open>From a writer to a reader\<close>

text \<open>The rounds of the receive task that take the frames off the bus.\<close>

definition can_deliver :: "'f ringfifo \<Rightarrow> can_frame list \<Rightarrow> 'f dtiox_linux_canbus_t \<Rightarrow> 'f dtiox_linux_canbus_t" where
  "can_deliver rf fs self = foldl (\<lambda>s f. snd (can_rx_round rf None (CanFrame f) s)) self fs"

lemma can_deliver_chunks:
  assumes "ringfifo_ok rf"
  shows "can_live s \<Longrightarrow> \<not> can_rx_overflow_flag s \<Longrightarrow> list_all can_chunk ds \<Longrightarrow>
    length (can_pending rf s) + length (concat ds) \<le> rf_capacity rf (can_rx_fifo s) \<Longrightarrow>
    (let s' = can_deliver rf (map (tx_frame txid) ds) s
     in can_live s' \<and> \<not> can_rx_overflow_flag s' \<and> can_pending rf s' = can_pending rf s @ concat ds)"
proof (induction ds arbitrary: s)
  case Nil
  then show ?case by (simp add: can_deliver_def)
next
  case (Cons d ds)
  obtain k s1 where s1: "can_rx_round rf None (CanFrame (tx_frame txid d)) s = (RxGoOn, s1)"
    "can_live s1" "can_pending rf s1 = can_pending rf s @ take k d"
    "can_rx_overflow_flag s1 \<longleftrightarrow> can_rx_overflow_flag s \<or> k < length d"
    "rf_capacity rf (can_rx_fifo s1) = rf_capacity rf (can_rx_fifo s)"
    "length (can_pending rf s) + length d \<le> rf_capacity rf (can_rx_fifo s) \<Longrightarrow> k = length d"
    using can_round_frame [OF assms Cons.prems(1), of d txid] Cons.prems(3) by simp metis
  moreover have "k = length d" using s1(6) Cons.prems(4) by simp
  ultimately show ?case
    using Cons.IH [of s1] Cons.prems by (simp add: can_deliver_def Let_def)
qed


text \<open>A device on the bounded list as its FIFO: attached, with a running task.\<close>

definition sample_can :: "(byte list \<times> nat) dtiox_linux_canbus_t" where
  "sample_can = (snd (can_init list_fifo 1 None None None))\<lparr>
     can_config := \<lparr>cc_interface_name = Some ''can0'', cc_txid = 5, cc_rx_ring_capacity = 16\<rparr>,
     can_sock_fd := 3, can_rx_tasker := Some running_tasker, can_rx_fifo := ([], 16)\<rparr>"

lemma sample_can_live: "can_live sample_can" "\<not> can_rx_overflow_flag sample_can"
    "can_pending list_fifo sample_can = []" "rf_capacity list_fifo (can_rx_fifo sample_can) = 16"
  by (simp_all add: can_live_def can_pending_def sample_can_def can_init_def get_info_handle_def
      dttasker_get_info_def running_tasker_def list_fifo_def Let_def)


theorem can_stream_witness:
  "case rx_run (can_arrive list_fifo) (can_take list_fifo) [Arrive [1, 2], Read 1] sample_can of
     (errs, got, s') \<Rightarrow> subseq (got @ can_pending list_fifo s') [1, 2]"
proof -
  let ?r = "rx_run (can_arrive list_fifo) (can_take list_fifo) [Arrive [1, 2], Read 1] sample_can"
  have "?r = (fst ?r, fst (snd ?r), snd (snd ?r))" by (simp only: prod.collapse)
  from can_stream [OF list_fifo_ok sample_can_live(1,3) _ this]
  show ?thesis by (simp add: can_chunk_def case_prod_unfold)
qed

end
