(* ===== verification/Tty.thy ===== *)
theory Tty
  imports Dtiox
begin

text \<open>
  \<open>dtmc_linux_library/src/dtiox_linux_tty.c\<close>: a byte stream over a serial line. The line settings
  of \<open>struct termios\<close>, the receive task with its exit path, and the operations. A round of the
  task and a read are atomic steps; the code has no lock between them. The formatting of the
  object as a text is left out.
\<close>

section \<open>Line settings\<close>

text \<open>The constants of dtmc_base that the code names; other values of the types take its else branches.\<close>

datatype dtuart_data_bits_t = DTUART_DATA_BITS_7 | DTUART_DATA_BITS_8 | DTUART_DATA_BITS_OTHER
datatype dtuart_parity_t = DTUART_PARITY_NONE | DTUART_PARITY_EVEN | DTUART_PARITY_ODD | DTUART_PARITY_OTHER
datatype dtuart_stopbits_t = DTUART_STOPBITS_1 | DTUART_STOPBITS_2 | DTUART_STOPBITS_OTHER
datatype dtuart_flow_t = DTUART_FLOW_NONE | DTUART_FLOW_RTSCTS | DTUART_FLOW_OTHER

record dtuart_helper_config_t =
  uc_baudrate :: int
  uc_parity :: dtuart_parity_t
  uc_data_bits :: dtuart_data_bits_t
  uc_stop_bits :: dtuart_stopbits_t
  uc_flow :: dtuart_flow_t

datatype speed_t = B9600 | B19200 | B38400 | B57600 | B115200 | B230400 | B460800 | B921600

datatype csize = CS5 | CS6 | CS7 | CS8

text \<open>The fields of \<open>struct termios\<close> that the code sets; \<open>tio_raw\<close>: as \<open>cfmakeraw\<close> leaves it.\<close>

record termios =
  tio_raw :: bool
  tio_ispeed :: speed_t
  tio_ospeed :: speed_t
  tio_csize :: csize
  tio_parenb :: bool
  tio_parodd :: bool
  tio_cstopb :: bool
  tio_crtscts :: bool
  tio_clocal :: bool
  tio_cread :: bool
  tio_vmin :: nat
  tio_vtime :: nat

definition map_baud :: "int \<Rightarrow> speed_t" where
  "map_baud baud =
     (if baud = 9600 then B9600 else if baud = 19200 then B19200
      else if baud = 38400 then B38400 else if baud = 57600 then B57600
      else if baud = 115200 then B115200 else if baud = 230400 then B230400
      else if baud = 460800 then B460800 else if baud = 921600 then B921600
      else B115200)"

definition apply_data_bits :: "termios \<Rightarrow> dtuart_data_bits_t \<Rightarrow> termios" where
  "apply_data_bits tio b = tio\<lparr>tio_csize := (if b = DTUART_DATA_BITS_7 then CS7 else CS8)\<rparr>"

definition apply_parity :: "termios \<Rightarrow> dtuart_parity_t \<Rightarrow> termios" where
  "apply_parity tio p =
     (let t = tio\<lparr>tio_parenb := False, tio_parodd := False\<rparr> in
      if p = DTUART_PARITY_EVEN then t\<lparr>tio_parenb := True\<rparr>
      else if p = DTUART_PARITY_ODD then t\<lparr>tio_parenb := True, tio_parodd := True\<rparr>
      else t)"

definition apply_stop_bits :: "termios \<Rightarrow> dtuart_stopbits_t \<Rightarrow> termios" where
  "apply_stop_bits tio sb = tio\<lparr>tio_cstopb := (sb = DTUART_STOPBITS_2)\<rparr>"

definition apply_flow :: "termios \<Rightarrow> dtuart_flow_t \<Rightarrow> termios" where
  "apply_flow tio f = tio\<lparr>tio_crtscts := (f = DTUART_FLOW_RTSCTS)\<rparr>"

text \<open>What attach makes of the settings it gets from \<open>tcgetattr\<close>.\<close>

definition tty_line_settings :: "dtuart_helper_config_t \<Rightarrow> termios \<Rightarrow> termios" where
  "tty_line_settings cfg tio =
     (let t1 = tio\<lparr>tio_raw := True, tio_csize := CS8, tio_parenb := False\<rparr>;
          t2 = t1\<lparr>tio_ispeed := map_baud (uc_baudrate cfg), tio_ospeed := map_baud (uc_baudrate cfg)\<rparr>;
          t3 = apply_flow (apply_stop_bits (apply_parity (apply_data_bits t2 (uc_data_bits cfg))
                 (uc_parity cfg)) (uc_stop_bits cfg)) (uc_flow cfg)
      in t3\<lparr>tio_clocal := True, tio_cread := True, tio_vmin := 0, tio_vtime := 1\<rparr>)"

section \<open>The object\<close>

record tty_config =
  tc_device_path :: "string option"
  tc_uart_config :: dtuart_helper_config_t
  tc_rx_fifo_capacity :: int

record 'f dtiox_linux_tty_t =
  tty_model_number :: int
  tty_is_malloced :: bool
  tty_config :: tty_config
  tty_fd :: fd
  tty_rx_tasker :: "dttasker_t option"
  tty_rx_thread_running :: bool
  tty_rx_fifo :: 'f
  tty_rx_fifo_storage :: bool
  tty_fifo_dropped_bytes :: int
  tty_rx_overflow_flag :: bool
  tty_rx_enabled :: bool
  tty_rx_thread_failed :: bool
  tty_device_gone :: bool
  tty_rx_errno :: "errno option"
  tty_rx_byte_count :: int
  tty_rx_read_calls :: int
  tty_tx_byte_count :: int
  tty_tx_write_calls :: int
  tty_rx_semaphore :: "dtsemaphore_linux_t option"

text \<open>The clamped counters.\<close>

definition INT64_MAX :: int where "INT64_MAX = 9223372036854775807"

definition inc32 :: "int \<Rightarrow> int" where
  "inc32 v = (if v < INT32_MAX then v + 1 else v)"

definition add64 :: "int \<Rightarrow> int \<Rightarrow> int" where
  "add64 v delta =
     (if delta < 0 then v else if INT64_MAX - delta < v then INT64_MAX else v + delta)"

section \<open>The receive task\<close>

text \<open>
  What a round of the task sees: \<open>poll\<close> fails, times out, or reports events (POLLNVAL, POLLHUP
  or POLLERR, POLLIN), and what \<open>read\<close> then answers.
\<close>

datatype tty_read = TtyData "byte list" | TtyErr errno

datatype tty_poll =
    PollErr errno | PollTimeout
  | PollEvents (nval: bool) (hup_or_err: bool) "tty_read option"

definition tty_fail :: "errno \<Rightarrow> bool \<Rightarrow> 'f dtiox_linux_tty_t \<Rightarrow> rx_outcome \<times> 'f dtiox_linux_tty_t" where
  "tty_fail e is_gone self =
     (RxExit (Some DTERR_IO),
      self\<lparr>tty_rx_errno := Some e, tty_rx_thread_failed := True,
           tty_device_gone := is_gone \<or> tty_device_gone self\<rparr>)"

text \<open>The bytes of a successful \<open>read\<close> go to the FIFO.\<close>

definition tty_rx_data ::
  "'f ringfifo \<Rightarrow> errno option \<Rightarrow> byte list \<Rightarrow> 'f dtiox_linux_tty_t \<Rightarrow> rx_outcome \<times> 'f dtiox_linux_tty_t" where
  "tty_rx_data rf rc d self =
     (if d = [] then (RxGoOn, self)
      else
        let self1 = self\<lparr>tty_rx_byte_count := add64 (tty_rx_byte_count self) (int (length d))\<rparr> in
        if \<not> tty_rx_enabled self1 then (RxGoOn, self1)
        else
          (case rf_push rf (tty_rx_fifo self1) d of
             (pushed, f) \<Rightarrow>
               let dropped = int (length d) - pushed;
                   self2 = self1\<lparr>tty_rx_fifo := f\<rparr> in
               if 0 < dropped
               then (RxGoOn, self2\<lparr>tty_rx_overflow_flag := True,
                       tty_fifo_dropped_bytes := add_dropped (tty_fifo_dropped_bytes self) dropped\<rparr>)
               else if tty_rx_semaphore self2 \<noteq> None
               then (case post_handle rc (tty_rx_semaphore self2) of
                       (e, sem) \<Rightarrow> (case e of None \<Rightarrow> RxGoOn | Some _ \<Rightarrow> RxExit e,
                                     self2\<lparr>tty_rx_semaphore := sem\<rparr>))
               else (RxGoOn, self2)))"

definition tty_rx_round ::
  "'f ringfifo \<Rightarrow> errno option \<Rightarrow> tty_poll \<Rightarrow> 'f dtiox_linux_tty_t \<Rightarrow> rx_outcome \<times> 'f dtiox_linux_tty_t" where
  "tty_rx_round rf rc p self =
     (case p of
        PollErr e \<Rightarrow> if e = EINTR then (RxGoOn, self) else tty_fail e False self
      | PollTimeout \<Rightarrow> (RxGoOn, self)
      | PollEvents nv hup inp \<Rightarrow>
          if nv then tty_fail EBADF True self
          else if hup then tty_fail EIO True self
          else (case inp of
                  None \<Rightarrow> (RxGoOn, self)
                | Some (TtyErr e) \<Rightarrow>
                    if e = EINTR then (RxGoOn, self) else tty_fail e (e = EIO \<or> e = ENODEV \<or> e = EBADF) self
                | Some (TtyData d) \<Rightarrow> tty_rx_data rf rc d self))"

fun tty_rx_loop ::
  "'f ringfifo \<Rightarrow> (errno option \<times> tty_poll) list \<Rightarrow> 'f dtiox_linux_tty_t \<Rightarrow> (dterr \<times> 'f dtiox_linux_tty_t) option" where
  "tty_rx_loop rf [] self = None"
| "tty_rx_loop rf ((rc, p) # ps) self =
     (case tty_rx_round rf rc p self of
        (RxGoOn, self') \<Rightarrow> tty_rx_loop rf ps self'
      | (RxExit e, self') \<Rightarrow> Some (e, self'))"

text \<open>
  From the label \<open>cleanup\<close>: the post is under \<open>DTERR_C\<close>, which jumps back to the same label when
  it fails. \<open>rcs i\<close> is what the mutex of the semaphore answers the \<open>i\<close>th time. The result of the
  task is then what the post returned.
\<close>

partial_function (option) tty_rx_cleanup ::
  "(nat \<Rightarrow> errno option) \<Rightarrow> nat \<Rightarrow> 'f dtiox_linux_tty_t \<Rightarrow> (dterr \<times> 'f dtiox_linux_tty_t) option" where
  "tty_rx_cleanup rcs i self =
     (let self1 = self\<lparr>tty_rx_thread_running := False\<rparr> in
      case post_handle (rcs i) (tty_rx_semaphore self1) of
        (e, sem) \<Rightarrow>
          if e \<noteq> None then tty_rx_cleanup rcs (i + 1) (self1\<lparr>tty_rx_semaphore := sem\<rparr>)
          else Some (e, self1\<lparr>tty_rx_semaphore := sem\<rparr>))"

definition tty_rx_task ::
  "'f ringfifo \<Rightarrow> dterr \<Rightarrow> (errno option \<times> tty_poll) list \<Rightarrow> (nat \<Rightarrow> errno option) \<Rightarrow> 'f dtiox_linux_tty_t
     \<Rightarrow> (dterr \<times> 'f dtiox_linux_tty_t) option" where
  "tty_rx_task rf ready ps rcs self =
     (if ready \<noteq> None then tty_rx_cleanup rcs 0 self
      else (case tty_rx_loop rf ps (self\<lparr>tty_rx_thread_running := True\<rparr>) of
              None \<Rightarrow> None
            | Some (_, self') \<Rightarrow> tty_rx_cleanup rcs 0 self'))"

section \<open>The operations\<close>

definition tty_init :: "'f ringfifo \<Rightarrow> int \<Rightarrow> dtuart_helper_config_t \<Rightarrow> dterr \<Rightarrow> dterr \<Rightarrow> dterr \<times> 'f dtiox_linux_tty_t" where
  "tty_init rf model zero_uart reg1 reg2 =
     (if fst (rf_init rf) \<noteq> None then fst (rf_init rf) else if reg1 \<noteq> None then reg1 else reg2,
      \<lparr>tty_model_number = model, tty_is_malloced = False,
       tty_config = \<lparr>tc_device_path = None, tc_uart_config = zero_uart, tc_rx_fifo_capacity = 0\<rparr>,
       tty_fd = -1, tty_rx_tasker = None, tty_rx_thread_running = False,
       tty_rx_fifo = snd (rf_init rf), tty_rx_fifo_storage = False, tty_fifo_dropped_bytes = 0,
       tty_rx_overflow_flag = False, tty_rx_enabled = True, tty_rx_thread_failed = False,
       tty_device_gone = False, tty_rx_errno = None, tty_rx_byte_count = 0, tty_rx_read_calls = 0,
       tty_tx_byte_count = 0, tty_tx_write_calls = 0, tty_rx_semaphore = None\<rparr>)"

definition tty_create ::
  "bool \<Rightarrow> 'f ringfifo \<Rightarrow> int \<Rightarrow> dtuart_helper_config_t \<Rightarrow> dterr \<Rightarrow> dterr \<Rightarrow> dterr \<times> 'f dtiox_linux_tty_t option" where
  "tty_create malloc_ok rf model zero_uart reg1 reg2 =
     (if \<not> malloc_ok then (Some DTERR_NOMEM, None)
      else (case tty_init rf model zero_uart reg1 reg2 of
              (Some e, _) \<Rightarrow> (Some e, None)
            | (None, self) \<Rightarrow> (None, Some (self\<lparr>tty_is_malloced := True\<rparr>))))"

text \<open>\<open>alloc\<close>: the answer of \<open>dtheaper_alloc\<close>.\<close>

definition tty_configure ::
  "'f ringfifo \<Rightarrow> dterr \<Rightarrow> 'f dtiox_linux_tty_t \<Rightarrow> tty_config \<Rightarrow> dterr \<times> 'f dtiox_linux_tty_t" where
  "tty_configure rf alloc self cfg =
     (if tc_device_path cfg = None then (Some DTERR_ASSERT, self)
      else
        let cfg1 = (if tc_rx_fifo_capacity cfg \<le> 0 then cfg\<lparr>tc_rx_fifo_capacity := 4096\<rparr> else cfg);
            self1 = self\<lparr>tty_config := cfg1\<rparr> in
        if alloc \<noteq> None then (alloc, self1)
        else (case rf_configure rf (tc_rx_fifo_capacity cfg1) (tty_rx_fifo self1) of
                (e, f) \<Rightarrow> (e, self1\<lparr>tty_rx_fifo_storage := True, tty_rx_fifo := f\<rparr>)))"

text \<open>
  The answers of \<open>open\<close>, \<open>tcgetattr\<close> (its settings) and \<open>tcsetattr\<close>. The \<open>fcntl\<close> calls cannot
  fail the attach and are left out.
\<close>

record tty_attach_env =
  ty_open :: fd
  ty_getattr :: "termios option"
  ty_setattr_ok :: bool
  ty_task :: task_env

text \<open>The error, the object, the settings given to the line, and the open descriptors.\<close>

definition tty_attach ::
  "tty_attach_env \<Rightarrow> 'f dtiox_linux_tty_t \<Rightarrow> fd list \<Rightarrow> dterr \<times> 'f dtiox_linux_tty_t \<times> termios option \<times> fd list" where
  "tty_attach env self fds =
     (let fd = ty_open env in
      if 0 \<le> tty_fd self then (None, self, None, fds)
      else if fd < 0 then (Some DTERR_IO, self, None, fds)
      else (case ty_getattr env of
              None \<Rightarrow> (Some DTERR_IO, self, None, removeAll fd (fd # fds))
            | Some tio \<Rightarrow>
                let tio' = tty_line_settings (tc_uart_config (tty_config self)) tio;
                    self1 = self\<lparr>tty_fd := fd\<rparr> in
                if \<not> ty_setattr_ok env then (Some DTERR_IO, self, None, removeAll fd (fd # fds))
                else (case ta_create (ty_task env) of
                        Inl e \<Rightarrow> (Some e, self1, Some tio', fd # fds)
                      | Inr t \<Rightarrow>
                          (case ta_start (ty_task env) of
                             Inl e \<Rightarrow> (Some e, self1\<lparr>tty_rx_tasker := Some t\<rparr>, Some tio', fd # fds)
                           | Inr t' \<Rightarrow> (None, self1\<lparr>tty_rx_tasker := Some t'\<rparr>, Some tio', fd # fds)))))"

definition tty_detach :: "'f dtiox_linux_tty_t \<Rightarrow> fd list \<Rightarrow> dterr \<times> 'f dtiox_linux_tty_t \<times> fd list" where
  "tty_detach self fds =
     (case close_if_open (tty_fd self) fds of (fd, fds') \<Rightarrow> (None, self\<lparr>tty_fd := fd\<rparr>, fds'))"

definition tty_enable :: "'f ringfifo \<Rightarrow> 'f dtiox_linux_tty_t option \<Rightarrow> bool \<Rightarrow> dterr \<times> 'f dtiox_linux_tty_t option" where
  "tty_enable rf self enabled =
     (case self of
        None \<Rightarrow> (Some DTERR_BADARG, None)
      | Some s \<Rightarrow>
          (None, Some (s\<lparr>tty_rx_enabled := enabled, tty_rx_fifo := rf_reset rf (tty_rx_fifo s),
             tty_fifo_dropped_bytes := 0, tty_rx_overflow_flag := False, tty_rx_byte_count := 0,
             tty_rx_read_calls := 0, tty_tx_byte_count := 0, tty_tx_write_calls := 0,
             tty_device_gone := False, tty_rx_thread_failed := False, tty_rx_errno := None\<rparr>)))"

definition tty_read ::
  "'f ringfifo \<Rightarrow> 'f dtiox_linux_tty_t \<Rightarrow> int \<Rightarrow> dterr \<times> byte list \<times> 'f dtiox_linux_tty_t" where
  "tty_read rf self0 buf_len =
     (let self = self0\<lparr>tty_rx_read_calls := inc32 (tty_rx_read_calls self0)\<rparr> in
      if tty_rx_thread_failed self
      then (let self1 = self\<lparr>tty_rx_thread_failed := False\<rparr> in
            if tty_device_gone self1 then (Some DTERR_IO, [], self1\<lparr>tty_device_gone := False\<rparr>)
            else (Some DTERR_IO, [], self1))
      else if tty_rx_overflow_flag self
      then (Some DTERR_OVERFLOW, [], self\<lparr>tty_rx_overflow_flag := False\<rparr>)
      else (case rf_pop rf (tty_rx_fifo self) buf_len of
              (d, f) \<Rightarrow> (None, d, self\<lparr>tty_rx_fifo := f\<rparr>)))"

text \<open>
  The loop of \<open>dtiox_linux_tty_write\<close> over what is left of the buffer; the counter is that of the
  bytes sent. A \<open>write\<close> that returns 0 is tried again.
\<close>

fun tty_write_loop :: "byte list \<Rightarrow> send_result list \<Rightarrow> sink_result" where
  "tty_write_loop [] ks = Some (None, [], ks)"
| "tty_write_loop (b # buf) [] = None"
| "tty_write_loop (b # buf) (Sent n # ks) =
     (case tty_write_loop (drop n (b # buf)) ks of
        None \<Rightarrow> None
      | Some (e, out, ks') \<Rightarrow> Some (e, take n (b # buf) @ out, ks'))"
| "tty_write_loop (b # buf) (SendErr e # ks) =
     (if e = EINTR then tty_write_loop (b # buf) ks else Some (Some DTERR_IO, [], ks))"

text \<open>The error, the object, \<open>*out_written\<close>, the bytes on the line.\<close>

definition tty_write ::
  "'f dtiox_linux_tty_t \<Rightarrow> byte list \<Rightarrow> int \<Rightarrow> send_result list
     \<Rightarrow> (dterr \<times> 'f dtiox_linux_tty_t \<times> int \<times> byte list) option" where
  "tty_write self0 buf len ks =
     (let self = self0\<lparr>tty_tx_write_calls := inc32 (tty_tx_write_calls self0)\<rparr> in
      if tty_fd self < 0 then Some (Some DTERR_IO, self, 0, [])
      else if int (length buf) < len then None
      else (case tty_write_loop (take (nat len) buf) ks of
              None \<Rightarrow> None
            | Some (e, out, _) \<Rightarrow>
                let self1 = self\<lparr>tty_tx_byte_count := add64 (tty_tx_byte_count self) (int (length out))\<rparr> in
                Some (e, self1, if e = None then len else 0, out)))"

definition tty_set_rx_semaphore ::
  "'f dtiox_linux_tty_t \<Rightarrow> dtsemaphore_linux_t option \<Rightarrow> dterr \<times> 'f dtiox_linux_tty_t" where
  "tty_set_rx_semaphore self sem = (None, self\<lparr>tty_rx_semaphore := sem\<rparr>)"

definition tty_dispose :: "'f dtiox_linux_tty_t option \<Rightarrow> fd list \<Rightarrow> 'f dtiox_linux_tty_t option \<times> fd list" where
  "tty_dispose self fds =
     (case self of
        None \<Rightarrow> (None, fds)
      | Some s \<Rightarrow>
          (case close_if_open (tty_fd s) fds of (fd, fds') \<Rightarrow> (Some (s\<lparr>tty_fd := fd\<rparr>), fds')))"

text \<open>\<open>None\<close>: \<open>strcmp\<close> on a NULL path.\<close>

definition tty_equals :: "'f dtiox_linux_tty_t option \<Rightarrow> 'f dtiox_linux_tty_t option \<Rightarrow> bool option" where
  "tty_equals a b =
     (case (a, b) of
        (Some x, Some y) \<Rightarrow>
          if tty_model_number x \<noteq> tty_model_number y then Some False
          else (case (tc_device_path (tty_config x), tc_device_path (tty_config y)) of
                  (Some p, Some q) \<Rightarrow>
                    Some (p = q \<and> tc_uart_config (tty_config x) = tc_uart_config (tty_config y))
                | _ \<Rightarrow> None)
      | _ \<Rightarrow> Some False)"


section \<open>The receive path is a stream\<close>

definition tty_live :: "'f dtiox_linux_tty_t \<Rightarrow> bool" where
  "tty_live self \<longleftrightarrow> tty_rx_enabled self \<and> \<not> tty_rx_thread_failed self"

definition tty_chunk :: "byte list \<Rightarrow> bool" where
  "tty_chunk d \<longleftrightarrow> d \<noteq> [] \<and> length d \<le> 256"

definition tty_pending :: "'f ringfifo \<Rightarrow> 'f dtiox_linux_tty_t \<Rightarrow> byte list" where
  "tty_pending rf self = rf_items rf (tty_rx_fifo self)"

text \<open>A round that reads \<open>d\<close> from the line, and a read into \<open>n\<close> bytes.\<close>

definition tty_arrive :: "'f ringfifo \<Rightarrow> byte list \<Rightarrow> 'f dtiox_linux_tty_t \<Rightarrow> 'f dtiox_linux_tty_t" where
  "tty_arrive rf d self = snd (tty_rx_round rf None (PollEvents False False (Some (TtyData d))) self)"

definition tty_take :: "'f ringfifo \<Rightarrow> nat \<Rightarrow> 'f dtiox_linux_tty_t \<Rightarrow> dterr \<times> byte list \<times> 'f dtiox_linux_tty_t" where
  "tty_take rf n self = tty_read rf self (int n)"

text \<open>What a round does with data; \<open>k\<close> bytes fit.\<close>

lemma tty_round_data:
  assumes push: "rf_push rf (tty_rx_fifo s) d = (int k, f)" "k \<le> length d"
    and d: "d \<noteq> []" and en: "tty_rx_enabled s"
  shows "\<exists>x y sem. tty_rx_round rf None (PollEvents False False (Some (TtyData d))) s =
    (RxGoOn, s\<lparr>tty_rx_byte_count := y, tty_rx_fifo := f,
       tty_rx_overflow_flag := tty_rx_overflow_flag s \<or> k < length d,
       tty_fifo_dropped_bytes := x, tty_rx_semaphore := sem\<rparr>) \<and>
    (k < length d \<or> tty_rx_semaphore s = None \<longrightarrow> sem = tty_rx_semaphore s) \<and>
    (k = length d \<longrightarrow> sem = snd (post_handle None (tty_rx_semaphore s)))"
proof (cases "k < length d")
  case True
  with push d en show ?thesis
    by (cases s) (simp add: tty_rx_round_def tty_rx_data_def Let_def)
next
  case False
  then have k: "k = length d" using push(2) by simp
  have "\<exists>y. tty_rx_round rf None (PollEvents False False (Some (TtyData d))) s =
     (RxGoOn, s\<lparr>tty_rx_byte_count := y, tty_rx_fifo := f,
        tty_rx_semaphore := snd (post_handle None (tty_rx_semaphore s))\<rparr>)"
    using push d en k
    by (cases s; cases "tty_rx_semaphore s")
      (auto simp: tty_rx_round_def tty_rx_data_def post_handle_def dtsemaphore_post_def Let_def)
  then obtain y where y: "tty_rx_round rf None (PollEvents False False (Some (TtyData d))) s =
     (RxGoOn, s\<lparr>tty_rx_byte_count := y, tty_rx_fifo := f,
        tty_rx_semaphore := snd (post_handle None (tty_rx_semaphore s))\<rparr>)" by blast
  show ?thesis
    unfolding y using k
    by (intro exI [of _ "tty_fifo_dropped_bytes s"] exI [of _ y]
          exI [of _ "snd (post_handle None (tty_rx_semaphore s))"], cases s)
      (auto simp: post_handle_def)
qed

interpretation tty_rx: rx_stream ringfifo_ok tty_live tty_chunk tty_pending tty_rx_overflow_flag tty_arrive tty_take
proof
  fix rf :: "'f ringfifo" and s :: "'f dtiox_linux_tty_t" and d :: "byte list" and n :: nat
  assume rf: "ringfifo_ok rf" and live: "tty_live s"
  {
    assume d: "tty_chunk d"
    obtain k f where k: "rf_push rf (tty_rx_fifo s) d = (int k, f)" "k \<le> length d"
      "rf_items rf f = rf_items rf (tty_rx_fifo s) @ take k d"
      using push_cases [OF rf, of "tty_rx_fifo s" d] by metis
    from tty_round_data [OF k(1,2)] d live obtain x y sem where
      "tty_rx_round rf None (PollEvents False False (Some (TtyData d))) s =
       (RxGoOn, s\<lparr>tty_rx_byte_count := y, tty_rx_fifo := f,
       tty_rx_overflow_flag := tty_rx_overflow_flag s \<or> k < length d,
       tty_fifo_dropped_bytes := x, tty_rx_semaphore := sem\<rparr>)"
      unfolding tty_chunk_def tty_live_def by blast
    then show "tty_live (tty_arrive rf d s) \<and> (\<exists>k\<le>length d.
        tty_pending rf (tty_arrive rf d s) = tty_pending rf s @ take k d \<and>
        tty_rx_overflow_flag (tty_arrive rf d s) = (tty_rx_overflow_flag s \<or> k < length d))"
      using k live by (auto simp: tty_arrive_def tty_live_def tty_pending_def)
  next
    assume "tty_rx_overflow_flag s"
    with live show "\<exists>s'. tty_take rf n s = (Some DTERR_OVERFLOW, [], s') \<and> tty_live s' \<and>
        \<not> tty_rx_overflow_flag s' \<and> tty_pending rf s' = tty_pending rf s"
      by (simp add: tty_take_def tty_read_def tty_live_def tty_pending_def Let_def)
  next
    assume "\<not> tty_rx_overflow_flag s"
    moreover obtain f where "rf_pop rf (tty_rx_fifo s) (int n) = (take n (tty_pending rf s), f)"
        "rf_items rf f = drop n (tty_pending rf s)"
      using pop_cases [OF rf, of "int n" "tty_rx_fifo s"] unfolding tty_pending_def by auto
    ultimately show "\<exists>s'. tty_take rf n s = (None, take n (tty_pending rf s), s') \<and> tty_live s' \<and>
        \<not> tty_rx_overflow_flag s' \<and> tty_pending rf s' = drop n (tty_pending rf s)"
      using live by (simp add: tty_take_def tty_read_def tty_live_def tty_pending_def Let_def)
  }
qed


section \<open>The end of the receive task\<close>

lemma tty_round_semaphore:
  "tty_rx_round rf rc p s = (r, s') \<Longrightarrow> tty_rx_semaphore s' = None \<longleftrightarrow> tty_rx_semaphore s = None"
  by (auto simp: tty_rx_round_def tty_fail_def tty_rx_data_def post_handle_def Let_def
      split: tty_poll.splits tty_read.splits option.splits prod.splits if_splits)

lemma tty_loop_semaphore:
  "tty_rx_loop rf ps s = Some (e, s') \<Longrightarrow> tty_rx_semaphore s' = None \<longleftrightarrow> tty_rx_semaphore s = None"
  by (induction rf ps s rule: tty_rx_loop.induct)
    (auto split: prod.splits rx_outcome.splits dest: tty_round_semaphore)

lemma tty_cleanup_returns:
  assumes "tty_rx_cleanup rcs i self = Some r"
  shows "tty_rx_semaphore self \<noteq> None \<and> (\<exists>j\<ge>i. rcs j = None) \<and> fst r = None"
proof (rule tty_rx_cleanup.raw_induct [where P = "\<lambda>rcs i self r.
    tty_rx_semaphore self \<noteq> None \<and> (\<exists>j\<ge>i. rcs j = None) \<and> fst r = None", OF _ assms], goal_cases)
  case step: (1 f rcs i self r)
  let ?next = "\<lambda>sem. self\<lparr>tty_rx_thread_running := False, tty_rx_semaphore := sem\<rparr>"
  show ?case
  proof (cases "tty_rx_semaphore self")
    case None
    with step(2) have "f rcs (i + 1) (?next None) = Some r" by (simp add: post_handle_def Let_def)
    from step(1) [OF this] show ?thesis by simp
  next
    case (Some s)
    show ?thesis
    proof (cases "rcs i")
      case None
      have "r = (None, ?next (Some (fst (snd (dtsemaphore_post None s)))))"
        using step(2) Some None by (simp add: post_handle_def dtsemaphore_post_def Let_def split: if_splits)
      then show ?thesis using Some None by auto
    next
      case fail: (Some e)
      have "f rcs (i + 1) (?next (Some s)) = Some r"
        using step(2) Some fail by (simp add: post_handle_def dtsemaphore_post_def Let_def)
      from step(1) [OF this] obtain j where "i + 1 \<le> j" "rcs j = None" "fst r = None" by blast
      then have "i \<le> j \<and> rcs j = None" by simp
      then show ?thesis using Some \<open>fst r = None\<close> by blast
    qed
  qed
qed

lemma tty_cleanup_terminates:
  "tty_rx_semaphore self = Some s \<Longrightarrow> rcs j = None \<Longrightarrow> i \<le> j \<Longrightarrow>
     \<exists>sem. tty_rx_cleanup rcs i self = Some (None, self\<lparr>tty_rx_thread_running := False, tty_rx_semaphore := Some sem\<rparr>)"
proof (induction "j - i" arbitrary: i self)
  case (0 i)
  then have "rcs i = None" by simp
  with 0 show ?case
    by (subst tty_rx_cleanup.simps) (auto simp: post_handle_def dtsemaphore_post_def Let_def)
next
  case (Suc n i)
  show ?case
  proof (cases "rcs i")
    case None
    with Suc show ?thesis
      by (subst tty_rx_cleanup.simps) (auto simp: post_handle_def dtsemaphore_post_def Let_def)
  next
    case (Some e)
    have "n = j - (i + 1)" "i + 1 \<le> j" using Suc.hyps(2) by simp_all
    with Suc.hyps(1) [of "i + 1" "self\<lparr>tty_rx_thread_running := False, tty_rx_semaphore := Some s\<rparr>"] Suc.prems
    obtain sem where "tty_rx_cleanup rcs (i + 1) (self\<lparr>tty_rx_thread_running := False, tty_rx_semaphore := Some s\<rparr>) =
        Some (None, self\<lparr>tty_rx_thread_running := False, tty_rx_semaphore := Some sem\<rparr>)" by auto
    with Some Suc.prems(1) show ?thesis
      by (subst tty_rx_cleanup.simps) (auto simp: post_handle_def dtsemaphore_post_def Let_def)
  qed
qed


text \<open>A device on the bounded list as its FIFO: attached, without a receive semaphore.\<close>

definition sample_uart :: dtuart_helper_config_t where
  "sample_uart = \<lparr>uc_baudrate = 9600, uc_parity = DTUART_PARITY_NONE, uc_data_bits = DTUART_DATA_BITS_8,
     uc_stop_bits = DTUART_STOPBITS_1, uc_flow = DTUART_FLOW_NONE\<rparr>"

definition sample_tty :: "(byte list \<times> nat) dtiox_linux_tty_t" where
  "sample_tty = (snd (tty_init list_fifo 1 sample_uart None None))
     \<lparr>tty_fd := 3, tty_rx_tasker := Some running_tasker, tty_rx_fifo := ([], 4)\<rparr>"


section \<open>Writing\<close>

lemma tty_write_ok: "tty_write_loop buf ks = Some (None, out, ks') \<Longrightarrow> out = buf"
proof (induction buf ks arbitrary: out rule: tty_write_loop.induct)
  case (3 b buf n ks)
  then obtain o1 where o: "tty_write_loop (drop n (b # buf)) ks = Some (None, o1, ks')"
    and out: "out = take n (b # buf) @ o1" by (auto split: option.splits)
  from "3.IH" [OF o] show ?case unfolding out by (simp only: append_take_drop_id)
qed (auto split: if_splits)

lemma tty_write_err:
  "tty_write_loop buf ks = Some (Some e, out, ks') \<Longrightarrow>
     e = DTERR_IO \<and> (\<exists>rest. rest \<noteq> [] \<and> buf = out @ rest)"
proof (induction buf ks arbitrary: out rule: tty_write_loop.induct)
  case (3 b buf n ks)
  then obtain o1 where o: "tty_write_loop (drop n (b # buf)) ks = Some (Some e, o1, ks')"
    and out: "out = take n (b # buf) @ o1" by (auto split: option.splits)
  from "3.IH" [OF o] obtain rest where "e = DTERR_IO" "rest \<noteq> []" "drop n (b # buf) = o1 @ rest" by blast
  then show ?case
    unfolding out by (metis append.assoc append_take_drop_id)
qed (auto split: if_splits)

lemma tty_write_takes:
  "kernel_takes ks (length buf) = Some ks' \<Longrightarrow> tty_write_loop buf ks = Some (None, buf, ks')"
proof (induction buf ks rule: tty_write_loop.induct)
  case (3 b buf n ks)
  then have "kernel_takes ks (length (drop n (b # buf))) = Some ks'" by (auto split: if_splits)
  with "3.IH" show ?case by simp
qed (auto split: if_splits)

interpretation tty_sink: byte_sink tty_write_loop
  by unfold_locales (fact tty_write_ok tty_write_err tty_write_takes)+

text \<open>
  A write on an attached line puts out exactly the bytes it reports. Success means all of
  the buffer, in order; a failure means an I/O error, \<open>*out_written\<close> 0 and a proper prefix on the
  line. A negative length is a success that reports itself, a negative number of bytes written.
\<close>

theorem tty_write_result:
  assumes "0 \<le> tty_fd self" and "len \<le> int (length buf)"
    and "tty_write self buf len ks = Some (e, self', n, out)"
  shows "(e = None \<longrightarrow> n = len \<and> out = take (nat len) buf) \<and>
    (e \<noteq> None \<longrightarrow> e = Some DTERR_IO \<and> n = 0 \<and> (\<exists>rest. rest \<noteq> [] \<and> take (nat len) buf = out @ rest)) \<and>
    (len < 0 \<longrightarrow> e = None \<and> n < 0 \<and> out = [])"
proof -
  obtain r where loop: "tty_write_loop (take (nat len) buf) ks = Some (e, out, r)" and n: "n = (if e = None then len else 0)"
    using assms by (auto simp: tty_write_def Let_def split: option.splits)
  show ?thesis
  proof (cases e)
    case None
    with tty_sink.sink_ok [of "take (nat len) buf" ks out r] loop n show ?thesis by simp
  next
    case (Some x)
    with tty_sink.sink_err [of "take (nat len) buf" ks x out r] loop n
    have "x = DTERR_IO \<and> (\<exists>rest. rest \<noteq> [] \<and> take (nat len) buf = out @ rest)" by simp
    moreover from this have "\<not> len < 0" by auto
    ultimately show ?thesis using Some n by simp
  qed
qed

theorem tty_write_result_witness:
  "\<exists>rest. rest \<noteq> [] \<and> take (nat 2) [7, 8 :: byte] = [7] @ rest"
proof -
  have w: "tty_write sample_tty [7, 8] 2 [Sent 1, SendErr EIO] = Some (Some DTERR_IO, sample_tty\<lparr>
      tty_tx_write_calls := 1, tty_tx_byte_count := 1\<rparr>, 0, [7])"
    by (simp add: tty_write_def sample_tty_def tty_init_def inc32_def add64_def INT32_MAX_def INT64_MAX_def
        Let_def numeral_2_eq_2)
  have "0 \<le> tty_fd sample_tty" "(2 :: int) \<le> int (length [7, 8 :: byte])" by (simp_all add: sample_tty_def)
  from tty_write_result [OF this w] show ?thesis by blast
qed

section \<open>A failed device\<close>

text \<open>
  The failure of the receive task is reported once and loses nothing. After a round that
  leaves the loop with an I/O error, the next read returns that error, and the reads behind it
  return what was received before the failure (after an overflow that is due).
\<close>

theorem tty_failure_reported:
  assumes rf: "ringfifo_ok rf"
    and round: "tty_rx_round rf None p self = (RxExit e, s1)"
    and len: "0 \<le> len"
  shows "e = Some DTERR_IO \<and> tty_pending rf s1 = tty_pending rf self \<and>
    (\<exists>s2. tty_read rf s1 len = (Some DTERR_IO, [], s2) \<and> tty_pending rf s2 = tty_pending rf self \<and>
       (\<not> tty_rx_overflow_flag self \<longrightarrow>
          (\<exists>s3. tty_read rf s2 len = (None, take (nat len) (tty_pending rf self), s3))))"
proof -
  have "e = Some DTERR_IO \<and> tty_rx_thread_failed s1 \<and> tty_rx_fifo s1 = tty_rx_fifo self \<and>
      tty_rx_overflow_flag s1 = tty_rx_overflow_flag self"
    using round
    by (auto simp: tty_rx_round_def tty_fail_def tty_rx_data_def post_handle_def dtsemaphore_post_def Let_def
        split: tty_poll.splits tty_read.splits option.splits prod.splits if_splits)
  moreover obtain f where "rf_pop rf (tty_rx_fifo self) len = (take (nat len) (tty_pending rf self), f)"
    using pop_cases [OF rf len, of "tty_rx_fifo self"] unfolding tty_pending_def by metis
  ultimately show ?thesis
    by (simp add: tty_read_def tty_pending_def Let_def)
qed

theorem tty_failure_reported_witness:
  "\<exists>s2. tty_read list_fifo (sample_tty\<lparr>tty_rx_errno := Some EIO, tty_rx_thread_failed := True,
     tty_device_gone := True\<rparr>) 5 = (Some DTERR_IO, [], s2)"
  using tty_failure_reported [OF list_fifo_ok, of "PollEvents False True None" sample_tty "Some DTERR_IO"
      "sample_tty\<lparr>tty_rx_errno := Some EIO, tty_rx_thread_failed := True, tty_device_gone := True\<rparr>" 5]
  by (auto simp: tty_rx_round_def tty_fail_def)


section \<open>The types of the counters\<close>

definition tty_typed :: "'f dtiox_linux_tty_t \<Rightarrow> bool" where
  "tty_typed s \<longleftrightarrow>
     0 \<le> tty_fifo_dropped_bytes s \<and> tty_fifo_dropped_bytes s \<le> INT32_MAX \<and>
     0 \<le> tty_rx_read_calls s \<and> tty_rx_read_calls s \<le> INT32_MAX \<and>
     0 \<le> tty_tx_write_calls s \<and> tty_tx_write_calls s \<le> INT32_MAX \<and>
     0 \<le> tty_rx_byte_count s \<and> tty_rx_byte_count s \<le> INT64_MAX \<and>
     0 \<le> tty_tx_byte_count s \<and> tty_tx_byte_count s \<le> INT64_MAX"

lemma tty_counters [simp]:
  "0 \<le> v \<Longrightarrow> 0 \<le> inc32 v" "v \<le> INT32_MAX \<Longrightarrow> inc32 v \<le> INT32_MAX"
  "0 \<le> v \<Longrightarrow> 0 \<le> add64 v d" "v \<le> INT64_MAX \<Longrightarrow> add64 v d \<le> INT64_MAX"
  "0 \<le> v \<Longrightarrow> 0 \<le> d \<Longrightarrow> 0 \<le> add_dropped v d" "v \<le> INT32_MAX \<Longrightarrow> add_dropped v d \<le> INT32_MAX"
  by (simp_all add: inc32_def add64_def add_dropped_def INT32_MAX_def INT64_MAX_def)

text \<open>Every operation on a device, and every round of its task, in any order.\<close>

inductive tty_step :: "'f ringfifo \<Rightarrow> 'f dtiox_linux_tty_t \<Rightarrow> 'f dtiox_linux_tty_t \<Rightarrow> bool" for rf where
  round: "tty_rx_round rf rc p s = (out, s') \<Longrightarrow> tty_step rf s s'"
| cleanup: "tty_rx_cleanup rcs i s = Some (e, s') \<Longrightarrow> tty_step rf s s'"
| configure: "tty_configure rf alloc s cfg = (e, s') \<Longrightarrow> tty_step rf s s'"
| attach: "tty_attach env s fds = (e, s', line, fds') \<Longrightarrow> tty_step rf s s'"
| detach: "tty_detach s fds = (e, s', fds') \<Longrightarrow> tty_step rf s s'"
| enable: "tty_enable rf (Some s) b = (e, Some s') \<Longrightarrow> tty_step rf s s'"
| read: "tty_read rf s n = (e, d, s') \<Longrightarrow> tty_step rf s s'"
| send: "tty_write s buf len ks = Some (e, s', n, out) \<Longrightarrow> tty_step rf s s'"
| semaphore: "tty_set_rx_semaphore s sem = (e, s') \<Longrightarrow> tty_step rf s s'"

lemma tty_cleanup_typed:
  assumes "tty_rx_cleanup rcs i s = Some r"
  shows "tty_typed s \<longrightarrow> tty_typed (snd r)"
proof (rule tty_rx_cleanup.raw_induct [where P = "\<lambda>rcs i s r. tty_typed s \<longrightarrow> tty_typed (snd r)", OF _ assms], goal_cases)
  case (1 cl rcs i s r)
  obtain e sem where p: "post_handle (rcs i) (tty_rx_semaphore s) = (e, sem)" by fastforce
  let ?s = "s\<lparr>tty_rx_thread_running := False, tty_rx_semaphore := sem\<rparr>"
  have t: "tty_typed ?s = tty_typed s" by (simp add: tty_typed_def)
  show ?case
  proof (cases e)
    case None
    with 1(2) p have "r = (None, ?s)" by (simp add: Let_def)
    with t show ?thesis by simp
  next
    case (Some a)
    with 1(2) p have "cl rcs (i + 1) ?s = Some r" by (simp add: Let_def)
    from 1(1) [OF this] t show ?thesis by simp
  qed
qed

lemma tty_round_typed:
  assumes rf: "ringfifo_ok rf" and s: "tty_typed s" and r: "tty_rx_round rf rc p s = (out, s')"
  shows "tty_typed s'"
proof (cases "\<exists>d. p = PollEvents False False (Some (TtyData d)) \<and> d \<noteq> [] \<and> tty_rx_enabled s")
  case True
  then obtain d where d: "p = PollEvents False False (Some (TtyData d))" "d \<noteq> []" "tty_rx_enabled s" by blast
  obtain k f where push: "rf_push rf (tty_rx_fifo s) d = (int k, f)" "k \<le> length d"
    using push_cases [OF rf, of "tty_rx_fifo s" d] by metis
  let ?b = "add64 (tty_rx_byte_count s) (int (length d))"
  have b: "0 \<le> ?b" "?b \<le> INT64_MAX" using s by (simp_all add: tty_typed_def)
  show ?thesis
  proof (cases "k < length d")
    case lost: True
    let ?n = "add_dropped (tty_fifo_dropped_bytes s) (int (length d) - int k)"
    have "0 \<le> ?n" "?n \<le> INT32_MAX" using s lost by (simp_all add: tty_typed_def)
    with r d push lost s b show ?thesis
      by (auto simp: tty_rx_round_def tty_rx_data_def Let_def tty_typed_def)
  next
    case False
    with r d push s b show ?thesis
      by (auto simp: tty_rx_round_def tty_rx_data_def Let_def tty_typed_def split: if_splits prod.splits option.splits)
  qed
next
  case False
  with r s  show ?thesis
    by (auto simp: tty_rx_round_def tty_rx_data_def tty_fail_def tty_typed_def Let_def
        split: tty_poll.splits if_splits option.splits tty_read.splits)
qed

lemma tty_step_typed:
  assumes rf: "ringfifo_ok rf" and "tty_step rf s s'" "tty_typed s"
  shows "tty_typed s'"
  using assms(2)
proof cases
  case (round rc p out)
  then show ?thesis using tty_round_typed [OF rf assms(3)] by blast
next
  case (cleanup rcs i e)
  then show ?thesis using tty_cleanup_typed [OF cleanup] assms(3) by simp
next
  case (configure alloc cfg e)
  then show ?thesis using assms(3)
    by (auto simp: tty_configure_def tty_typed_def Let_def split: if_splits prod.splits)
next
  case (attach env fds e line fds')
  then show ?thesis using assms(3)
    by (auto simp: tty_attach_def tty_typed_def Let_def split: if_splits prod.splits option.splits sum.splits)
next
  case (detach fds e fds')
  then show ?thesis using assms(3) by (auto simp: tty_detach_def tty_typed_def split: prod.splits)
next
  case (enable b e)
  then show ?thesis by (auto simp: tty_enable_def tty_typed_def INT32_MAX_def INT64_MAX_def)
next
  case (read n e d)
  then show ?thesis using assms(3)
    by (auto simp: tty_read_def tty_typed_def Let_def split: if_splits prod.splits)
next
  case (send buf len ks e n out)
  then show ?thesis using assms(3) 
    by (auto simp: tty_write_def tty_typed_def Let_def split: if_splits prod.splits option.splits)
next
  case (semaphore sem e)
  then show ?thesis using assms(3) by (auto simp: tty_set_rx_semaphore_def tty_typed_def)
qed

text \<open>
  C33: the counters of a TTY device keep their C types. Whatever operations run on an initialised
  device and whatever its task receives, in any order and number, the two \<open>int64_t\<close> byte counters
  and the three \<open>int32_t\<close> counters stay between 0 and their largest value: no addition overflows.
\<close>

theorem tty_counters_typed:
  assumes "ringfifo_ok rf" "(tty_step rf)\<^sup>*\<^sup>* (snd (tty_init rf model zero_uart reg1 reg2)) s"
  shows "tty_typed s"
  using assms(2)
proof (induction rule: rtranclp_induct)
  case base
  show ?case by (simp add: tty_init_def tty_typed_def INT32_MAX_def INT64_MAX_def)
next
  case (step s s')
  then show ?case using tty_step_typed [OF assms(1)] by blast
qed

theorem tty_counters_typed_witness:
  "tty_typed (snd (snd (tty_read list_fifo (snd (tty_init list_fifo 0 (tc_uart_config (tty_config sample_tty)) None None)) 3)))"
proof -
  let ?s = "snd (tty_init list_fifo 0 (tc_uart_config (tty_config sample_tty)) None None)"
  have "tty_step list_fifo ?s (snd (snd (tty_read list_fifo ?s 3)))"
    by (rule tty_step.read [where n = 3 and e = "fst (tty_read list_fifo ?s 3)" and d = "fst (snd (tty_read list_fifo ?s 3))"])
       (simp only: prod.collapse)
  then have "(tty_step list_fifo)\<^sup>*\<^sup>* ?s (snd (snd (tty_read list_fifo ?s 3)))" by blast
  then show ?thesis by (rule tty_counters_typed [OF list_fifo_ok])
qed

end
