(* ===== verification/Tcp.thy ===== *)
theory Tcp
  imports Dtiox WsHandshake
begin

text \<open>
  \<open>dtmc_linux_library/src/dtiox_linux_tcp.c\<close>: a byte stream over one TCP connection, as client or
  as a server that accepts one peer. A round of the receive task and an operation of the caller
  are atomic steps; the code has no lock between them. The formatting of the object as a text is
  left out.
\<close>

section \<open>Data\<close>

datatype dtiox_linux_tcp_mode_t = DTIOX_LINUX_TCP_MODE_CLIENT | DTIOX_LINUX_TCP_MODE_SERVER | TCP_MODE_OTHER

record tcp_config =
  pc_mode :: dtiox_linux_tcp_mode_t
  pc_remote_host :: "string option"
  pc_remote_port :: int
  pc_local_bind_host :: "string option"
  pc_local_bind_port :: int
  pc_tcp_nodelay :: bool
  pc_keepalive :: bool
  pc_rx_fifo_capacity :: int

record 'f dtiox_linux_tcp_t =
  tcp_model_number :: int
  tcp_is_malloced :: bool
  tcp_config :: tcp_config
  tcp_fd :: fd
  tcp_listen_fd :: fd
  tcp_rx_tasker :: "dttasker_t option"
  tcp_rx_thread_running :: bool
  tcp_rx_fifo :: 'f
  tcp_rx_fifo_storage :: bool
  tcp_fifo_dropped_bytes :: int
  tcp_rx_overflow_flag :: bool
  tcp_rx_enabled :: bool
  tcp_is_connected :: bool
  tcp_rx_semaphore :: "dtsemaphore_linux_t option"

section \<open>Connecting\<close>

text \<open>Whether the two \<open>setsockopt\<close> calls succeed.\<close>

record sockopt_env =
  so_keepalive_ok :: bool
  so_nodelay_ok :: bool

definition tcp_set_socket_common_options :: "sockopt_env \<Rightarrow> tcp_config \<Rightarrow> dterr" where
  "tcp_set_socket_common_options env cfg =
     (if pc_keepalive cfg \<and> \<not> so_keepalive_ok env then Some DTERR_IO
      else if pc_tcp_nodelay cfg \<and> \<not> so_nodelay_ok env then Some DTERR_IO
      else None)"

text \<open>One address of \<open>getaddrinfo\<close> for a client: the answers of \<open>socket\<close>, \<open>setsockopt\<close>, \<open>connect\<close>.\<close>

record conn_try =
  ct_sock :: fd
  ct_opts :: sockopt_env
  ct_connect_ok :: bool

text \<open>The loop of \<open>_connect_client_socket\<close> with its cleanup: error, \<open>*out_fd\<close>, open descriptors.\<close>

fun connect_loop :: "tcp_config \<Rightarrow> conn_try list \<Rightarrow> fd list \<Rightarrow> dterr \<times> fd \<times> fd list" where
  "connect_loop cfg [] fds = (None, -1, fds)"
| "connect_loop cfg (t # ts) fds =
     (let s = ct_sock t in
      if s < 0 then connect_loop cfg ts fds
      else (case tcp_set_socket_common_options (ct_opts t) cfg of
              Some e \<Rightarrow> (Some e, -1, removeAll s (s # fds))
            | None \<Rightarrow>
                if ct_connect_ok t then (None, s, s # fds)
                else (Some DTERR_IO, -1, removeAll s (s # fds))))"

definition connect_client_socket ::
  "tcp_config \<Rightarrow> conn_try list option \<Rightarrow> fd list \<Rightarrow> dterr \<times> fd \<times> fd list" where
  "connect_client_socket cfg addrs fds =
     (if pc_remote_host cfg = None \<or> pc_remote_port cfg \<le> 0 \<or> 65535 < pc_remote_port cfg
      then (Some DTERR_BADARG, -1, fds)
      else (case addrs of
              None \<Rightarrow> (Some DTERR_IO, -1, fds)
            | Some ts \<Rightarrow> connect_loop cfg ts fds))"

text \<open>The answers for a server: the addresses, \<open>listen\<close>, \<open>accept\<close>, \<open>setsockopt\<close>.\<close>

record tcp_listen_env =
  tl_tries :: "addr_try list option"
  tl_listen_ok :: bool
  tl_accept :: fd
  tl_opts :: sockopt_env

text \<open>The error, \<open>*out_listen_fd\<close>, \<open>*out_client_fd\<close>, open descriptors.\<close>

definition bind_and_accept_server_socket ::
  "tcp_config \<Rightarrow> tcp_listen_env \<Rightarrow> fd list \<Rightarrow> dterr \<times> fd \<times> fd \<times> fd list" where
  "bind_and_accept_server_socket cfg env fds =
     (if pc_local_bind_port cfg \<le> 0 \<or> 65535 < pc_local_bind_port cfg then (Some DTERR_BADARG, -1, -1, fds)
      else (case tl_tries env of
              None \<Rightarrow> (Some DTERR_IO, -1, -1, fds)
            | Some ts \<Rightarrow>
                (case bind_loop (-1) ts fds of
                   (Some e, lfd, fds1) \<Rightarrow> (Some e, -1, -1, snd (close_if_open lfd fds1))
                 | (None, lfd, fds1) \<Rightarrow>
                     if lfd < 0 then (Some DTERR_IO, -1, -1, fds1)
                     else if \<not> tl_listen_ok env then (Some DTERR_IO, -1, -1, snd (close_if_open lfd fds1))
                     else if tl_accept env < 0 then (Some DTERR_IO, -1, -1, snd (close_if_open lfd fds1))
                     else (case tcp_set_socket_common_options (tl_opts env) cfg of
                             Some e \<Rightarrow> (Some e, -1, -1,
                               snd (close_if_open lfd (snd (close_if_open (tl_accept env) (tl_accept env # fds1)))))
                           | None \<Rightarrow> (None, lfd, tl_accept env, tl_accept env # fds1)))))"

section \<open>The receive task\<close>

text \<open>What \<open>recv\<close> answers; an empty \<open>TcpData\<close>: the peer closed the connection.\<close>

datatype tcp_recv = TcpData "byte list" | TcpRecvErr errno

text \<open>
  One round of the loop of \<open>_rx_task_entry\<close>. \<open>add32\<close> is the macro \<open>DTCORE_HELPER_ADD32\<close> of dtcore.
\<close>

definition tcp_rx_round ::
  "'f ringfifo \<Rightarrow> (int \<Rightarrow> int \<Rightarrow> int) \<Rightarrow> errno option \<Rightarrow> tcp_recv \<Rightarrow> 'f dtiox_linux_tcp_t
     \<Rightarrow> rx_outcome \<times> 'f dtiox_linux_tcp_t" where
  "tcp_rx_round rf add32 rc r self =
     (case r of
        TcpRecvErr e \<Rightarrow> if e = EINTR then (RxGoOn, self) else (RxExit (Some DTERR_IO), self)
      | TcpData d \<Rightarrow>
          if d = [] then (RxExit (Some DTERR_IO), self)
          else if \<not> tcp_rx_enabled self then (RxGoOn, self)
          else
            (case rf_push rf (tcp_rx_fifo self) d of
               (pushed, f) \<Rightarrow>
                 let dropped = int (length d) - pushed;
                     self1 = self\<lparr>tcp_rx_fifo := f\<rparr> in
                 if 0 < dropped
                 then (RxGoOn, self1\<lparr>tcp_rx_overflow_flag := True,
                         tcp_fifo_dropped_bytes := add32 (tcp_fifo_dropped_bytes self) dropped\<rparr>)
                 else if tcp_rx_semaphore self1 \<noteq> None
                 then (case post_handle rc (tcp_rx_semaphore self1) of
                         (e, sem) \<Rightarrow> (case e of None \<Rightarrow> RxGoOn | Some _ \<Rightarrow> RxExit e,
                                       self1\<lparr>tcp_rx_semaphore := sem\<rparr>))
                 else (RxGoOn, self1)))"

fun tcp_rx_loop ::
  "'f ringfifo \<Rightarrow> (int \<Rightarrow> int \<Rightarrow> int) \<Rightarrow> (errno option \<times> tcp_recv) list \<Rightarrow> 'f dtiox_linux_tcp_t
     \<Rightarrow> (dterr \<times> 'f dtiox_linux_tcp_t) option" where
  "tcp_rx_loop rf add32 [] self = None"
| "tcp_rx_loop rf add32 ((rc, r) # rs) self =
     (case tcp_rx_round rf add32 rc r self of
        (RxGoOn, self') \<Rightarrow> tcp_rx_loop rf add32 rs self'
      | (RxExit e, self') \<Rightarrow> Some (e, self'))"

text \<open>From the label \<open>cleanup\<close>: both sockets are closed and the readers woken.\<close>

definition tcp_rx_cleanup ::
  "errno option \<Rightarrow> 'f dtiox_linux_tcp_t \<Rightarrow> fd list \<Rightarrow> 'f dtiox_linux_tcp_t \<times> fd list" where
  "tcp_rx_cleanup rc self fds =
     (case close_if_open (tcp_fd self) fds of
        (fd, fds1) \<Rightarrow>
          (case close_if_open (tcp_listen_fd self) fds1 of
             (lfd, fds2) \<Rightarrow>
               (self\<lparr>tcp_is_connected := False, tcp_rx_thread_running := False, tcp_fd := fd,
                     tcp_listen_fd := lfd,
                     tcp_rx_semaphore := (if tcp_rx_semaphore self = None then None
                                          else snd (post_handle rc (tcp_rx_semaphore self)))\<rparr>, fds2)))"

definition tcp_rx_task ::
  "'f ringfifo \<Rightarrow> (int \<Rightarrow> int \<Rightarrow> int) \<Rightarrow> dterr \<Rightarrow> (errno option \<times> tcp_recv) list \<Rightarrow> errno option
     \<Rightarrow> 'f dtiox_linux_tcp_t \<Rightarrow> fd list \<Rightarrow> (dterr \<times> 'f dtiox_linux_tcp_t \<times> fd list) option" where
  "tcp_rx_task rf add32 ready rs rc self fds =
     (if ready \<noteq> None then Some (ready, tcp_rx_cleanup rc self fds)
      else map_option (\<lambda>(e, self'). (e, tcp_rx_cleanup rc self' fds))
             (tcp_rx_loop rf add32 rs (self\<lparr>tcp_rx_thread_running := True\<rparr>)))"

section \<open>The operations\<close>

definition zero_tcp_config :: tcp_config where
  "zero_tcp_config = \<lparr>pc_mode = DTIOX_LINUX_TCP_MODE_CLIENT, pc_remote_host = None, pc_remote_port = 0,
     pc_local_bind_host = None, pc_local_bind_port = 0, pc_tcp_nodelay = False, pc_keepalive = False,
     pc_rx_fifo_capacity = 0\<rparr>"

definition tcp_init :: "'f ringfifo \<Rightarrow> int \<Rightarrow> dterr \<Rightarrow> dterr \<Rightarrow> dterr \<times> 'f dtiox_linux_tcp_t" where
  "tcp_init rf model reg1 reg2 =
     (if fst (rf_init rf) \<noteq> None then fst (rf_init rf) else if reg1 \<noteq> None then reg1 else reg2,
      \<lparr>tcp_model_number = model, tcp_is_malloced = False, tcp_config = zero_tcp_config, tcp_fd = -1,
       tcp_listen_fd = -1, tcp_rx_tasker = None, tcp_rx_thread_running = False,
       tcp_rx_fifo = snd (rf_init rf), tcp_rx_fifo_storage = False, tcp_fifo_dropped_bytes = 0,
       tcp_rx_overflow_flag = False, tcp_rx_enabled = True, tcp_is_connected = False,
       tcp_rx_semaphore = None\<rparr>)"

definition tcp_create ::
  "bool \<Rightarrow> 'f ringfifo \<Rightarrow> int \<Rightarrow> dterr \<Rightarrow> dterr \<Rightarrow> dterr \<times> 'f dtiox_linux_tcp_t option" where
  "tcp_create malloc_ok rf model reg1 reg2 =
     (if \<not> malloc_ok then (Some DTERR_NOMEM, None)
      else (case tcp_init rf model reg1 reg2 of
              (Some e, _) \<Rightarrow> (Some e, None)
            | (None, self) \<Rightarrow> (None, Some (self\<lparr>tcp_is_malloced := True\<rparr>))))"

definition tcp_check_config :: "tcp_config \<Rightarrow> dterr" where
  "tcp_check_config cfg =
     (case pc_mode cfg of
        DTIOX_LINUX_TCP_MODE_CLIENT \<Rightarrow>
          if pc_remote_host cfg = None then Some DTERR_ASSERT
          else if pc_remote_port cfg \<le> 0 \<or> 65535 < pc_remote_port cfg then Some DTERR_BADARG else None
      | DTIOX_LINUX_TCP_MODE_SERVER \<Rightarrow>
          if pc_local_bind_host cfg = None then Some DTERR_ASSERT
          else if pc_local_bind_port cfg \<le> 0 \<or> 65535 < pc_local_bind_port cfg then Some DTERR_BADARG else None
      | TCP_MODE_OTHER \<Rightarrow> Some DTERR_BADARG)"

text \<open>\<open>alloc\<close>: the answer of \<open>dtheaper_alloc\<close>.\<close>

definition tcp_configure ::
  "'f ringfifo \<Rightarrow> dterr \<Rightarrow> 'f dtiox_linux_tcp_t \<Rightarrow> tcp_config \<Rightarrow> dterr \<times> 'f dtiox_linux_tcp_t" where
  "tcp_configure rf alloc self cfg =
     (if tcp_check_config cfg \<noteq> None then (tcp_check_config cfg, self)
      else
        let cfg1 = (if pc_rx_fifo_capacity cfg \<le> 0 then cfg\<lparr>pc_rx_fifo_capacity := 4096\<rparr> else cfg);
            self1 = self\<lparr>tcp_config := cfg1\<rparr> in
        if alloc \<noteq> None then (alloc, self1)
        else (case rf_configure rf (pc_rx_fifo_capacity cfg1) (tcp_rx_fifo self1) of
                (e, f) \<Rightarrow> (e, self1\<lparr>tcp_rx_fifo_storage := True, tcp_rx_fifo := f\<rparr>)))"

record tcp_attach_env =
  pa_addrs :: "conn_try list option"
  pa_listen :: tcp_listen_env
  pa_task :: task_env

text \<open>The connection of an attach: the error, the listening and the connected socket, open descriptors.\<close>

definition tcp_connect :: "tcp_attach_env \<Rightarrow> tcp_config \<Rightarrow> fd list \<Rightarrow> dterr \<times> fd \<times> fd \<times> fd list" where
  "tcp_connect env cfg fds =
     (if pc_mode cfg = DTIOX_LINUX_TCP_MODE_CLIENT
      then (case connect_client_socket cfg (pa_addrs env) fds of (e, fd, fds1) \<Rightarrow> (e, -1, fd, fds1))
      else bind_and_accept_server_socket cfg (pa_listen env) fds)"

text \<open>
  \<open>dtiox_linux_tcp_attach\<close>. Its cleanup closes the local copies of the descriptors, also when
  the object holds them already.
\<close>

definition tcp_attach ::
  "tcp_attach_env \<Rightarrow> 'f dtiox_linux_tcp_t \<Rightarrow> fd list \<Rightarrow> dterr \<times> 'f dtiox_linux_tcp_t \<times> fd list" where
  "tcp_attach env self fds =
     (if 0 \<le> tcp_fd self then (None, self, fds)
      else
        let (conn_err, lfd, fd, fds1) = tcp_connect env (tcp_config self) fds;
            self1 = self\<lparr>tcp_fd := fd, tcp_listen_fd := lfd, tcp_is_connected := True\<rparr>;
            closed = snd (close_if_open lfd (snd (close_if_open fd fds1)))
        in if conn_err \<noteq> None then (conn_err, self, closed)
           else (case ta_create (pa_task env) of
                   Inl e \<Rightarrow> (Some e, self1, closed)
                 | Inr t \<Rightarrow>
                     (case ta_start (pa_task env) of
                        Inl e \<Rightarrow> (Some e, self1\<lparr>tcp_rx_tasker := Some t\<rparr>, closed)
                      | Inr t' \<Rightarrow> (None, self1\<lparr>tcp_rx_tasker := Some t'\<rparr>, fds1))))"

definition tcp_detach :: "'f dtiox_linux_tcp_t \<Rightarrow> fd list \<Rightarrow> dterr \<times> 'f dtiox_linux_tcp_t \<times> fd list" where
  "tcp_detach self fds =
     (case close_if_open (tcp_fd self) fds of
        (fd, fds1) \<Rightarrow>
          (case close_if_open (tcp_listen_fd self) fds1 of
             (lfd, fds2) \<Rightarrow>
               (None, self\<lparr>tcp_is_connected := False, tcp_fd := fd, tcp_listen_fd := lfd\<rparr>, fds2)))"

definition tcp_enable :: "'f ringfifo \<Rightarrow> 'f dtiox_linux_tcp_t option \<Rightarrow> bool \<Rightarrow> dterr \<times> 'f dtiox_linux_tcp_t option" where
  "tcp_enable rf self enabled =
     (case self of
        None \<Rightarrow> (Some DTERR_BADARG, None)
      | Some s \<Rightarrow>
          (None, Some (s\<lparr>tcp_rx_enabled := enabled, tcp_rx_fifo := rf_reset rf (tcp_rx_fifo s),
                         tcp_fifo_dropped_bytes := 0, tcp_rx_overflow_flag := False\<rparr>)))"

definition tcp_read ::
  "'f ringfifo \<Rightarrow> 'f dtiox_linux_tcp_t \<Rightarrow> int \<Rightarrow> dterr \<times> byte list \<times> 'f dtiox_linux_tcp_t" where
  "tcp_read rf self buf_len =
     (if \<not> tcp_is_connected self then (Some DTERR_IO, [], self\<lparr>tcp_rx_overflow_flag := False\<rparr>)
      else if tcp_rx_overflow_flag self
      then (Some DTERR_OVERFLOW, [], self\<lparr>tcp_rx_overflow_flag := False\<rparr>)
      else (case rf_pop rf (tcp_rx_fifo self) buf_len of (d, f) \<Rightarrow> (None, d, self\<lparr>tcp_rx_fifo := f\<rparr>)))"

text \<open>The loop of \<open>dtiox_linux_tcp_write\<close>; every failure disconnects.\<close>

fun tcp_send_loop :: "byte list \<Rightarrow> send_result list \<Rightarrow> sink_result" where
  "tcp_send_loop [] ks = Some (None, [], ks)"
| "tcp_send_loop (b # buf) [] = None"
| "tcp_send_loop (b # buf) (Sent n # ks) =
     (if 0 < n then
        (case tcp_send_loop (drop n (b # buf)) ks of
           None \<Rightarrow> None
         | Some (e, out, ks') \<Rightarrow> Some (e, take n (b # buf) @ out, ks'))
      else Some (Some DTERR_IO, [], ks))"
| "tcp_send_loop (b # buf) (SendErr e # ks) =
     (if e \<noteq> EINTR then Some (Some DTERR_IO, [], ks) else tcp_send_loop (b # buf) ks)"

text \<open>The error, the object, \<open>*out_written\<close>, the bytes sent.\<close>

definition tcp_write ::
  "'f dtiox_linux_tcp_t \<Rightarrow> byte list \<Rightarrow> int \<Rightarrow> send_result list
     \<Rightarrow> (dterr \<times> 'f dtiox_linux_tcp_t \<times> int \<times> byte list) option" where
  "tcp_write self buf len ks =
     (if tcp_fd self < 0 \<or> \<not> tcp_is_connected self then Some (Some DTERR_IO, self, 0, [])
      else if int (length buf) < len then None
      else (case tcp_send_loop (take (nat len) buf) ks of
              None \<Rightarrow> None
            | Some (Some e, out, _) \<Rightarrow> Some (Some e, self\<lparr>tcp_is_connected := False\<rparr>, 0, out)
            | Some (None, out, _) \<Rightarrow> Some (None, self, len, out)))"

definition tcp_set_rx_semaphore ::
  "'f dtiox_linux_tcp_t \<Rightarrow> dtsemaphore_linux_t option \<Rightarrow> dterr \<times> 'f dtiox_linux_tcp_t" where
  "tcp_set_rx_semaphore self sem = (None, self\<lparr>tcp_rx_semaphore := sem\<rparr>)"

definition tcp_dispose :: "'f dtiox_linux_tcp_t \<Rightarrow> 'f dtiox_linux_tcp_t" where
  "tcp_dispose self = self"

definition tcp_equals :: "'f dtiox_linux_tcp_t option \<Rightarrow> 'f dtiox_linux_tcp_t option \<Rightarrow> bool" where
  "tcp_equals a b =
     (case (a, b) of
        (Some x, Some y) \<Rightarrow>
          let c = tcp_config x; d = tcp_config y in
          if tcp_model_number x \<noteq> tcp_model_number y then False
          else if pc_mode c \<noteq> pc_mode d then False
          else if pc_mode c = DTIOX_LINUX_TCP_MODE_CLIENT
          then case_option [] id (pc_remote_host c) = case_option [] id (pc_remote_host d)
            \<and> pc_remote_port c = pc_remote_port d \<and> pc_tcp_nodelay c = pc_tcp_nodelay d
            \<and> pc_keepalive c = pc_keepalive d
          else if pc_mode c = DTIOX_LINUX_TCP_MODE_SERVER
          then case_option [] id (pc_local_bind_host c) = case_option [] id (pc_local_bind_host d)
            \<and> pc_local_bind_port c = pc_local_bind_port d \<and> pc_tcp_nodelay c = pc_tcp_nodelay d
            \<and> pc_keepalive c = pc_keepalive d
          else False
      | _ \<Rightarrow> False)"


section \<open>The receive path is a stream\<close>

type_synonym 'f tcp_lib = "'f ringfifo \<times> (int \<Rightarrow> int \<Rightarrow> int)"

definition tcp_good :: "'f tcp_lib \<Rightarrow> bool" where
  "tcp_good lib = ringfifo_ok (fst lib)"

definition tcp_live :: "'f dtiox_linux_tcp_t \<Rightarrow> bool" where
  "tcp_live self \<longleftrightarrow> tcp_rx_enabled self \<and> tcp_is_connected self"

definition tcp_chunk :: "byte list \<Rightarrow> bool" where
  "tcp_chunk d \<longleftrightarrow> d \<noteq> [] \<and> length d \<le> 1024"

definition tcp_pending :: "'f tcp_lib \<Rightarrow> 'f dtiox_linux_tcp_t \<Rightarrow> byte list" where
  "tcp_pending lib self = rf_items (fst lib) (tcp_rx_fifo self)"

text \<open>A round that receives \<open>d\<close>, and a read into \<open>n\<close> bytes.\<close>

definition tcp_arrive :: "'f tcp_lib \<Rightarrow> byte list \<Rightarrow> 'f dtiox_linux_tcp_t \<Rightarrow> 'f dtiox_linux_tcp_t" where
  "tcp_arrive lib d self = snd (tcp_rx_round (fst lib) (snd lib) None (TcpData d) self)"

definition tcp_take :: "'f tcp_lib \<Rightarrow> nat \<Rightarrow> 'f dtiox_linux_tcp_t \<Rightarrow> dterr \<times> byte list \<times> 'f dtiox_linux_tcp_t" where
  "tcp_take lib n self = tcp_read (fst lib) self (int n)"

text \<open>What a round does with data; \<open>k\<close> bytes fit. Readers are woken only when all of them fit.\<close>

lemma tcp_round_data:
  assumes push: "rf_push rf (tcp_rx_fifo s) d = (int k, f)" "k \<le> length d"
    and d: "d \<noteq> []" and en: "tcp_rx_enabled s"
  shows "\<exists>x. tcp_rx_round rf add32 None (TcpData d) s =
    (RxGoOn, s\<lparr>tcp_rx_fifo := f, tcp_rx_overflow_flag := tcp_rx_overflow_flag s \<or> k < length d,
       tcp_fifo_dropped_bytes := x,
       tcp_rx_semaphore := (if k < length d then tcp_rx_semaphore s
                            else snd (post_handle None (tcp_rx_semaphore s)))\<rparr>)"
proof (cases "k < length d")
  case True
  with push d en show ?thesis
    by (cases s) (simp add: tcp_rx_round_def Let_def)
next
  case False
  then have k: "k = length d" using push(2) by simp
  have y: "tcp_rx_round rf add32 None (TcpData d) s =
     (RxGoOn, s\<lparr>tcp_rx_fifo := f, tcp_rx_semaphore := snd (post_handle None (tcp_rx_semaphore s))\<rparr>)"
    using push d en k
    by (cases s; cases "tcp_rx_semaphore s")
      (auto simp: tcp_rx_round_def post_handle_def dtsemaphore_post_def Let_def)
  show ?thesis
    unfolding y using k by (intro exI [of _ "tcp_fifo_dropped_bytes s"], cases s) auto
qed

interpretation tcp_rx: rx_stream tcp_good tcp_live tcp_chunk tcp_pending tcp_rx_overflow_flag tcp_arrive tcp_take
proof
  fix lib :: "'f tcp_lib" and s :: "'f dtiox_linux_tcp_t" and d :: "byte list" and n :: nat
  assume good: "tcp_good lib" and live: "tcp_live s"
  have rf: "ringfifo_ok (fst lib)" using good by (simp add: tcp_good_def)
  {
    assume d: "tcp_chunk d"
    obtain k f where k: "rf_push (fst lib) (tcp_rx_fifo s) d = (int k, f)" "k \<le> length d"
      "rf_items (fst lib) f = rf_items (fst lib) (tcp_rx_fifo s) @ take k d"
      using push_cases [OF rf, of "tcp_rx_fifo s" d] by metis
    have "d \<noteq> []" "tcp_rx_enabled s" using d live by (simp_all add: tcp_chunk_def tcp_live_def)
    from tcp_round_data [OF k(1,2) this, of "snd lib"]
    show "tcp_live (tcp_arrive lib d s) \<and> (\<exists>k\<le>length d.
        tcp_pending lib (tcp_arrive lib d s) = tcp_pending lib s @ take k d \<and>
        tcp_rx_overflow_flag (tcp_arrive lib d s) = (tcp_rx_overflow_flag s \<or> k < length d))"
      using k live by (auto simp: tcp_arrive_def tcp_live_def tcp_pending_def)
  next
    assume "tcp_rx_overflow_flag s"
    with live show "\<exists>s'. tcp_take lib n s = (Some DTERR_OVERFLOW, [], s') \<and> tcp_live s' \<and>
        \<not> tcp_rx_overflow_flag s' \<and> tcp_pending lib s' = tcp_pending lib s"
      by (simp add: tcp_take_def tcp_read_def tcp_live_def tcp_pending_def)
  next
    assume "\<not> tcp_rx_overflow_flag s"
    moreover obtain f where "rf_pop (fst lib) (tcp_rx_fifo s) (int n) = (take n (tcp_pending lib s), f)"
        "rf_items (fst lib) f = drop n (tcp_pending lib s)"
      using pop_cases [OF rf, of "int n" "tcp_rx_fifo s"] unfolding tcp_pending_def by auto
    ultimately show "\<exists>s'. tcp_take lib n s = (None, take n (tcp_pending lib s), s') \<and> tcp_live s' \<and>
        \<not> tcp_rx_overflow_flag s' \<and> tcp_pending lib s' = drop n (tcp_pending lib s)"
      using live by (simp add: tcp_take_def tcp_read_def tcp_live_def tcp_pending_def)
  }
qed

section \<open>Writing\<close>

lemma tcp_send_loop_eq: "tcp_send_loop buf ks = ws_send_all buf ks"
  by (induction buf ks rule: tcp_send_loop.induct) simp_all

interpretation tcp_sink: byte_sink tcp_send_loop
  by unfold_locales (simp_all add: tcp_send_loop_eq ws_send_ok ws_send_err ws_send_takes)

text \<open>
  C29: what one side writes, the other reads. If a write of a connected device returns success,
  and its bytes reach a live device in whatever segments, between whatever reads of the caller,
  then as long as no overflow is reported or due, the bytes read and the bytes waiting are
  together exactly what was written; a write that fails has disconnected the writer.
\<close>

theorem tcp_end_to_end:
  assumes "tcp_write a buf (int (length buf)) ks = Some (e, a', n, out)"
    and "0 \<le> tcp_fd a" and "tcp_is_connected a"
    and "ringfifo_ok rf" and "tcp_live b" and "tcp_pending (rf, add32) b = []"
    and "arrivals es = out" and "list_all (\<lambda>e. case e of Arrive d \<Rightarrow> tcp_chunk d | Read _ \<Rightarrow> True) es"
    and "rx_run (tcp_arrive (rf, add32)) (tcp_take (rf, add32)) es b = (errs, got, b')"
  shows "(e = None \<longrightarrow> n = int (length buf) \<and> a' = a \<and>
      (errs = 0 \<and> \<not> tcp_rx_overflow_flag b' \<longrightarrow> got @ tcp_pending (rf, add32) b' = buf)) \<and>
    (e \<noteq> None \<longrightarrow> n = 0 \<and> \<not> tcp_is_connected a') \<and>
    (\<exists>rest. subseq (got @ tcp_pending (rf, add32) b') out \<and> buf = out @ rest)"
proof -
  have good: "tcp_good (rf, add32)" using assms(4) by (simp add: tcp_good_def)
  from tcp_rx.stream [OF good assms(5,8,9)] assms(6,7)
  have st: "subseq (got @ tcp_pending (rf, add32) b') out"
    "errs = 0 \<and> \<not> tcp_rx_overflow_flag b' \<longrightarrow> got @ tcp_pending (rf, add32) b' = out" by simp_all
  obtain r where loop: "tcp_send_loop buf ks = Some (e, out, r)"
    and res: "n = (if e = None then int (length buf) else 0)"
      "a' = (if e = None then a else a\<lparr>tcp_is_connected := False\<rparr>)"
    using assms(1-3) by (auto simp: tcp_write_def split: option.splits)
  show ?thesis
  proof (cases e)
    case None
    with tcp_sink.sink_ok [of buf ks out r] loop st res show ?thesis by simp
  next
    case (Some x)
    with tcp_sink.sink_err [of buf ks x out r] loop st res show ?thesis by auto
  qed
qed


section \<open>Descriptors\<close>

text \<open>The kernel hands out descriptors that are not open, and different ones.\<close>

definition tcp_env_fresh :: "tcp_attach_env \<Rightarrow> fd list \<Rightarrow> bool" where
  "tcp_env_fresh env fds \<longleftrightarrow>
     (case pa_addrs env of None \<Rightarrow> True | Some ts \<Rightarrow> list_all (\<lambda>t. ct_sock t \<notin> set fds) ts) \<and>
     tl_accept (pa_listen env) \<notin> set fds \<and>
     (case tl_tries (pa_listen env) of None \<Rightarrow> True
      | Some ts \<Rightarrow> fresh_tries ts fds \<and> list_all (\<lambda>t. at_sock t \<noteq> tl_accept (pa_listen env)) ts)"

lemma connect_loop_fds:
  "list_all (\<lambda>t. ct_sock t \<notin> set fds) ts \<Longrightarrow> connect_loop cfg ts fds = (e, fd, fds') \<Longrightarrow>
     (if 0 \<le> fd then e = None \<and> fds' = fd # fds \<and> fd \<notin> set fds else fd = -1 \<and> fds' = fds)"
  by (induction ts) (auto simp: Let_def split: if_splits option.splits)

lemma connect_client_fds:
  assumes "tcp_env_fresh env fds" "connect_client_socket cfg (pa_addrs env) fds = (e, fd, fds')"
  shows "if 0 \<le> fd then e = None \<and> fds' = fd # fds \<and> fd \<notin> set fds else fd = -1 \<and> fds' = fds"
  using assms connect_loop_fds [of fds _ cfg e fd fds']
  by (auto simp: connect_client_socket_def tcp_env_fresh_def split: if_splits option.splits)

lemma bind_and_accept_fds:
  assumes fr: "tcp_env_fresh env fds"
    and res: "bind_and_accept_server_socket cfg (pa_listen env) fds = (e, lfd, cfd, fds')"
  shows "if e = None then 0 \<le> lfd \<and> 0 \<le> cfd \<and> lfd \<noteq> cfd \<and> fds' = cfd # lfd # fds
           \<and> lfd \<notin> set fds \<and> cfd \<notin> set fds
         else lfd = -1 \<and> cfd = -1 \<and> fds' = fds"
proof (cases "tl_tries (pa_listen env)")
  case None
  with res show ?thesis by (auto simp: bind_and_accept_server_socket_def split: if_splits)
next
  case (Some ts)
  obtain e1 s fds1 where bl: "bind_loop (-1) ts fds = (e1, s, fds1)" by (metis prod_cases3)
  from fr Some have ft: "fresh_tries ts fds" and ac: "tl_accept (pa_listen env) \<notin> set fds"
    and na: "\<forall>t \<in> set ts. at_sock t \<noteq> tl_accept (pa_listen env)"
    by (auto simp: tcp_env_fresh_def list_all_iff)
  from bind_loop_fds [OF ft _ bl] have f1: "if 0 \<le> s then fds1 = s # fds \<and> s \<notin> set fds else fds1 = fds \<and> e1 = None"
    by simp
  from bind_loop_sock [OF bl] na have "0 \<le> s \<Longrightarrow> s \<noteq> tl_accept (pa_listen env)" by force
  with res Some bl f1 ac show ?thesis
    by (cases e1; cases "tcp_set_socket_common_options (tl_opts (pa_listen env)) cfg")
      (auto simp: bind_and_accept_server_socket_def close_if_open_def dest!: sym [of "Some _"] split: if_splits)
qed

text \<open>The descriptors a connection adds are the two it returns.\<close>

lemma tcp_connect_fds:
  assumes "tcp_env_fresh env fds" "tcp_connect env cfg fds = (e, lfd, fd, fds1)"
  shows "set fds1 = set fds \<union> {x. (x = fd \<or> x = lfd) \<and> 0 \<le> x}"
    and "e \<noteq> None \<Longrightarrow> fd = -1 \<and> lfd = -1"
    and "snd (close_if_open lfd (snd (close_if_open fd fds1))) = fds"
    and "fd \<notin> set fds \<or> fd < 0"
proof -
  have cl: "snd (close_if_open x (x # fds)) = fds" if "x \<notin> set fds" "0 \<le> x" for x
    using that by (simp add: close_if_open_snd)
  have no: "snd (close_if_open (-1) l) = l" for l by (simp add: close_if_open_snd)
  have "set fds1 = set fds \<union> {x. (x = fd \<or> x = lfd) \<and> 0 \<le> x} \<and> (e \<noteq> None \<longrightarrow> fd = -1 \<and> lfd = -1) \<and>
      snd (close_if_open lfd (snd (close_if_open fd fds1))) = fds \<and> (fd \<notin> set fds \<or> fd < 0)"
  proof (cases "pc_mode cfg = DTIOX_LINUX_TCP_MODE_CLIENT")
    case True
    with assms(2) have c: "connect_client_socket cfg (pa_addrs env) fds = (e, fd, fds1)" and l: "lfd = -1"
      by (auto simp: tcp_connect_def split: prod.splits)
    show ?thesis
    proof (cases "0 \<le> fd")
      case True
      with connect_client_fds [OF assms(1) c] have "e = None" "fds1 = fd # fds" "fd \<notin> set fds" by simp_all
      then show ?thesis using True l by (auto simp: no cl)
    next
      case False
      with connect_client_fds [OF assms(1) c] have "fds1 = fds" "fd = -1" by simp_all
      then show ?thesis using l by (auto simp: no)
    qed
  next
    case False
    with assms(2) have c: "bind_and_accept_server_socket cfg (pa_listen env) fds = (e, lfd, fd, fds1)"
      by (simp add: tcp_connect_def)
    note own = bind_and_accept_fds [OF assms(1) c]
    show ?thesis
    proof (cases e)
      case None
      with own have o: "0 \<le> lfd" "0 \<le> fd" "lfd \<noteq> fd" "fds1 = fd # lfd # fds" "lfd \<notin> set fds" "fd \<notin> set fds"
        by simp_all
      then have "snd (close_if_open fd fds1) = lfd # fds" by (simp add: close_if_open_snd)
      then show ?thesis using o None cl [of lfd] by auto
    next
      case (Some x)
      with own have "lfd = -1" "fd = -1" "fds1 = fds" by simp_all
      then show ?thesis using Some by (auto simp: no)
    qed
  qed
  then show "set fds1 = set fds \<union> {x. (x = fd \<or> x = lfd) \<and> 0 \<le> x}" "e \<noteq> None \<Longrightarrow> fd = -1 \<and> lfd = -1"
    "snd (close_if_open lfd (snd (close_if_open fd fds1))) = fds" "fd \<notin> set fds \<or> fd < 0" by blast+
qed

lemma tcp_attach_result:
  assumes "tcp_env_fresh env fds" and "tcp_fd self < 0"
    and "tcp_attach env self fds = (e, self', fds')"
  shows "(e \<noteq> None \<longrightarrow> fds' = fds \<and> (self' = self \<or>
         tcp_is_connected self' \<and> (0 \<le> tcp_fd self' \<longrightarrow> tcp_fd self' \<notin> set fds'))) \<and>
    (e = None \<longrightarrow> tcp_is_connected self' \<and>
       set fds' = set fds \<union> {x. (x = tcp_fd self' \<or> x = tcp_listen_fd self') \<and> 0 \<le> x})"
proof -
  obtain e1 lfd fd fds1 where c: "tcp_connect env (tcp_config self) fds = (e1, lfd, fd, fds1)" by (metis prod_cases4)
  note fds = tcp_connect_fds [OF assms(1) c]
  show ?thesis
  proof (cases e1)
    case (Some x)
    with assms(2,3) c fds(3) have "e = Some x \<and> self' = self \<and> fds' = fds" by (simp add: tcp_attach_def)
    then show ?thesis by simp
  next
    case None
    let ?s = "self\<lparr>tcp_fd := fd, tcp_listen_fd := lfd, tcp_is_connected := True\<rparr>"
    from None assms(2,3) have
      "(e \<noteq> None \<and> fds' = fds \<or> e = None \<and> fds' = fds1) \<and> (\<exists>t. self' = ?s \<or> self' = ?s\<lparr>tcp_rx_tasker := t\<rparr>)"
      by (auto simp: tcp_attach_def c fds(3) Let_def split: sum.splits)
    then have "e \<noteq> None \<and> fds' = fds \<or> e = None \<and> fds' = fds1" "tcp_is_connected self'"
      "tcp_fd self' = fd" "tcp_listen_fd self' = lfd" by auto
    then show ?thesis using fds(1,4) by auto
  qed
qed

text \<open>
  An attach leaks no descriptor, but can leave the object with a closed one. If it fails,
  exactly the descriptors open before are open; when the failure is that of the connection, the
  object is unchanged, and when it is that of the receive task, the object counts as connected and
  holds a descriptor that is closed. If it succeeds, the descriptors added are the object's.
\<close>

theorem tcp_attach_descriptors:
  assumes "tcp_env_fresh env fds" and "tcp_fd self < 0"
    and "tcp_attach env self fds = (e, self', fds')"
  shows "(e \<noteq> None \<longrightarrow> fds' = fds \<and> (self' = self \<or>
         tcp_is_connected self' \<and> (0 \<le> tcp_fd self' \<longrightarrow> tcp_fd self' \<notin> set fds'))) \<and>
    (e = None \<longrightarrow> tcp_is_connected self' \<and>
       set fds' = set fds \<union> {x. (x = tcp_fd self' \<or> x = tcp_listen_fd self') \<and> 0 \<le> x})"
  using tcp_attach_result [OF assms] .

text \<open>
  A client attach can succeed without a socket. If no \<open>socket\<close> call succeeds for any address
  of the peer, the loop ends without an error; the attach then starts the task and reports
  success, the object counts as connected with descriptor -1, and every write fails.
\<close>

theorem tcp_attach_without_socket:
  assumes "tcp_fd self < 0" and "pc_mode (tcp_config self) = DTIOX_LINUX_TCP_MODE_CLIENT"
    and "tcp_check_config (tcp_config self) = None"
    and "pa_addrs env = Some ts" and "list_all (\<lambda>t. ct_sock t < 0) ts"
    and "ta_create (pa_task env) = Inr t" and "ta_start (pa_task env) = Inr t'"
  shows "\<exists>self'. tcp_attach env self fds = (None, self', fds) \<and> tcp_is_connected self' \<and> tcp_fd self' = -1 \<and>
    tcp_write self' buf len ks = Some (Some DTERR_IO, self', 0, [])"
proof -
  have "connect_loop cfg ts fds = (None, -1, fds)" for cfg
    using assms(5) by (induction ts) auto
  with assms show ?thesis
    by (simp add: tcp_attach_def tcp_connect_def connect_client_socket_def tcp_check_config_def tcp_write_def
        split: if_splits)
qed

text \<open>
  What was received before the peer closed is lost if it was not read before. When the
  receive task has ended, every read reports that the connection is gone and returns nothing,
  whatever waits in the FIFO, and leaves it there; the next enable empties it.
\<close>

theorem tcp_close_loses_data:
  assumes "tcp_rx_task rf add32 ready rs rc self fds = Some (e, s, fds')"
  shows "tcp_read rf s n = (Some DTERR_IO, [], s\<lparr>tcp_rx_overflow_flag := False\<rparr>) \<and>
    (ringfifo_ok rf \<and> ready = None \<and> rs = [(None, TcpData d), (None, TcpData [])] \<and> d \<noteq> [] \<and>
       tcp_rx_enabled self \<and> length (rf_items rf (tcp_rx_fifo self)) + length d \<le> rf_capacity rf (tcp_rx_fifo self) \<longrightarrow>
       rf_items rf (tcp_rx_fifo s) = rf_items rf (tcp_rx_fifo self) @ d)"
proof -
  obtain s0 where s: "(s, fds') = tcp_rx_cleanup rc s0 fds" and
      loop: "ready = None \<longrightarrow> tcp_rx_loop rf add32 rs (self\<lparr>tcp_rx_thread_running := True\<rparr>) = Some (e, s0)"
  proof (cases "ready = None")
    case True
    with assms obtain s0 where "tcp_rx_loop rf add32 rs (self\<lparr>tcp_rx_thread_running := True\<rparr>) = Some (e, s0)"
      "(s, fds') = tcp_rx_cleanup rc s0 fds" by (auto simp: tcp_rx_task_def)
    then show thesis using that by blast
  next
    case False
    with assms have "(s, fds') = tcp_rx_cleanup rc self fds" by (auto simp: tcp_rx_task_def)
    then show thesis using that False by blast
  qed
  have "\<not> tcp_is_connected s" and fifo: "tcp_rx_fifo s = tcp_rx_fifo s0"
    using s by (auto simp: tcp_rx_cleanup_def split: prod.splits)
  moreover have "rf_items rf (tcp_rx_fifo s0) = rf_items rf (tcp_rx_fifo self) @ d"
    if h: "ringfifo_ok rf" "ready = None" "rs = [(None, TcpData d), (None, TcpData [])]" "d \<noteq> []"
      "tcp_rx_enabled self" and fits: "length (rf_items rf (tcp_rx_fifo self)) + length d \<le> rf_capacity rf (tcp_rx_fifo self)"
  proof -
    let ?s = "self\<lparr>tcp_rx_thread_running := True\<rparr>"
    obtain k f where k: "rf_push rf (tcp_rx_fifo self) d = (int k, f)" "k \<le> length d"
      "rf_items rf f = rf_items rf (tcp_rx_fifo self) @ take k d" "k = length d"
      using push_cases [OF h(1), of "tcp_rx_fifo self" d] fits by metis
    from tcp_round_data [of rf ?s d k f add32] k(1,2) h(4,5) obtain x where
      "tcp_rx_round rf add32 None (TcpData d) ?s = (RxGoOn, ?s\<lparr>tcp_rx_fifo := f,
         tcp_rx_overflow_flag := tcp_rx_overflow_flag ?s \<or> k < length d, tcp_fifo_dropped_bytes := x,
         tcp_rx_semaphore := (if k < length d then tcp_rx_semaphore ?s
                              else snd (post_handle None (tcp_rx_semaphore ?s)))\<rparr>)" by auto
    with loop h(2,3) k(3,4) show ?thesis by (auto simp: tcp_rx_round_def [of _ _ _ "TcpData []"])
  qed
  ultimately show ?thesis by (auto simp: tcp_read_def)
qed

text \<open>
  Reconnecting races with the receive task of the old connection. A detach does not wait for
  the task, so an attach can open a new connection before the old task sees that its socket is
  closed; when it does, it leaves its loop and its cleanup closes the sockets of the new
  connection.
\<close>

theorem tcp_old_task_closes_new:
  assumes "tcp_env_fresh env fds1"
    and "tcp_detach self fds = (None, s1, fds1)" and "tcp_attach env s1 fds1 = (None, s2, fds2)"
  shows "tcp_is_connected s2 \<and> tcp_rx_loop rf add32 [(None, TcpRecvErr EBADF)] s2 = Some (Some DTERR_IO, s2) \<and>
    (\<exists>s3 fds3. tcp_rx_cleanup rc s2 fds2 = (s3, fds3) \<and> \<not> tcp_is_connected s3 \<and>
       (0 \<le> tcp_fd s2 \<longrightarrow> tcp_fd s2 \<notin> set fds3) \<and> (0 \<le> tcp_listen_fd s2 \<longrightarrow> tcp_listen_fd s2 \<notin> set fds3))"
proof -
  have "tcp_fd s1 < 0" using assms(2) by (auto simp: tcp_detach_def close_if_open_def split: if_splits)
  from tcp_attach_result [OF assms(1) this assms(3)] have "tcp_is_connected s2" by simp
  then show ?thesis
    by (auto simp: tcp_rx_round_def tcp_rx_cleanup_def close_if_open_def)
qed

section \<open>Samples\<close>

text \<open>A connected client on the bounded list as its FIFO, and the answers for its attach.\<close>

definition sample_tcp :: "(byte list \<times> nat) dtiox_linux_tcp_t" where
  "sample_tcp = (snd (tcp_init list_fifo 1 None None))\<lparr>
     tcp_config := zero_tcp_config\<lparr>pc_remote_host := Some ''peer'', pc_remote_port := 502\<rparr>,
     tcp_fd := 5, tcp_is_connected := True, tcp_rx_fifo := ([], 4)\<rparr>"

definition sample_tcp_env :: tcp_attach_env where
  "sample_tcp_env = \<lparr>pa_addrs = Some [\<lparr>ct_sock = 7, ct_opts = \<lparr>so_keepalive_ok = True, so_nodelay_ok = True\<rparr>,
       ct_connect_ok = True\<rparr>],
     pa_listen = \<lparr>tl_tries = None, tl_listen_ok = True, tl_accept = -1,
       tl_opts = \<lparr>so_keepalive_ok = True, so_nodelay_ok = True\<rparr>\<rparr>,
     pa_task = \<lparr>ta_create = Inr running_tasker, ta_start = Inr running_tasker\<rparr>\<rparr>"

lemma sample_tcp_env_fresh: "tcp_env_fresh sample_tcp_env [0, 1]"
  by (simp add: tcp_env_fresh_def sample_tcp_env_def)

lemmas sample_tcp_defs = sample_tcp_def sample_tcp_env_def tcp_init_def zero_tcp_config_def tcp_attach_def
  tcp_connect_def connect_client_socket_def tcp_set_socket_common_options_def close_if_open_def

theorem tcp_attach_descriptors_witness:
  "7 \<in> set [0, 1 :: fd] \<union> {x. (x = 7 \<or> x = -1) \<and> 0 \<le> x}"
proof -
  let ?s = "sample_tcp\<lparr>tcp_fd := -1\<rparr>"
  have "tcp_attach sample_tcp_env ?s [0, 1] =
      (None, ?s\<lparr>tcp_fd := 7, tcp_listen_fd := -1, tcp_is_connected := True, tcp_rx_tasker := Some running_tasker\<rparr>, [7, 0, 1])"
    by (simp add: sample_tcp_defs)
  from tcp_attach_descriptors [OF sample_tcp_env_fresh _ this]
  have "set [7, 0, 1 :: fd] = set [0, 1] \<union> {x. (x = 7 \<or> x = -1) \<and> 0 \<le> x}" by simp
  then show ?thesis by auto
qed

theorem tcp_attach_without_socket_witness:
  "\<exists>self'. tcp_attach (sample_tcp_env\<lparr>pa_addrs := Some []\<rparr>) (sample_tcp\<lparr>tcp_fd := -1\<rparr>) [0] = (None, self', [0])
     \<and> tcp_is_connected self' \<and> tcp_fd self' = -1"
  using tcp_attach_without_socket [of "sample_tcp\<lparr>tcp_fd := -1\<rparr>" "sample_tcp_env\<lparr>pa_addrs := Some []\<rparr>" "[]"
      running_tasker running_tasker "[0]" "[]" 0 "[]"]
  by (auto simp: tcp_check_config_def sample_tcp_defs)

theorem tcp_close_loses_data_witness:
  "\<exists>s. tcp_read list_fifo s 4 = (Some DTERR_IO, [], s) \<and> tcp_rx_fifo s = ([1, 2], 4)"
proof -
  let ?s = "sample_tcp\<lparr>tcp_rx_fifo := ([1, 2], 4), tcp_is_connected := False, tcp_rx_thread_running := False,
      tcp_fd := -1\<rparr>"
  have "tcp_rx_task list_fifo (+) None [(None, TcpData [1, 2]), (None, TcpData [])] None sample_tcp [5, 0] =
      Some (Some DTERR_IO, ?s, [0])"
    by (simp add: tcp_rx_task_def tcp_rx_round_def tcp_rx_cleanup_def list_fifo_def sample_tcp_defs Let_def)
  from tcp_close_loses_data [OF this, of 4] have "tcp_read list_fifo ?s 4 = (Some DTERR_IO, [], ?s)"
    by (simp add: sample_tcp_defs)
  then show ?thesis by (intro exI [of _ ?s]) simp
qed

theorem tcp_old_task_closes_new_witness:
  "\<exists>s3 fds3. tcp_rx_cleanup None (sample_tcp\<lparr>tcp_fd := 7, tcp_rx_tasker := Some running_tasker\<rparr>) [7, 0, 1] = (s3, fds3)
     \<and> \<not> tcp_is_connected s3 \<and> 7 \<notin> set fds3"
proof -
  let ?s2 = "sample_tcp\<lparr>tcp_fd := 7, tcp_rx_tasker := Some running_tasker\<rparr>"
  have "tcp_detach sample_tcp [5, 0, 1] = (None, sample_tcp\<lparr>tcp_is_connected := False, tcp_fd := -1\<rparr>, [0, 1])"
    by (simp add: tcp_detach_def sample_tcp_defs)
  moreover have "tcp_attach sample_tcp_env (sample_tcp\<lparr>tcp_is_connected := False, tcp_fd := -1\<rparr>) [0, 1] = (None, ?s2, [7, 0, 1])"
    by (simp add: sample_tcp_defs)
  ultimately show ?thesis
    using tcp_old_task_closes_new [OF sample_tcp_env_fresh] by fastforce
qed

theorem tcp_end_to_end_witness:
  "\<exists>errs got b'. rx_run (tcp_arrive (list_fifo, (+))) (tcp_take (list_fifo, (+)))
       [Arrive [1], Read 2, Arrive [2, 3]] sample_tcp = (errs, got, b') \<and>
     (errs = 0 \<and> \<not> tcp_rx_overflow_flag b' \<longrightarrow> got @ tcp_pending (list_fifo, (+)) b' = [1, 2, 3])"
proof -
  let ?run = "rx_run (tcp_arrive (list_fifo, (+))) (tcp_take (list_fifo, (+))) [Arrive [1], Read 2, Arrive [2, 3]] sample_tcp"
  have w: "tcp_write sample_tcp [1, 2, 3] (int (length [1, 2, 3 :: byte])) [Sent 2, SendErr EINTR, Sent 1] =
      Some (None, sample_tcp, 3, [1, 2, 3])"
    by (simp add: tcp_write_def sample_tcp_defs numeral_2_eq_2 numeral_3_eq_3)
  have s: "0 \<le> tcp_fd sample_tcp" "tcp_is_connected sample_tcp" "tcp_live sample_tcp"
      "tcp_pending (list_fifo, (+)) sample_tcp = []"
    by (simp_all add: tcp_live_def tcp_pending_def list_fifo_def sample_tcp_defs)
  obtain errs got b' where run: "?run = (errs, got, b')" by (metis prod_cases3)
  have "errs = 0 \<and> \<not> tcp_rx_overflow_flag b' \<longrightarrow> got @ tcp_pending (list_fifo, (+)) b' = [1, 2, 3]"
    using tcp_end_to_end [OF w s(1,2) list_fifo_ok s(3,4) _ _ run] by (simp add: tcp_chunk_def)
  then show ?thesis using run by blast
qed

end
