(* ===== verification/Modbus.thy ===== *)
theory Modbus
  imports Dtiox Lock
begin

text \<open>
  What the three Modbus devices share: the register map and the packing helpers of dtmc_base and
  the calls of libmodbus, all parameters, and the use of the lock of an object. A byte message is
  a blob in holding registers: the master writes command, length and data into the area M2S of
  the slave, and reads status, length and data from the area S2M.
\<close>

section \<open>The register map\<close>

text \<open>
  The constants \<open>DTIOX_MODBUS_*\<close> and the functions \<open>dtmodbus_helpers_pack_bytes_to_regs\<close> and
  \<open>dtmodbus_helpers_unpack_regs_to_bytes\<close>; \<open>mc_blob_to_regs\<close> is the macro
  \<open>DTIOX_MODBUS_BLOB_TO_REGS\<close>.
\<close>

record modbus_consts =
  mc_m2s_cmd :: nat
  mc_m2s_len :: nat
  mc_m2s_data :: nat
  mc_s2m_status :: nat
  mc_s2m_len :: nat
  mc_s2m_data :: nat
  mc_max_blob_bytes :: int
  mc_max_blob_regs :: int
  mc_cmd_none :: u16
  mc_cmd_put_blob :: u16
  mc_cmd_give_me_any_data :: u16
  mc_status_no_data :: u16
  mc_status_has_data :: u16
  mc_tcp_default_port :: int
  mc_blob_to_regs :: "int \<Rightarrow> int"
  mc_pack :: "byte list \<Rightarrow> u16 list"
  mc_unpack :: "u16 list \<Rightarrow> int \<Rightarrow> byte list"

text \<open>
  What the devices rely on: a length register follows its command register and the data follow,
  the two areas are disjoint, commands and states differ, a blob's length fits a register, a blob
  takes at least a register, and unpacking a packed blob gives the blob.
\<close>

definition mc_layout_ok :: "modbus_consts \<Rightarrow> bool" where
  "mc_layout_ok c \<longleftrightarrow>
     mc_m2s_len c = mc_m2s_cmd c + 1 \<and> mc_m2s_data c = mc_m2s_cmd c + 2 \<and>
     mc_s2m_len c = mc_s2m_status c + 1 \<and> mc_s2m_status c + 2 \<le> mc_s2m_data c \<and>
     mc_m2s_data c + nat (mc_max_blob_regs c) \<le> mc_s2m_status c"

definition mc_codes_ok :: "modbus_consts \<Rightarrow> bool" where
  "mc_codes_ok c \<longleftrightarrow>
     mc_cmd_none c \<noteq> mc_cmd_put_blob c \<and> mc_cmd_none c \<noteq> mc_cmd_give_me_any_data c \<and>
     mc_cmd_put_blob c \<noteq> mc_cmd_give_me_any_data c \<and> mc_status_no_data c \<noteq> mc_status_has_data c"

definition mc_blob_ok :: "modbus_consts \<Rightarrow> bool" where
  "mc_blob_ok c \<longleftrightarrow> 0 < mc_max_blob_bytes c \<and> mc_max_blob_bytes c \<le> 65535 \<and>
     (\<forall>bs. int (length bs) \<le> mc_max_blob_bytes c \<longrightarrow>
        mc_blob_to_regs c (int (length bs)) = int (length (mc_pack c bs)) \<and>
        int (length (mc_pack c bs)) \<le> mc_max_blob_regs c \<and> (bs \<noteq> [] \<longrightarrow> mc_pack c bs \<noteq> []) \<and>
        (\<forall>rest. mc_unpack c (mc_pack c bs @ rest) (int (length bs)) = bs))"

definition modbus_consts_ok :: "modbus_consts \<Rightarrow> bool" where
  "modbus_consts_ok c \<longleftrightarrow> mc_layout_ok c \<and> mc_codes_ok c \<and> mc_blob_ok c"

lemma blob_facts:
  assumes "modbus_consts_ok c" "int (length bs) \<le> mc_max_blob_bytes c"
  shows "mc_blob_to_regs c (int (length bs)) = int (length (mc_pack c bs))"
    and "int (length (mc_pack c bs)) \<le> mc_max_blob_regs c"
    and "mc_unpack c (mc_pack c bs @ rest) (int (length bs)) = bs"
    and "mc_unpack c (mc_pack c bs) (int (length bs)) = bs"
    and "bs \<noteq> [] \<Longrightarrow> mc_pack c bs \<noteq> []"
  using assms unfolding modbus_consts_ok_def mc_blob_ok_def by (auto, metis append_Nil2)

text \<open>One byte to a register; the witnesses of the devices compute with it.\<close>

definition byte_consts :: modbus_consts where
  "byte_consts = \<lparr>mc_m2s_cmd = 0, mc_m2s_len = 1, mc_m2s_data = 2, mc_s2m_status = 6, mc_s2m_len = 7,
     mc_s2m_data = 8, mc_max_blob_bytes = 4, mc_max_blob_regs = 4, mc_cmd_none = 0, mc_cmd_put_blob = 1,
     mc_cmd_give_me_any_data = 2, mc_status_no_data = 0, mc_status_has_data = 1,
     mc_tcp_default_port = 502, mc_blob_to_regs = (\<lambda>n. n), mc_pack = map ucast,
     mc_unpack = (\<lambda>rs n. map ucast (take (nat n) rs))\<rparr>"

lemma byte_consts_ok: "modbus_consts_ok byte_consts"
proof -
  have "(ucast (ucast (b :: byte) :: u16) :: byte) = b" for b
    by (rule bit_word_eqI) (auto simp: bit_simps dest: bit_imp_le_length)
  then have "map ucast (map ucast bs :: u16 list) = (bs :: byte list)" for bs by (induction bs) auto
  then show ?thesis
    by (simp add: modbus_consts_ok_def mc_layout_ok_def mc_codes_ok_def mc_blob_ok_def byte_consts_def)
qed

section \<open>Registers\<close>

text \<open>Storing \<open>xs\<close> at index \<open>i\<close> of an array of registers.\<close>

definition store_regs :: "nat \<Rightarrow> u16 list \<Rightarrow> u16 list \<Rightarrow> u16 list" where
  "store_regs i xs regs = take i regs @ xs @ drop (i + length xs) regs"

lemma length_store_regs [simp]: "i + length xs \<le> length regs \<Longrightarrow> length (store_regs i xs regs) = length regs"
  by (simp add: store_regs_def)

lemma nth_store_regs:
  "i + length xs \<le> length regs \<Longrightarrow> j < length regs \<Longrightarrow>
     store_regs i xs regs ! j = (if i \<le> j \<and> j < i + length xs then xs ! (j - i) else regs ! j)"
  by (auto simp: store_regs_def nth_append min_def)

lemma drop_store_regs: "i \<le> length regs \<Longrightarrow> drop i (store_regs i xs regs) = xs @ drop (i + length xs) regs"
  by (simp add: store_regs_def)

section \<open>libmodbus\<close>

text \<open>
  The calls of a master, over the state \<open>'w\<close> of the context and of everything behind it. A call
  that the code only tests for failure answers whether it succeeded.
\<close>

record 'w modbus_api =
  ma_new :: "'w \<Rightarrow> bool \<times> 'w"
  ma_set_slave :: "int \<Rightarrow> 'w \<Rightarrow> bool \<times> 'w"
  ma_set_response_timeout :: "int \<Rightarrow> int \<Rightarrow> 'w \<Rightarrow> bool \<times> 'w"
  ma_set_byte_timeout :: "int \<Rightarrow> int \<Rightarrow> 'w \<Rightarrow> bool \<times> 'w"
  ma_set_rs485 :: "'w \<Rightarrow> 'w"
  ma_set_rts_up :: "'w \<Rightarrow> 'w"
  ma_connect :: "'w \<Rightarrow> bool \<times> 'w"
  ma_close :: "'w \<Rightarrow> 'w"
  ma_write_registers :: "nat \<Rightarrow> u16 list \<Rightarrow> 'w \<Rightarrow> int \<times> 'w"
  ma_read_registers :: "nat \<Rightarrow> int \<Rightarrow> 'w \<Rightarrow> int \<times> u16 list \<times> 'w"

section \<open>What configuring a device asks for\<close>

text \<open>The answers of \<open>malloc\<close>, \<open>dttasker_create\<close> and of the calls of \<open>dtlock_create\<close>.\<close>

record modbus_config_env =
  me_malloc_ok :: bool
  me_task_create :: "errcode + dttasker_t"
  me_lock :: lock_env

section \<open>The lock of an object\<close>

lemma acquire_free:
  assumes "lock_valid l" "lock_holder l = None"
  shows "\<exists>l1. dtlock_acquire t l = Some (None, l1) \<and> l1 \<noteq> None \<and> lock_holder l1 = Some t \<and> dtlock_release t l1 = Some (None, l)"
  using assms by (cases l) (auto simp: lock_defs split: option.splits mutex.splits)

end
