(* ===== verification/ModbusMaster.thy ===== *)
theory ModbusMaster
  imports Modbus Tty
begin

text \<open>
  The Modbus masters: \<open>dtiox_linux_modbus_tcp_master*.c\<close> and \<open>dtiox_linux_modbus_rtu_master*.c\<close> of
  \<open>dtmc_linux_library/src\<close>. The two files differ in configuration, attach, write and the
  reporting of the poll; the operations that are the same text are one definition here, and the
  RTU names are defined by it. Every operation runs under the lock of the object, in thread \<open>t\<close>;
  the result \<open>None\<close> says that the call waits for the lock for ever.
\<close>

section \<open>The object\<close>

record 'f modbus_master =
  mm_model_number :: int
  mm_poll_interval_ms :: int
  mm_response_timeout_ms :: int
  mm_max_blob_bytes :: int
  mm_rx_ring_capacity :: int
  mm_mb :: bool
  mm_is_connected :: bool
  mm_enabled :: bool
  mm_rx_semaphore :: "dtsemaphore_linux_t option"
  mm_stop_requested :: bool
  mm_rx_overflow_pending :: bool
  mm_dead_slave_pending :: bool
  mm_rx_fifo :: 'f
  mm_rx_fifo_storage :: bool
  mm_rx_tasker :: "dttasker_t option"
  mm_lock :: "dtlock_linux_t option"
  mm_is_malloced :: bool

record 'f dtiox_linux_modbus_tcp_master_t = "'f modbus_master" +
  mt_ip :: "string option"
  mt_port :: int
  mt_unit_id :: int

record 'f dtiox_linux_modbus_rtu_master_t = "'f modbus_master" +
  mr_device :: "string option"
  mr_uart_config :: dtuart_helper_config_t
  mr_slave_id :: int
  mr_byte_timeout_ms :: int
  mr_permit_retry_partial_writes :: bool
  mr_rs485_mode :: bool
  mr_rts_toggle :: bool

section \<open>Helpers\<close>

definition mm_release_lock ::
  "thread \<Rightarrow> ('f, 'x) modbus_master_scheme \<Rightarrow> dterr \<Rightarrow> (dterr \<times> ('f, 'x) modbus_master_scheme) option" where
  "mm_release_lock t self dterr_in =
     map_option (\<lambda>(e, l). (if dterr_in \<noteq> None then dterr_in else e, self\<lparr>mm_lock := l\<rparr>))
       (dtlock_release t (mm_lock self))"

definition mm_ensure_connected ::
  "'w modbus_api \<Rightarrow> ('f, 'x) modbus_master_scheme \<Rightarrow> 'w \<Rightarrow> dterr \<times> ('f, 'x) modbus_master_scheme \<times> 'w" where
  "mm_ensure_connected api self w =
     (if mm_is_connected self then (None, self, w)
      else (case ma_connect api w of
              (ok, w') \<Rightarrow> (if ok then None else Some DTERR_IO, self\<lparr>mm_is_connected := ok\<rparr>, w')))"

definition mm_ensure_disconnected ::
  "'w modbus_api \<Rightarrow> ('f, 'x) modbus_master_scheme \<Rightarrow> 'w \<Rightarrow> ('f, 'x) modbus_master_scheme \<times> 'w" where
  "mm_ensure_disconnected api self w = (self\<lparr>mm_is_connected := False\<rparr>, ma_close api w)"

definition mm_verify_rxtask_running :: "('f, 'x) modbus_master_scheme \<Rightarrow> dterr \<Rightarrow> dterr" where
  "mm_verify_rxtask_running self dterr_in =
     (let dterr = (case get_info_handle (mm_rx_tasker self) of
                     Inl e \<Rightarrow> Some e
                   | Inr (status, _) \<Rightarrow> if status \<noteq> TASK_RUNNING then Some DTERR_STATE else None)
      in if dterr_in \<noteq> None then dterr_in else dterr)"

text \<open>
  \<open>DTERR_C(dtlock_acquire)\<close>, the body, and the release at \<open>release_lock_and_cleanup\<close>. The body
  returns its error and a result, which is \<open>none\<close> when the lock is refused.
\<close>

definition mm_locked ::
  "thread \<Rightarrow> 'r \<Rightarrow> (('f, 'x) modbus_master_scheme \<Rightarrow> 'w \<Rightarrow> dterr \<times> 'r \<times> ('f, 'x) modbus_master_scheme \<times> 'w)
     \<Rightarrow> ('f, 'x) modbus_master_scheme \<Rightarrow> 'w \<Rightarrow> (dterr \<times> 'r \<times> ('f, 'x) modbus_master_scheme \<times> 'w) option" where
  "mm_locked t none body self w =
     (case dtlock_acquire t (mm_lock self) of
        None \<Rightarrow> None
      | Some (Some e, l) \<Rightarrow> Some (Some e, none, self\<lparr>mm_lock := l\<rparr>, w)
      | Some (None, l) \<Rightarrow>
          (case body (self\<lparr>mm_lock := l\<rparr>) w of
             (e, r, self', w') \<Rightarrow> map_option (\<lambda>(e', s). (e', r, s, w')) (mm_release_lock t self' e)))"

section \<open>The operations the masters share\<close>

definition mm_detach ::
  "'w modbus_api \<Rightarrow> thread \<Rightarrow> ('f, 'x) modbus_master_scheme \<Rightarrow> 'w
     \<Rightarrow> (dterr \<times> unit \<times> ('f, 'x) modbus_master_scheme \<times> 'w) option" where
  "mm_detach api t =
     mm_locked t ()
       (\<lambda>self w. (None, (), self\<lparr>mm_stop_requested := True, mm_enabled := False\<rparr>,
                  if mm_mb self then ma_close api w else w))"

definition mm_enable ::
  "'f ringfifo \<Rightarrow> thread \<Rightarrow> bool \<Rightarrow> ('f, 'x) modbus_master_scheme \<Rightarrow> 'w
     \<Rightarrow> (dterr \<times> unit \<times> ('f, 'x) modbus_master_scheme \<times> 'w) option" where
  "mm_enable rf t enabled =
     mm_locked t ()
       (\<lambda>self w. (None, (), self\<lparr>mm_enabled := enabled, mm_rx_fifo := rf_reset rf (mm_rx_fifo self),
                    mm_rx_overflow_pending := False, mm_dead_slave_pending := False\<rparr>, w))"

text \<open>The bytes read, \<open>None\<close> where \<open>*out_read\<close> is not written.\<close>

definition mm_read_locked ::
  "'f ringfifo \<Rightarrow> int \<Rightarrow> ('f, 'x) modbus_master_scheme \<Rightarrow> 'w
     \<Rightarrow> dterr \<times> byte list option \<times> ('f, 'x) modbus_master_scheme \<times> 'w" where
  "mm_read_locked rf buf_len self w =
     (if mm_dead_slave_pending self then (Some DTERR_TIMEOUT, None, self\<lparr>mm_dead_slave_pending := False\<rparr>, w)
      else if mm_rx_overflow_pending self
      then (Some DTERR_OVERFLOW, None, self\<lparr>mm_rx_overflow_pending := False\<rparr>, w)
      else if \<not> mm_enabled self then (None, Some [], self, w)
      else (case rf_pop rf (mm_rx_fifo self) buf_len of (d, f) \<Rightarrow> (None, Some d, self\<lparr>mm_rx_fifo := f\<rparr>, w)))"

definition mm_read ::
  "'f ringfifo \<Rightarrow> thread \<Rightarrow> int \<Rightarrow> ('f, 'x) modbus_master_scheme
     \<Rightarrow> (dterr \<times> byte list option \<times> ('f, 'x) modbus_master_scheme) option" where
  "mm_read rf t buf_len self =
     (if mm_lock self = None \<or> \<not> mm_mb self then Some (Some DTERR_ASSERT, None, self)
      else if buf_len < 0 then Some (Some DTERR_BADARG, None, self)
      else (case dtlock_acquire t (mm_lock self) of
              None \<Rightarrow> None
            | Some (Some e, l) \<Rightarrow> Some (Some e, None, self\<lparr>mm_lock := l\<rparr>)
            | Some (None, l) \<Rightarrow>
                (case mm_read_locked rf buf_len (self\<lparr>mm_lock := l\<rparr>) () of
                   (e, r, self', _) \<Rightarrow>
                     map_option (\<lambda>(e', s). (mm_verify_rxtask_running s e', r, s)) (mm_release_lock t self' e))))"

definition mm_set_rx_semaphore ::
  "thread \<Rightarrow> dtsemaphore_linux_t option \<Rightarrow> ('f, 'x) modbus_master_scheme \<Rightarrow> 'w
     \<Rightarrow> (dterr \<times> unit \<times> ('f, 'x) modbus_master_scheme \<times> 'w) option" where
  "mm_set_rx_semaphore t sem = mm_locked t () (\<lambda>self w. (None, (), self\<lparr>mm_rx_semaphore := sem\<rparr>, w))"

text \<open>
  \<open>dispose\<close> leaves the object, with its handle of the lock, and frees the memory of the lock: the
  second component is what is left of that.
\<close>

definition mm_dispose ::
  "('f, 'x) modbus_master_scheme \<Rightarrow> ('f, 'x) modbus_master_scheme \<times> dtlock_linux_t option" where
  "mm_dispose self = (self, dtlock_dispose (mm_lock self))"

definition mm_equals ::
  "('f, 'x) modbus_master_scheme option \<Rightarrow> ('f, 'x) modbus_master_scheme option \<Rightarrow> bool" where
  "mm_equals a b =
     (case (a, b) of (Some x, Some y) \<Rightarrow> mm_model_number x = mm_model_number y | _ \<Rightarrow> False)"

text \<open>The storage of the ring, the receive task and the lock at the end of \<open>configure\<close>.\<close>

definition mm_configure_resources ::
  "'f ringfifo \<Rightarrow> modbus_config_env \<Rightarrow> ('f, 'x) modbus_master_scheme \<Rightarrow> dterr \<times> ('f, 'x) modbus_master_scheme" where
  "mm_configure_resources rf env self =
     (let cap = (if mm_rx_ring_capacity self = 0 then 1024 else mm_rx_ring_capacity self);
          self1 = self\<lparr>mm_rx_ring_capacity := cap, mm_rx_fifo_storage := me_malloc_ok env\<rparr> in
      if mm_rx_ring_capacity self < 0 then (Some DTERR_BADARG, self)
      else if \<not> me_malloc_ok env then (Some DTERR_NOMEM, self1)
      else (case rf_configure rf cap (mm_rx_fifo self1) of
              (e, f) \<Rightarrow>
                let self2 = self1\<lparr>mm_rx_fifo := f\<rparr> in
                if e \<noteq> None then (e, self2)
                else (case me_task_create env of
                        Inl e \<Rightarrow> (Some e, self2)
                      | Inr task \<Rightarrow>
                          (case dtlock_create (me_lock env) (mm_lock self2) of
                             (e, l) \<Rightarrow> (e, self2\<lparr>mm_rx_tasker := Some task, mm_lock := l\<rparr>)))))"

definition mm_config_defaults :: "modbus_consts \<Rightarrow> ('f, 'x) modbus_master_scheme \<Rightarrow> ('f, 'x) modbus_master_scheme" where
  "mm_config_defaults c self =
     self\<lparr>mm_poll_interval_ms := (if mm_poll_interval_ms self \<le> 0 then 25 else mm_poll_interval_ms self),
          mm_response_timeout_ms := (if mm_response_timeout_ms self \<le> 0 then 250 else mm_response_timeout_ms self),
          mm_max_blob_bytes := (if mm_max_blob_bytes self \<le> 0 \<or> mc_max_blob_bytes c < mm_max_blob_bytes self
                                then mc_max_blob_bytes c else mm_max_blob_bytes self)\<rparr>"

text \<open>
  The end of \<open>attach\<close>, after the calls that set the context up: the flags, the connection, the
  receive task. \<open>DTERR_C(dttasker_start)\<close> jumps behind the release of the lock.
\<close>

definition mm_attach_end ::
  "'w modbus_api \<Rightarrow> (errcode + dttasker_t) \<Rightarrow> thread \<Rightarrow> ('f, 'x) modbus_master_scheme \<Rightarrow> 'w
     \<Rightarrow> (dterr \<times> ('f, 'x) modbus_master_scheme \<times> 'w) option" where
  "mm_attach_end api start t self0 w =
     (let self = self0\<lparr>mm_rx_overflow_pending := False, mm_dead_slave_pending := False,
                       mm_enabled := True, mm_stop_requested := False\<rparr> in
      case mm_ensure_connected api self w of
        (Some e, self1, w1) \<Rightarrow> map_option (\<lambda>(e', s). (e', s, w1)) (mm_release_lock t self1 (Some e))
      | (None, self1, w1) \<Rightarrow>
          (case start of
             Inl e \<Rightarrow> Some (Some e, self1, w1)
           | Inr task \<Rightarrow>
               map_option (\<lambda>(e', s). (e', s, w1)) (mm_release_lock t (self1\<lparr>mm_rx_tasker := Some task\<rparr>) None)))"

text \<open>\<open>modbus_set_response_timeout(ms / 1000, (ms % 1000) * 1000)\<close>.\<close>

definition timeout_args :: "int \<Rightarrow> int \<times> int" where
  "timeout_args ms = (ms div 1000, (ms mod 1000) * 1000)"


text \<open>What the object and its copy of the configuration hold after the \<open>memset\<close>.\<close>

definition mm_zero :: "'f ringfifo \<Rightarrow> int \<Rightarrow> 'f modbus_master" where
  "mm_zero rf model = \<lparr>mm_model_number = model, mm_poll_interval_ms = 0, mm_response_timeout_ms = 0,
     mm_max_blob_bytes = 0, mm_rx_ring_capacity = 0, mm_mb = False, mm_is_connected = False,
     mm_enabled = False, mm_rx_semaphore = None, mm_stop_requested = False,
     mm_rx_overflow_pending = False, mm_dead_slave_pending = False, mm_rx_fifo = snd (rf_init rf),
     mm_rx_fifo_storage = False, mm_rx_tasker = None, mm_lock = None, mm_is_malloced = False\<rparr>"

text \<open>The registrations of the vtables and \<open>dtringfifo_init\<close>, in the order of \<open>init\<close>.\<close>

definition mm_init_error :: "'f ringfifo \<Rightarrow> dterr \<Rightarrow> dterr \<Rightarrow> dterr" where
  "mm_init_error rf reg1 reg2 = (if reg1 \<noteq> None then reg1 else if reg2 \<noteq> None then reg2 else fst (rf_init rf))"

section \<open>The TCP master\<close>

definition mtcp_init ::
  "'f ringfifo \<Rightarrow> int \<Rightarrow> dterr \<Rightarrow> dterr \<Rightarrow> dterr \<times> 'f dtiox_linux_modbus_tcp_master_t" where
  "mtcp_init rf model reg1 reg2 =
     (mm_init_error rf reg1 reg2,
      modbus_master.extend (mm_zero rf model) \<lparr>mt_ip = None, mt_port = 0, mt_unit_id = 0\<rparr>)"

definition mtcp_create ::
  "bool \<Rightarrow> 'f ringfifo \<Rightarrow> int \<Rightarrow> dterr \<Rightarrow> dterr \<Rightarrow> dterr \<times> 'f dtiox_linux_modbus_tcp_master_t option" where
  "mtcp_create malloc_ok rf model reg1 reg2 =
     (if \<not> malloc_ok then (Some DTERR_NOMEM, None)
      else (case mtcp_init rf model reg1 reg2 of
              (Some e, _) \<Rightarrow> (Some e, None)
            | (None, self) \<Rightarrow> (None, Some (self\<lparr>mm_is_malloced := True\<rparr>))))"

record tcp_master_config =
  tm_ip :: "string option"
  tm_port :: int
  tm_unit_id :: int
  tm_poll_interval_ms :: int
  tm_response_timeout_ms :: int
  tm_max_blob_bytes :: int
  tm_rx_ring_capacity :: int

definition mtcp_configure ::
  "modbus_consts \<Rightarrow> 'f ringfifo \<Rightarrow> modbus_config_env \<Rightarrow> 'f dtiox_linux_modbus_tcp_master_t \<Rightarrow> tcp_master_config
     \<Rightarrow> dterr \<times> 'f dtiox_linux_modbus_tcp_master_t" where
  "mtcp_configure c rf env self cfg =
     (if tm_ip cfg = None then (Some DTERR_ASSERT, self)
      else
        let self1 = self\<lparr>mm_poll_interval_ms := tm_poll_interval_ms cfg,
               mm_response_timeout_ms := tm_response_timeout_ms cfg,
               mm_max_blob_bytes := tm_max_blob_bytes cfg, mm_rx_ring_capacity := tm_rx_ring_capacity cfg,
               mt_ip := tm_ip cfg,
               mt_port := (if tm_port cfg = 0 then mc_tcp_default_port c else tm_port cfg),
               mt_unit_id := (if tm_unit_id cfg = 0 then 1 else tm_unit_id cfg)\<rparr>
        in mm_configure_resources rf env (mm_config_defaults c self1))"

text \<open>
  \<open>dtiox_linux_modbus_tcp_master_attach\<close>. The two \<open>ERRNO_C\<close> calls jump behind the release of the
  lock. \<open>start\<close> is the answer of \<open>dttasker_start\<close>.
\<close>

definition mtcp_attach ::
  "'w modbus_api \<Rightarrow> (errcode + dttasker_t) \<Rightarrow> thread \<Rightarrow> 'f dtiox_linux_modbus_tcp_master_t \<Rightarrow> 'w
     \<Rightarrow> (dterr \<times> 'f dtiox_linux_modbus_tcp_master_t \<times> 'w) option" where
  "mtcp_attach api start t self w =
     (if mm_lock self = None then Some (Some DTERR_ASSERT, self, w)
      else (case dtlock_acquire t (mm_lock self) of
              None \<Rightarrow> None
            | Some (Some e, l) \<Rightarrow> Some (Some e, self\<lparr>mm_lock := l\<rparr>, w)
            | Some (None, l) \<Rightarrow>
                (case ma_new api w of
                   (new_ok, w1) \<Rightarrow>
                     let self1 = self\<lparr>mm_lock := l, mm_mb := new_ok\<rparr> in
                     if \<not> new_ok
                     then map_option (\<lambda>(e, s). (e, s, w1)) (mm_release_lock t self1 (Some DTERR_IO))
                     else (case ma_set_slave api (mt_unit_id self1) w1 of
                             (False, w2) \<Rightarrow> Some (Some DTERR_IO, self1, w2)
                           | (True, w2) \<Rightarrow>
                               (case timeout_args (mm_response_timeout_ms self1) of
                                  (sec, usec) \<Rightarrow>
                                    (case ma_set_response_timeout api sec usec w2 of
                                       (False, w3) \<Rightarrow> Some (Some DTERR_IO, self1, w3)
                                     | (True, w3) \<Rightarrow> mm_attach_end api start t self1 w3))))))"

text \<open>The registers of a \<open>PUT_BLOB\<close>: command, length, data.\<close>

definition put_blob_regs :: "modbus_consts \<Rightarrow> byte list \<Rightarrow> int \<Rightarrow> u16 list" where
  "put_blob_regs c p data_regs =
     [mc_cmd_put_blob c, word_of_int (int (length p))] @ take (nat data_regs) (mc_pack c p)"

definition mtcp_write_locked ::
  "modbus_consts \<Rightarrow> 'w modbus_api \<Rightarrow> byte list \<Rightarrow> 'f dtiox_linux_modbus_tcp_master_t \<Rightarrow> 'w
     \<Rightarrow> dterr \<times> int option \<times> 'f dtiox_linux_modbus_tcp_master_t \<times> 'w" where
  "mtcp_write_locked c api buf self w =
     (let fail = (\<lambda>e s w. case mm_ensure_disconnected api s w of (s', w') \<Rightarrow> (Some e, None, s', w')) in
      if \<not> mm_enabled self then (None, Some 0, self, w)
      else (case mm_ensure_connected api self w of
              (Some e, self1, w1) \<Rightarrow> fail e self1 w1
            | (None, self1, w1) \<Rightarrow>
                let max_len = mm_max_blob_bytes self1;
                    send_len = (if max_len < int (length buf) then max_len else int (length buf));
                    data_regs = min (mc_blob_to_regs c send_len) (mc_max_blob_regs c);
                    total_regs = 2 + data_regs
                in (case ma_write_registers api (mc_m2s_cmd c) (put_blob_regs c (take (nat send_len) buf) data_regs) w1 of
                      (rc, w2) \<Rightarrow>
                        if rc < 0 then fail DTERR_IO self1 w2
                        else if rc \<noteq> total_regs then fail DTERR_IO self1 w2
                        else (None, Some send_len, self1, w2))))"

text \<open>\<open>*out_written\<close>, \<open>None\<close> where it is not written. \<open>buf\<close> holds at least \<open>len\<close> bytes.\<close>

definition mtcp_write ::
  "modbus_consts \<Rightarrow> 'w modbus_api \<Rightarrow> thread \<Rightarrow> byte list \<Rightarrow> int \<Rightarrow> 'f dtiox_linux_modbus_tcp_master_t \<Rightarrow> 'w
     \<Rightarrow> (dterr \<times> int option \<times> 'f dtiox_linux_modbus_tcp_master_t \<times> 'w) option" where
  "mtcp_write c api t buf len self w =
     (if mm_lock self = None \<or> \<not> mm_mb self then Some (Some DTERR_ASSERT, None, self, w)
      else if len < 0 then Some (Some DTERR_BADARG, None, self, w)
      else mm_locked t None (mtcp_write_locked c api (take (nat len) buf)) self w)"

section \<open>Polling\<close>

text \<open>The payload of a response: its bytes go to the FIFO; the number stored.\<close>

definition mm_store :: "modbus_consts \<Rightarrow> 'f ringfifo \<Rightarrow> u16 list \<Rightarrow> int \<Rightarrow> ('f, 'x) modbus_master_scheme \<Rightarrow> int \<times> ('f, 'x) modbus_master_scheme" where
  "mm_store c rf data_regs byte_len self =
     (case rf_push rf (mm_rx_fifo self) (mc_unpack c data_regs byte_len) of
        (written, f) \<Rightarrow>
          (written, if written < byte_len then self\<lparr>mm_rx_fifo := f, mm_rx_overflow_pending := True\<rparr>
                    else self\<lparr>mm_rx_fifo := f\<rparr>))"

definition poll_len :: "int \<Rightarrow> u16 \<Rightarrow> u16" where
  "poll_len max_blob byte_len =
     (if (word_of_int max_blob :: u16) < byte_len then word_of_int max_blob else byte_len)"

definition mm_max_blob :: "modbus_consts \<Rightarrow> ('f, 'x) modbus_master_scheme \<Rightarrow> int" where
  "mm_max_blob c self = min (mm_max_blob_bytes self) (mc_max_blob_bytes c)"

text \<open>One poll of the TCP master's task, under the lock: write the command, read the header, read the data.\<close>

definition mtcp_poll ::
  "modbus_consts \<Rightarrow> 'f ringfifo \<Rightarrow> 'w modbus_api \<Rightarrow> int \<Rightarrow> ('f, 'x) modbus_master_scheme \<Rightarrow> 'w
     \<Rightarrow> dterr \<times> unit \<times> ('f, 'x) modbus_master_scheme \<times> 'w" where
  "mtcp_poll c rf api max_blob self w =
     (case ma_write_registers api (mc_m2s_cmd c) [mc_cmd_give_me_any_data c, 0] w of
        (rc, w1) \<Rightarrow>
          if rc \<noteq> 2 then (Some DTERR_FAIL, (), self\<lparr>mm_dead_slave_pending := True\<rparr>, w1)
          else (case ma_read_registers api (mc_s2m_status c) 2 w1 of
                  (rc, hdr, w2) \<Rightarrow>
                    if rc \<noteq> 2 then (Some DTERR_FAIL, (), self, w2)
                    else if hdr ! 0 = mc_status_has_data c \<and> 0 < hdr ! 1
                    then let byte_len = uint (poll_len max_blob (hdr ! 1));
                             need_regs = min (mc_blob_to_regs c byte_len) (mc_max_blob_regs c) in
                         (case ma_read_registers api (mc_s2m_data c) need_regs w2 of
                            (rc, data_regs, w3) \<Rightarrow>
                              if rc \<noteq> need_regs then (Some DTERR_FAIL, (), self, w3)
                              else (None, (), snd (mm_store c rf data_regs byte_len self), w3))
                    else (None, (), self, w2)))"

text \<open>
  A round of the task: a snapshot under the lock, then the poll under the lock again. \<open>poll\<close> is
  the poll of the device. \<open>None\<close>: waiting for the lock.
\<close>

definition mm_rx_round ::
  "(int \<Rightarrow> ('f, 'x) modbus_master_scheme \<Rightarrow> 'w \<Rightarrow> dterr \<times> unit \<times> ('f, 'x) modbus_master_scheme \<times> 'w)
     \<Rightarrow> modbus_consts \<Rightarrow> thread \<Rightarrow> ('f, 'x) modbus_master_scheme \<Rightarrow> 'w
     \<Rightarrow> (rx_outcome \<times> ('f, 'x) modbus_master_scheme \<times> 'w) option" where
  "mm_rx_round poll c t self w =
     (case mm_locked t (True, False, 0) (\<lambda>s w. (None, (mm_stop_requested s, mm_enabled s \<and> mm_mb s, mm_max_blob c s), s, w)) self w of
        None \<Rightarrow> None
      | Some (Some e, _, s, w1) \<Rightarrow> Some (RxExit (Some e), s, w1)
      | Some (None, (stop, ok_to_poll, max_blob), s, w1) \<Rightarrow>
          if stop then Some (RxExit None, s, w1)
          else if \<not> ok_to_poll then Some (RxGoOn, s, w1)
          else map_option (\<lambda>(e, _, s', w2). (case e of None \<Rightarrow> RxGoOn | Some _ \<Rightarrow> RxExit e, s', w2))
                 (mm_locked t () (poll max_blob) s w1))"

text \<open>\<open>n\<close> rounds; \<open>None\<close>: the task is still running after them, or waits for the lock.\<close>

fun mm_rx_loop ::
  "(int \<Rightarrow> ('f, 'x) modbus_master_scheme \<Rightarrow> 'w \<Rightarrow> dterr \<times> unit \<times> ('f, 'x) modbus_master_scheme \<times> 'w)
     \<Rightarrow> modbus_consts \<Rightarrow> thread \<Rightarrow> nat \<Rightarrow> ('f, 'x) modbus_master_scheme \<Rightarrow> 'w
     \<Rightarrow> (dterr \<times> ('f, 'x) modbus_master_scheme \<times> 'w) option" where
  "mm_rx_loop poll c t 0 self w = None"
| "mm_rx_loop poll c t (Suc n) self w =
     (case mm_rx_round poll c t self w of
        None \<Rightarrow> None
      | Some (RxGoOn, s, w1) \<Rightarrow> mm_rx_loop poll c t n s w1
      | Some (RxExit e, s, w1) \<Rightarrow> Some (e, s, w1))"

definition mtcp_rx_task ::
  "modbus_consts \<Rightarrow> 'f ringfifo \<Rightarrow> 'w modbus_api \<Rightarrow> dterr \<Rightarrow> thread \<Rightarrow> nat \<Rightarrow> 'f dtiox_linux_modbus_tcp_master_t \<Rightarrow> 'w
     \<Rightarrow> (dterr \<times> 'f dtiox_linux_modbus_tcp_master_t \<times> 'w) option" where
  "mtcp_rx_task c rf api ready t n self w =
     (if mm_lock self = None \<or> \<not> mm_mb self then Some (Some DTERR_ASSERT, self, w)
      else if ready \<noteq> None then Some (ready, self, w)
      else mm_rx_loop (mtcp_poll c rf api) c t n self w)"


section \<open>The RTU master\<close>

definition mrtu_release_lock ::
  "thread \<Rightarrow> 'f dtiox_linux_modbus_rtu_master_t \<Rightarrow> dterr \<Rightarrow> (dterr \<times> 'f dtiox_linux_modbus_rtu_master_t) option" where
  "mrtu_release_lock = mm_release_lock"

definition mrtu_ensure_connected ::
  "'w modbus_api \<Rightarrow> 'f dtiox_linux_modbus_rtu_master_t \<Rightarrow> 'w \<Rightarrow> dterr \<times> 'f dtiox_linux_modbus_rtu_master_t \<times> 'w" where
  "mrtu_ensure_connected = mm_ensure_connected"

definition mrtu_ensure_disconnected ::
  "'w modbus_api \<Rightarrow> 'f dtiox_linux_modbus_rtu_master_t \<Rightarrow> 'w \<Rightarrow> 'f dtiox_linux_modbus_rtu_master_t \<times> 'w" where
  "mrtu_ensure_disconnected = mm_ensure_disconnected"

definition mrtu_verify_rxtask_running :: "'f dtiox_linux_modbus_rtu_master_t \<Rightarrow> dterr \<Rightarrow> dterr" where
  "mrtu_verify_rxtask_running = mm_verify_rxtask_running"

definition mrtu_detach ::
  "'w modbus_api \<Rightarrow> thread \<Rightarrow> 'f dtiox_linux_modbus_rtu_master_t \<Rightarrow> 'w
     \<Rightarrow> (dterr \<times> unit \<times> 'f dtiox_linux_modbus_rtu_master_t \<times> 'w) option" where
  "mrtu_detach = mm_detach"

definition mrtu_enable ::
  "'f ringfifo \<Rightarrow> thread \<Rightarrow> bool \<Rightarrow> 'f dtiox_linux_modbus_rtu_master_t \<Rightarrow> 'w
     \<Rightarrow> (dterr \<times> unit \<times> 'f dtiox_linux_modbus_rtu_master_t \<times> 'w) option" where
  "mrtu_enable = mm_enable"

definition mrtu_read ::
  "'f ringfifo \<Rightarrow> thread \<Rightarrow> int \<Rightarrow> 'f dtiox_linux_modbus_rtu_master_t
     \<Rightarrow> (dterr \<times> byte list option \<times> 'f dtiox_linux_modbus_rtu_master_t) option" where
  "mrtu_read = mm_read"

definition mrtu_set_rx_semaphore ::
  "thread \<Rightarrow> dtsemaphore_linux_t option \<Rightarrow> 'f dtiox_linux_modbus_rtu_master_t \<Rightarrow> 'w
     \<Rightarrow> (dterr \<times> unit \<times> 'f dtiox_linux_modbus_rtu_master_t \<times> 'w) option" where
  "mrtu_set_rx_semaphore = mm_set_rx_semaphore"

definition mrtu_dispose ::
  "'f dtiox_linux_modbus_rtu_master_t \<Rightarrow> 'f dtiox_linux_modbus_rtu_master_t \<times> dtlock_linux_t option" where
  "mrtu_dispose = mm_dispose"

definition mrtu_equals ::
  "'f dtiox_linux_modbus_rtu_master_t option \<Rightarrow> 'f dtiox_linux_modbus_rtu_master_t option \<Rightarrow> bool" where
  "mrtu_equals = mm_equals"

definition mrtu_init ::
  "'f ringfifo \<Rightarrow> int \<Rightarrow> dtuart_helper_config_t \<Rightarrow> dterr \<Rightarrow> dterr \<Rightarrow> dterr \<times> 'f dtiox_linux_modbus_rtu_master_t" where
  "mrtu_init rf model zero_uart reg1 reg2 =
     (mm_init_error rf reg1 reg2,
      modbus_master.extend (mm_zero rf model)
        \<lparr>mr_device = None, mr_uart_config = zero_uart, mr_slave_id = 0, mr_byte_timeout_ms = 0,
         mr_permit_retry_partial_writes = False, mr_rs485_mode = False, mr_rts_toggle = False\<rparr>)"

definition mrtu_create ::
  "bool \<Rightarrow> 'f ringfifo \<Rightarrow> int \<Rightarrow> dtuart_helper_config_t \<Rightarrow> dterr \<Rightarrow> dterr
     \<Rightarrow> dterr \<times> 'f dtiox_linux_modbus_rtu_master_t option" where
  "mrtu_create malloc_ok rf model zero_uart reg1 reg2 =
     (if \<not> malloc_ok then (Some DTERR_NOMEM, None)
      else (case mrtu_init rf model zero_uart reg1 reg2 of
              (Some e, _) \<Rightarrow> (Some e, None)
            | (None, self) \<Rightarrow> (None, Some (self\<lparr>mm_is_malloced := True\<rparr>))))"

record rtu_master_config =
  rm_device :: "string option"
  rm_uart_config :: dtuart_helper_config_t
  rm_slave_id :: int
  rm_poll_interval_ms :: int
  rm_response_timeout_ms :: int
  rm_byte_timeout_ms :: int
  rm_max_blob_bytes :: int
  rm_permit_retry_partial_writes :: bool
  rm_rx_ring_capacity :: int
  rm_rs485_mode :: bool
  rm_rts_toggle :: bool

text \<open>\<open>uart_error\<close>: the answer of \<open>dtuart_helper_validate\<close> of dtmc_base.\<close>

definition mrtu_configure ::
  "modbus_consts \<Rightarrow> 'f ringfifo \<Rightarrow> (dtuart_helper_config_t \<Rightarrow> dterr) \<Rightarrow> modbus_config_env
     \<Rightarrow> 'f dtiox_linux_modbus_rtu_master_t \<Rightarrow> rtu_master_config \<Rightarrow> dterr \<times> 'f dtiox_linux_modbus_rtu_master_t" where
  "mrtu_configure c rf uart_error env self cfg =
     (if rm_device cfg = None then (Some DTERR_ASSERT, self)
      else if uart_error (rm_uart_config cfg) \<noteq> None then (uart_error (rm_uart_config cfg), self)
      else
        let self1 = self\<lparr>mm_poll_interval_ms := rm_poll_interval_ms cfg,
               mm_response_timeout_ms := rm_response_timeout_ms cfg,
               mm_max_blob_bytes := rm_max_blob_bytes cfg, mm_rx_ring_capacity := rm_rx_ring_capacity cfg,
               mr_device := rm_device cfg, mr_uart_config := rm_uart_config cfg,
               mr_slave_id := (if rm_slave_id cfg = 0 then 1 else rm_slave_id cfg),
               mr_byte_timeout_ms := rm_byte_timeout_ms cfg,
               mr_permit_retry_partial_writes := rm_permit_retry_partial_writes cfg,
               mr_rs485_mode := rm_rs485_mode cfg, mr_rts_toggle := rm_rts_toggle cfg\<rparr>
        in mm_configure_resources rf env (mm_config_defaults c self1))"

text \<open>The arguments of \<open>modbus_new_rtu\<close>: parity, data bits, stop bits.\<close>

definition rtu_parity :: "dtuart_parity_t \<Rightarrow> char" where
  "rtu_parity p =
     (if p = DTUART_PARITY_EVEN then CHR ''E'' else if p = DTUART_PARITY_ODD then CHR ''O''
      else if p = DTUART_PARITY_NONE then CHR ''N'' else CHR 0x3F)"

definition rtu_data_bits :: "dtuart_data_bits_t \<Rightarrow> int" where
  "rtu_data_bits b = (if b = DTUART_DATA_BITS_7 then 7 else if b = DTUART_DATA_BITS_8 then 8 else 0)"

definition rtu_stop_bits :: "dtuart_stopbits_t \<Rightarrow> int" where
  "rtu_stop_bits s = (if s = DTUART_STOPBITS_1 then 1 else if s = DTUART_STOPBITS_2 then 2 else 0)"

text \<open>
  \<open>dtiox_linux_modbus_rtu_master_attach\<close>; \<open>new_rtu\<close> is \<open>modbus_new_rtu\<close>. The three \<open>ERRNO_C\<close>
  calls jump behind the release of the lock.
\<close>

definition mrtu_attach ::
  "'w modbus_api \<Rightarrow> (string option \<Rightarrow> int \<Rightarrow> char \<Rightarrow> int \<Rightarrow> int \<Rightarrow> 'w \<Rightarrow> bool \<times> 'w) \<Rightarrow> (errcode + dttasker_t) \<Rightarrow> thread
     \<Rightarrow> 'f dtiox_linux_modbus_rtu_master_t \<Rightarrow> 'w \<Rightarrow> (dterr \<times> 'f dtiox_linux_modbus_rtu_master_t \<times> 'w) option" where
  "mrtu_attach api new_rtu start t self w =
     (if mm_lock self = None then Some (Some DTERR_ASSERT, self, w)
      else (case dtlock_acquire t (mm_lock self) of
              None \<Rightarrow> None
            | Some (Some e, l) \<Rightarrow> Some (Some e, self\<lparr>mm_lock := l\<rparr>, w)
            | Some (None, l) \<Rightarrow>
                let u = mr_uart_config self in
                (case new_rtu (mr_device self) (uc_baudrate u) (rtu_parity (uc_parity u))
                        (rtu_data_bits (uc_data_bits u)) (rtu_stop_bits (uc_stop_bits u)) w of
                   (new_ok, w1) \<Rightarrow>
                     let self1 = self\<lparr>mm_lock := l, mm_mb := new_ok\<rparr> in
                     if \<not> new_ok
                     then map_option (\<lambda>(e, s). (e, s, w1)) (mm_release_lock t self1 (Some DTERR_IO))
                     else (case ma_set_slave api (mr_slave_id self1) w1 of
                             (False, w2) \<Rightarrow> Some (Some DTERR_IO, self1, w2)
                           | (True, w2) \<Rightarrow>
                               (case timeout_args (mm_response_timeout_ms self1) of
                                  (sec, usec) \<Rightarrow>
                                    (case ma_set_response_timeout api sec usec w2 of
                                       (False, w3) \<Rightarrow> Some (Some DTERR_IO, self1, w3)
                                     | (True, w3) \<Rightarrow>
                                         (case (if 0 < mr_byte_timeout_ms self1
                                                then (case timeout_args (mr_byte_timeout_ms self1) of
                                                        (s, us) \<Rightarrow> ma_set_byte_timeout api s us w3)
                                                else (True, w3)) of
                                            (False, w4) \<Rightarrow> Some (Some DTERR_IO, self1, w4)
                                          | (True, w4) \<Rightarrow>
                                              let w5 = (if mr_rs485_mode self1 then ma_set_rs485 api w4 else w4);
                                                  w6 = (if mr_rts_toggle self1 then ma_set_rts_up api w5 else w5)
                                              in mm_attach_end api start t self1 w6)))))))"

text \<open>
  The loop of the RTU write over what remains of the buffer: the error and how much remains.
  Every round sends at most \<open>DTIOX_MODBUS_MAX_BLOB_BYTES\<close>; \<open>None\<close>: it never ends.
\<close>

partial_function (option) mrtu_write_loop ::
  "modbus_consts \<Rightarrow> 'w modbus_api \<Rightarrow> bool \<Rightarrow> byte list \<Rightarrow> 'w \<Rightarrow> (dterr \<times> byte list \<times> 'w) option" where
  "mrtu_write_loop c api permit_retry rest w =
     (let send_len = min (int (length rest)) (mc_max_blob_bytes c);
          data_regs = mc_blob_to_regs c send_len
      in if mc_max_blob_regs c < data_regs then Some (Some DTERR_FAIL, rest, w)
         else (case ma_write_registers api (mc_m2s_cmd c) (put_blob_regs c (take (nat send_len) rest) data_regs) w of
                 (rc, w1) \<Rightarrow>
                   if rc < 0 \<or> rc \<noteq> 2 + data_regs then Some (Some DTERR_IO, rest, w1)
                   else
                     let rest1 = drop (nat send_len) rest in
                     if rest1 = [] then Some (None, rest1, w1)
                     else if \<not> permit_retry then Some (None, rest1, w1)
                     else mrtu_write_loop c api permit_retry rest1 w1))"

text \<open>\<open>*out_written\<close>, \<open>None\<close> where it is not written. The outer \<open>None\<close>: waiting for ever.\<close>

definition mrtu_write ::
  "modbus_consts \<Rightarrow> 'w modbus_api \<Rightarrow> thread \<Rightarrow> byte list \<Rightarrow> int \<Rightarrow> 'f dtiox_linux_modbus_rtu_master_t \<Rightarrow> 'w
     \<Rightarrow> (dterr \<times> int option \<times> 'f dtiox_linux_modbus_rtu_master_t \<times> 'w) option" where
  "mrtu_write c api t buf len self w =
     (if mm_lock self = None \<or> \<not> mm_mb self then Some (Some DTERR_ASSERT, None, self, w)
      else if len < 0 then Some (Some DTERR_BADARG, None, self, w)
      else
        let loop = mrtu_write_loop c api (mr_permit_retry_partial_writes self) (take (nat len) buf);
            fail = (\<lambda>e s w. case mm_ensure_disconnected api s w of (s', w') \<Rightarrow> (Some e, None, s', w'));
            finish = (\<lambda>(e, out, s, w). map_option (\<lambda>(e', s'). (e', out, s', w)) (mm_release_lock t s e))
        in (case dtlock_acquire t (mm_lock self) of
              None \<Rightarrow> None
            | Some (Some e, l) \<Rightarrow> Some (Some e, None, self\<lparr>mm_lock := l\<rparr>, w)
            | Some (None, l) \<Rightarrow>
                (let s0 = self\<lparr>mm_lock := l\<rparr> in
                 if \<not> mm_enabled s0 then finish (None, Some 0, s0, w)
                 else (case mm_ensure_connected api s0 w of
                         (Some e, s1, w1) \<Rightarrow> finish (fail e s1 w1)
                       | (None, s1, w1) \<Rightarrow>
                           (case loop w1 of
                              None \<Rightarrow> None
                            | Some (Some e, _, w2) \<Rightarrow> finish (fail e s1 w2)
                            | Some (None, rest, w2) \<Rightarrow> finish (None, Some (len - int (length rest)), s1, w2))))))"

text \<open>
  The poll of the RTU task: every failure counts as a dead slave, and stored bytes are announced
  on the semaphore, whatever the post returns.
\<close>

definition mrtu_poll ::
  "modbus_consts \<Rightarrow> 'f ringfifo \<Rightarrow> errno option \<Rightarrow> 'w modbus_api \<Rightarrow> int \<Rightarrow> ('f, 'x) modbus_master_scheme \<Rightarrow> 'w
     \<Rightarrow> dterr \<times> unit \<times> ('f, 'x) modbus_master_scheme \<times> 'w" where
  "mrtu_poll c rf post_rc api max_blob self w =
     (let dead = self\<lparr>mm_dead_slave_pending := True\<rparr> in
      case ma_write_registers api (mc_m2s_cmd c) [mc_cmd_give_me_any_data c, 0] w of
        (rc, w1) \<Rightarrow>
          if rc \<noteq> 2 then (Some DTERR_FAIL, (), dead, w1)
          else (case ma_read_registers api (mc_s2m_status c) 2 w1 of
                  (rc, hdr, w2) \<Rightarrow>
                    if rc \<noteq> 2 then (Some DTERR_FAIL, (), dead, w2)
                    else if hdr ! 0 = mc_status_has_data c \<and> 0 < hdr ! 1
                    then let byte_len = uint (poll_len max_blob (hdr ! 1));
                             need_regs = min (mc_blob_to_regs c byte_len) (mc_max_blob_regs c) in
                         (case ma_read_registers api (mc_s2m_data c) need_regs w2 of
                            (rc, data_regs, w3) \<Rightarrow>
                              if rc \<noteq> need_regs then (Some DTERR_FAIL, (), dead, w3)
                              else (case mm_store c rf data_regs byte_len self of
                                      (written, s) \<Rightarrow>
                                        (None, (),
                                         if mm_rx_semaphore s \<noteq> None \<and> 0 < written
                                         then s\<lparr>mm_rx_semaphore := snd (post_handle post_rc (mm_rx_semaphore s))\<rparr>
                                         else s, w3)))
                    else (None, (), self, w2)))"

definition mrtu_rx_task ::
  "modbus_consts \<Rightarrow> 'f ringfifo \<Rightarrow> errno option \<Rightarrow> 'w modbus_api \<Rightarrow> dterr \<Rightarrow> thread \<Rightarrow> nat
     \<Rightarrow> 'f dtiox_linux_modbus_rtu_master_t \<Rightarrow> 'w \<Rightarrow> (dterr \<times> 'f dtiox_linux_modbus_rtu_master_t \<times> 'w) option" where
  "mrtu_rx_task c rf post_rc api ready t n self w =
     (if mm_lock self = None \<or> \<not> mm_mb self then Some (Some DTERR_ASSERT, self, w)
      else if ready \<noteq> None then Some (ready, self, w)
      else mm_rx_loop (mrtu_poll c rf post_rc api) c t n self w)"


section \<open>The lock in the operations\<close>

text \<open>With the lock free, an operation is its body between two changes of the lock that cancel.\<close>

lemma mm_locked_free:
  assumes "lock_valid (mm_lock self)" "lock_holder (mm_lock self) = None"
    and "\<And>l. body (self\<lparr>mm_lock := l\<rparr>) w = (e, r, s\<lparr>mm_lock := l\<rparr>, w')" "mm_lock s = mm_lock self"
  shows "mm_locked t none body self w = Some (e, r, s, w')"
proof -
  obtain l1 where l1: "dtlock_acquire t (mm_lock self) = Some (None, l1)"
      "dtlock_release t l1 = Some (None, mm_lock self)"
    using acquire_free [OF assms(1,2)] by blast
  have "s\<lparr>mm_lock := mm_lock self\<rparr> = s" using assms(4) by (cases s) simp
  with l1 assms(3) show ?thesis by (simp add: mm_locked_def mm_release_lock_def)
qed

lemma mm_locked_held:
  assumes "lock_valid (mm_lock self)" "lock_holder (mm_lock self) = Some t"
  shows "u \<noteq> t \<Longrightarrow> mm_locked u none body self w = None"
    and "\<exists>s. mm_locked t none body self w = Some (Some DTERR_STATE, none, s, w)"
  using assms
  by (cases "mm_lock self"; auto simp: mm_locked_def lock_defs split: option.splits mutex.splits)+

section \<open>Attach and the lock\<close>

lemma mm_attach_end_lock:
  assumes "lock_valid (mm_lock self)" "lock_holder (mm_lock self) = Some t" "mm_mb self"
    and "mm_attach_end api start t self w = Some (e, self', w')"
  shows "lock_valid (mm_lock self') \<and> mm_mb self' \<and>
    (lock_holder (mm_lock self') = None \<or> lock_holder (mm_lock self') = Some t \<and> e \<noteq> None) \<and>
    (e = None \<longrightarrow> lock_holder (mm_lock self') = None \<and> mm_enabled self' \<and> mm_is_connected self')"
  using assms
  by (cases "mm_lock self"; cases start)
     (auto simp: mm_attach_end_def Let_def mm_ensure_connected_def mm_release_lock_def lock_defs
           split: prod.splits if_splits option.splits mutex.splits)

lemma mtcp_attach_lock_end:
  assumes "lock_valid (mm_lock self)" "lock_holder (mm_lock self) = None"
    and "mtcp_attach api start t self w = Some (e, self', w')"
  shows "lock_valid (mm_lock self') \<and>
    (lock_holder (mm_lock self') = None \<or> lock_holder (mm_lock self') = Some t \<and> e \<noteq> None) \<and>
    (e = None \<longrightarrow> lock_holder (mm_lock self') = None \<and> mm_mb self' \<and> mm_enabled self' \<and> mm_is_connected self')"
proof -
  obtain l1 where l1: "dtlock_acquire t (mm_lock self) = Some (None, l1)" "lock_holder l1 = Some t"
      "dtlock_release t l1 = Some (None, mm_lock self)"
    using acquire_free [OF assms(1,2)] by blast
  then have v1: "lock_valid l1" by (auto simp: lock_defs split: option.splits)
  obtain new_ok w1 where n: "ma_new api w = (new_ok, w1)" by fastforce
  let ?s = "self\<lparr>mm_lock := l1, mm_mb := new_ok\<rparr>"
  note att = assms(3) [unfolded mtcp_attach_def l1 n timeout_args_def Let_def]
  show ?thesis
  proof (cases new_ok)
    case False
    with att l1 assms(1,2) show ?thesis by (auto simp: mm_release_lock_def lock_valid_def split: option.splits)
  next
    case True
    obtain ok2 w2 where s2: "ma_set_slave api (mt_unit_id self) w1 = (ok2, w2)" by fastforce
    obtain ok3 w3 where s3: "ma_set_response_timeout api (mm_response_timeout_ms self div 1000)
        (mm_response_timeout_ms self mod 1000 * 1000) w2 = (ok3, w3)" by fastforce
    show ?thesis
    proof (cases "ok2 \<and> ok3")
      case True
      with att s2 s3 \<open>new_ok\<close> assms(1)
      have "mm_attach_end api start t ?s w3 = Some (e, self', w')"
        by (auto simp: lock_valid_def split: option.splits if_splits)
      from mm_attach_end_lock [OF _ _ _ this] l1 v1 \<open>new_ok\<close> show ?thesis by simp
    next
      case False
      with att s2 s3 \<open>new_ok\<close> assms(1) have "e = Some DTERR_IO" "self' = ?s"
        by (auto simp: lock_valid_def split: option.splits if_splits bool.splits)
      with l1 v1 show ?thesis by simp
    qed
  qed
qed

section \<open>Properties\<close>

text \<open>
  What an attach of the TCP master does to the lock of the object. An attach that succeeds
  gives the lock back and leaves the object connected and enabled. One that fails gives it back,
  or keeps it: then every other thread that calls an operation waits for ever, and the same
  thread is refused with \<open>DTERR_STATE\<close> from then on.
\<close>

theorem mtcp_attach_lock:
  assumes "lock_valid (mm_lock self)" "lock_holder (mm_lock self) = None"
    and "mtcp_attach api start t self w = Some (e, self', w')"
  shows "e = None \<and> lock_holder (mm_lock self') = None \<and> mm_mb self' \<and> mm_enabled self' \<and> mm_is_connected self'
    \<or> e \<noteq> None \<and> lock_holder (mm_lock self') = None
    \<or> e \<noteq> None \<and> (\<forall>u w. u \<noteq> t \<longrightarrow> mm_enable rf u b self' w = None \<and> mm_detach api u self' w = None \<and>
                               mtcp_attach api start u self' w = None)
        \<and> (\<exists>s. mm_enable rf t b self' w' = Some (Some DTERR_STATE, (), s, w'))"
proof -
  note a = mtcp_attach_lock_end [OF assms]
  { assume h: "lock_holder (mm_lock self') = Some t"
    note held = mm_locked_held [OF conjunct1 [OF a] h]
    have "u \<noteq> t \<Longrightarrow> mtcp_attach api start u self' w = None" for u w
      using h conjunct1 [OF a]
      by (auto simp: mtcp_attach_def lock_defs split: option.splits mutex.splits)
    moreover have "u \<noteq> t \<Longrightarrow> mm_enable rf u b self' w = None" "u \<noteq> t \<Longrightarrow> mm_detach api u self' w = None" for u w
      unfolding mm_enable_def mm_detach_def by (rule held(1), assumption)+
    moreover have "\<exists>s. mm_enable rf t b self' w' = Some (Some DTERR_STATE, (), s, w')"
      unfolding mm_enable_def by (rule held(2))
    ultimately have "(\<forall>u w. u \<noteq> t \<longrightarrow> mm_enable rf u b self' w = None \<and> mm_detach api u self' w = None \<and>
                               mtcp_attach api start u self' w = None)
        \<and> (\<exists>s. mm_enable rf t b self' w' = Some (Some DTERR_STATE, (), s, w'))" by blast }
  with a show ?thesis by blast
qed

text \<open>
  A detached master does not connect again. Detach closes the connection and keeps the mark
  that it is connected, so the next attach makes a new context and never calls
  \<open>modbus_connect\<close>: whatever that function would do, the attach is the same.
\<close>

theorem mtcp_reattach_never_connects:
  assumes "lock_valid (mm_lock self)" "lock_holder (mm_lock self) = None"
    and "mm_is_connected self" "mm_detach api t self w = Some (e, r, self1, w1)"
  shows "e = None \<and> mtcp_attach (api\<lparr>ma_connect := connect\<rparr>) start t self1 w1 = mtcp_attach api start t self1 w1"
proof -
  obtain l1 where l1: "dtlock_acquire t (mm_lock self) = Some (None, l1)"
      "dtlock_release t l1 = Some (None, mm_lock self)"
    using acquire_free [OF assms(1,2)] by blast
  with assms(3,4) have e: "e = None" and c: "mm_is_connected self1"
    by (auto simp: mm_detach_def mm_locked_def mm_release_lock_def)
  have "mm_is_connected s \<Longrightarrow> mm_attach_end (api\<lparr>ma_connect := connect\<rparr>) start t s w = mm_attach_end api start t s w"
    for s :: "'a dtiox_linux_modbus_tcp_master_t" and w
    by (simp add: mm_attach_end_def mm_ensure_connected_def Let_def)
  with c have "mtcp_attach (api\<lparr>ma_connect := connect\<rparr>) start t self1 w1 = mtcp_attach api start t self1 w1"
    by (simp add: mtcp_attach_def Let_def split: option.splits prod.splits bool.splits if_splits)
  with e show ?thesis by blast
qed


section \<open>The write of the RTU master\<close>

text \<open>What the loop leaves when nothing fails.\<close>

definition rtu_rest :: "modbus_consts \<Rightarrow> bool \<Rightarrow> byte list \<Rightarrow> byte list" where
  "rtu_rest c permit_retry bs = (if permit_retry then [] else drop (nat (mc_max_blob_bytes c)) bs)"

lemma mrtu_write_loop_total:
  assumes "modbus_consts_ok c"
  shows "\<exists>e rest' w'. mrtu_write_loop c api permit rest w = Some (e, rest', w') \<and>
    (e = None \<longrightarrow> rest' = rtu_rest c permit rest)"
proof (induction "length rest" arbitrary: rest w rule: less_induct)
  case less
  have pos: "0 < mc_max_blob_bytes c" using assms by (simp add: modbus_consts_ok_def mc_blob_ok_def)
  define n where "n = min (int (length rest)) (mc_max_blob_bytes c)"
  define blob where "blob = take (nat n) rest"
  have len: "int (length blob) = n" using pos by (auto simp: blob_def n_def)
  have "int (length blob) \<le> mc_max_blob_bytes c" using len by (simp add: n_def)
  note regs = blob_facts(1,2) [OF assms this, unfolded len]
  obtain rc w1 where wr: "ma_write_registers api (mc_m2s_cmd c) (put_blob_regs c blob (mc_blob_to_regs c n)) w = (rc, w1)"
    by fastforce
  have drop: "drop (nat n) rest = drop (nat (mc_max_blob_bytes c)) rest"
    by (cases "int (length rest) \<le> mc_max_blob_bytes c") (auto simp: n_def)
  show ?case
  proof (cases "rc < 0 \<or> rc \<noteq> 2 + mc_blob_to_regs c n")
    case True
    with wr regs show ?thesis by (subst mrtu_write_loop.simps) (simp add: n_def [symmetric] blob_def [symmetric] Let_def)
  next
    case False
    show ?thesis
    proof (cases "drop (nat n) rest = [] \<or> \<not> permit")
      case True
      with False wr regs show ?thesis
        by (subst mrtu_write_loop.simps)
           (auto simp add: n_def [symmetric] blob_def [symmetric] Let_def rtu_rest_def drop [symmetric])
    next
      case rec: False
      then have "length (drop (nat n) rest) < length rest" using pos by (auto simp: n_def)
      from less [OF this, of w1] False wr regs rec show ?thesis
        by (subst mrtu_write_loop.simps)
           (simp add: n_def [symmetric] blob_def [symmetric] Let_def rtu_rest_def)
    qed
  qed
qed

text \<open>
  C31: every write of the RTU master returns. A write that succeeds on an enabled object has sent
  the whole buffer when partial writes may be repeated, and its first
  \<open>DTIOX_MODBUS_MAX_BLOB_BYTES\<close> bytes otherwise, and reports that number. One that fails reports
  no number and leaves the object unconnected. The lock is free in every case.
\<close>

theorem mrtu_write_returns:
  assumes "modbus_consts_ok c" "lock_valid (mm_lock self)" "lock_holder (mm_lock self) = None"
    and "mm_mb self" "0 \<le> len" "len = int (length buf)"
  shows "\<exists>e out self' w'. mrtu_write c api t buf len self w = Some (e, out, self', w') \<and>
    mm_lock self' = mm_lock self \<and>
    (mm_enabled self \<longrightarrow> e = None \<longrightarrow>
       out = Some (if mr_permit_retry_partial_writes self then len else min len (mc_max_blob_bytes c))) \<and>
    (e \<noteq> None \<longrightarrow> out = None \<and> \<not> mm_is_connected self')"
proof -
  have pos: "0 < mc_max_blob_bytes c" using assms(1) by (simp add: modbus_consts_ok_def mc_blob_ok_def)
  obtain l1 where l1: "dtlock_acquire t (mm_lock self) = Some (None, l1)"
      "dtlock_release t l1 = Some (None, mm_lock self)"
    using acquire_free [OF assms(2,3)] by blast
  obtain y where locked: "mm_lock self = Some y" using assms(2) by (cases "mm_lock self") (auto simp: lock_valid_def)
  obtain e1 s1 w1 where c: "mm_ensure_connected api (self\<lparr>mm_lock := l1\<rparr>) w = (e1, s1, w1)"
    by (cases "mm_ensure_connected api (self\<lparr>mm_lock := l1\<rparr>) w")
  then have s1: "mm_lock s1 = l1" "mr_permit_retry_partial_writes s1 = mr_permit_retry_partial_writes self"
    by (auto simp: mm_ensure_connected_def split: prod.splits if_splits)
  from mrtu_write_loop_total [OF assms(1), of api "mr_permit_retry_partial_writes self" buf w1]
  obtain e2 rest w2 where l: "mrtu_write_loop c api (mr_permit_retry_partial_writes self) buf w1 = Some (e2, rest, w2)"
      "e2 = None \<longrightarrow> rest = rtu_rest c (mr_permit_retry_partial_writes self) buf"
    by (elim exE conjE)
  have n: "take (nat len) buf = buf" using assms(6) by simp
  have size: "len - int (length (rtu_rest c p buf)) = (if p then len else min len (mc_max_blob_bytes c))" for p
    using assms(6) pos by (auto simp: rtu_rest_def)

  note unf = mrtu_write_def Let_def mm_release_lock_def mm_ensure_disconnected_def
  show ?thesis
  proof (cases "mm_enabled self")
    case False
    with l1 n locked assms(4,5) show ?thesis by (simp add: unf)
  next
    case enabled: True
    show ?thesis
    proof (cases e1)
      case (Some a)
      with enabled l1 c s1 n locked assms(4,5) show ?thesis by (simp add: unf)
    next
      case None
      with enabled l1 c s1 l n size locked assms(4,5) show ?thesis by (cases e2) (simp_all add: unf)
    qed
  qed
qed

text \<open>A concrete master: its context answers every call, and takes whatever is written to it.\<close>

definition calm_api :: "nat modbus_api" where
  "calm_api = \<lparr>ma_new = (\<lambda>w. (True, w)), ma_set_slave = (\<lambda>_ w. (True, w)),
     ma_set_response_timeout = (\<lambda>_ _ w. (True, w)), ma_set_byte_timeout = (\<lambda>_ _ w. (True, w)),
     ma_set_rs485 = (\<lambda>w. w), ma_set_rts_up = (\<lambda>w. w), ma_connect = (\<lambda>w. (True, w)), ma_close = (\<lambda>w. w),
     ma_write_registers = (\<lambda>_ rs w. (int (length rs), Suc w)), ma_read_registers = (\<lambda>_ n w. (-1, [], w))\<rparr>"

definition idle_master :: "bool \<Rightarrow> (byte list \<times> nat) modbus_master" where
  "idle_master connected = (mm_zero list_fifo 0)\<lparr>mm_mb := True, mm_enabled := True, mm_is_connected := connected,
     mm_max_blob_bytes := 4, mm_rx_fifo := ([], 8), mm_rx_tasker := Some running_tasker,
     mm_lock := fresh_lock Unlocked\<rparr>"

definition idle_tcp_master :: "bool \<Rightarrow> (byte list \<times> nat) dtiox_linux_modbus_tcp_master_t" where
  "idle_tcp_master connected =
     modbus_master.extend (idle_master connected) \<lparr>mt_ip = Some ''h'', mt_port = 502, mt_unit_id = 1\<rparr>"

definition idle_rtu_master :: "bool \<Rightarrow> dtuart_helper_config_t \<Rightarrow> (byte list \<times> nat) dtiox_linux_modbus_rtu_master_t" where
  "idle_rtu_master permit_retry uart = modbus_master.extend (idle_master True)
     \<lparr>mr_device = Some ''d'', mr_uart_config = uart, mr_slave_id = 1, mr_byte_timeout_ms = 0,
      mr_permit_retry_partial_writes = permit_retry, mr_rs485_mode = False, mr_rts_toggle = False\<rparr>"

lemmas idle_defs = idle_master_def mm_zero_def modbus_master.defs fresh_lock_def lock_defs list_fifo_def

lemma idle_lock:
  "lock_valid (mm_lock (idle_tcp_master b))" "lock_holder (mm_lock (idle_tcp_master b)) = None"
  "lock_valid (mm_lock (idle_rtu_master b u))" "lock_holder (mm_lock (idle_rtu_master b u)) = None"
  by (simp_all add: idle_tcp_master_def idle_rtu_master_def idle_defs)

theorem mrtu_write_returns_witness:
  "\<exists>e out self' w'. mrtu_write byte_consts calm_api 1 [1, 2, 3, 4, 5] 5 (idle_rtu_master True sample_uart) 0 = Some (e, out, self', w') \<and>
    mm_lock self' = mm_lock (idle_rtu_master True sample_uart) \<and>
    (mm_enabled (idle_rtu_master True sample_uart) \<longrightarrow> e = None \<longrightarrow>
       out = Some (if mr_permit_retry_partial_writes (idle_rtu_master True sample_uart) then 5 else min 5 (mc_max_blob_bytes byte_consts))) \<and>
    (e \<noteq> None \<longrightarrow> out = None \<and> \<not> mm_is_connected self')"
  by (rule mrtu_write_returns [OF byte_consts_ok idle_lock(3,4)]) (simp_all add: idle_rtu_master_def idle_defs)

theorem mtcp_attach_lock_witness:
  "\<exists>e self' w'. mtcp_attach calm_api (Inl DTERR_OS) 1 (idle_tcp_master False) 0 = Some (e, self', w') \<and>
   (e = None \<and> lock_holder (mm_lock self') = None \<and> mm_mb self' \<and> mm_enabled self' \<and> mm_is_connected self'
    \<or> e \<noteq> None \<and> lock_holder (mm_lock self') = None
    \<or> e \<noteq> None \<and> (\<forall>u w. u \<noteq> 1 \<longrightarrow> mm_enable list_fifo u True self' w = None \<and> mm_detach calm_api u self' w = None \<and>
                               mtcp_attach calm_api (Inl DTERR_OS) u self' w = None)
        \<and> (\<exists>s. mm_enable list_fifo 1 True self' w' = Some (Some DTERR_STATE, (), s, w')))"
proof -
  have "\<exists>e self' w'. mtcp_attach calm_api (Inl DTERR_OS) 1 (idle_tcp_master False) 0 = Some (e, self', w')"
    by (simp add: mtcp_attach_def idle_tcp_master_def idle_defs calm_api_def mm_attach_end_def
        mm_ensure_connected_def timeout_args_def)
  then obtain e s' w' where r: "mtcp_attach calm_api (Inl DTERR_OS) 1 (idle_tcp_master False) 0 = Some (e, s', w')"
    by blast
  from r mtcp_attach_lock [OF idle_lock(1,2) r, of list_fifo True] show ?thesis by blast
qed

theorem mtcp_reattach_never_connects_witness:
  "\<exists>e r self1 w1. mm_detach calm_api 1 (idle_tcp_master True) 0 = Some (e, r, self1, w1) \<and> e = None \<and>
     mtcp_attach (calm_api\<lparr>ma_connect := \<lambda>w. (False, w)\<rparr>) (Inr running_tasker) 1 self1 w1
     = mtcp_attach calm_api (Inr running_tasker) 1 self1 w1"
proof -
  have "\<exists>e r self1 w1. mm_detach calm_api 1 (idle_tcp_master True) 0 = Some (e, r, self1, w1)"
    by (simp add: mm_detach_def mm_locked_def mm_release_lock_def idle_tcp_master_def idle_defs calm_api_def)
  then obtain e r s1 w1 where d: "mm_detach calm_api 1 (idle_tcp_master True) 0 = Some (e, r, s1, w1)" by blast
  have "mm_is_connected (idle_tcp_master True)" by (simp add: idle_tcp_master_def idle_defs)
  from d mtcp_reattach_never_connects [OF idle_lock(1,2) this d] show ?thesis by blast
qed

end
