(* ===== verification/ModbusSlave.thy ===== *)
theory ModbusSlave
  imports Modbus
begin

text \<open>
  The Modbus TCP slave: \<open>dtiox_linux_modbus_tcp_slave.c\<close>, \<open>__helpers.c\<close> and \<open>__rxtask.c\<close> of
  \<open>dtmc_linux_library/src\<close>. Its task accepts a master, answers its requests out of a register map
  and, after every answer, moves a put blob to the receive FIFO or puts the message that waits
  into the area the master reads next. Results \<open>None\<close>: the call waits for the lock for ever.
\<close>

section \<open>The object\<close>

text \<open>
  \<open>sl_mb_map\<close> is the array of holding registers, \<open>None\<close> while the mapping is NULL. A descriptor
  is an \<open>int\<close>, 0 after \<open>init\<close>.
\<close>

record 'f dtiox_linux_modbus_tcp_slave_t =
  sl_model_number :: int
  sl_port :: int
  sl_max_blob_bytes :: int
  sl_rx_ring_capacity :: int
  sl_response_timeout_ms :: int
  sl_mb :: bool
  sl_mb_map :: "u16 list option"
  sl_listening_socket :: int
  sl_session_socket :: int
  sl_enabled :: bool
  sl_rx_semaphore :: "dtsemaphore_linux_t option"
  sl_rxtask_stop_requested :: bool
  sl_session_stop_requested :: bool
  sl_rx_overflow_pending :: bool
  sl_rx_fifo :: 'f
  sl_rx_fifo_storage :: bool
  sl_rxtasker :: "dttasker_t option"
  sl_tx_pending :: bool
  sl_tx_len :: int
  sl_tx_bytes :: "byte list"
  sl_lock :: "dtlock_linux_t option"
  sl_is_malloced :: bool

definition slv_init ::
  "modbus_consts \<Rightarrow> 'f ringfifo \<Rightarrow> int \<Rightarrow> dterr \<Rightarrow> dterr \<Rightarrow> dterr \<times> 'f dtiox_linux_modbus_tcp_slave_t" where
  "slv_init c rf model reg1 reg2 =
     (if reg1 \<noteq> None then reg1 else if reg2 \<noteq> None then reg2 else fst (rf_init rf),
      \<lparr>sl_model_number = model, sl_port = 0, sl_max_blob_bytes = 0, sl_rx_ring_capacity = 0,
       sl_response_timeout_ms = 0, sl_mb = False, sl_mb_map = None, sl_listening_socket = 0,
       sl_session_socket = 0, sl_enabled = False, sl_rx_semaphore = None,
       sl_rxtask_stop_requested = False, sl_session_stop_requested = False,
       sl_rx_overflow_pending = False, sl_rx_fifo = snd (rf_init rf), sl_rx_fifo_storage = False,
       sl_rxtasker = None, sl_tx_pending = False, sl_tx_len = 0,
       sl_tx_bytes = replicate (nat (mc_max_blob_bytes c)) 0, sl_lock = None, sl_is_malloced = False\<rparr>)"

definition slv_create ::
  "bool \<Rightarrow> modbus_consts \<Rightarrow> 'f ringfifo \<Rightarrow> int \<Rightarrow> dterr \<Rightarrow> dterr \<Rightarrow> dterr \<times> 'f dtiox_linux_modbus_tcp_slave_t option" where
  "slv_create malloc_ok c rf model reg1 reg2 =
     (if \<not> malloc_ok then (Some DTERR_NOMEM, None)
      else (case slv_init c rf model reg1 reg2 of
              (Some e, _) \<Rightarrow> (Some e, None)
            | (None, self) \<Rightarrow> (None, Some (self\<lparr>sl_is_malloced := True\<rparr>))))"

record slave_config =
  sc_port :: int
  sc_max_blob_bytes :: int
  sc_rx_ring_capacity :: int
  sc_response_timeout_ms :: int

definition slv_configure ::
  "modbus_consts \<Rightarrow> 'f ringfifo \<Rightarrow> modbus_config_env \<Rightarrow> 'f dtiox_linux_modbus_tcp_slave_t \<Rightarrow> slave_config
     \<Rightarrow> dterr \<times> 'f dtiox_linux_modbus_tcp_slave_t" where
  "slv_configure c rf env self cfg =
     (let self1 = self\<lparr>sl_port := (if sc_port cfg = 0 then mc_tcp_default_port c else sc_port cfg),
            sl_max_blob_bytes := (if sc_max_blob_bytes cfg \<le> 0 \<or> mc_max_blob_bytes c < sc_max_blob_bytes cfg
                                  then mc_max_blob_bytes c else sc_max_blob_bytes cfg),
            sl_rx_ring_capacity := sc_rx_ring_capacity cfg,
            sl_response_timeout_ms := sc_response_timeout_ms cfg\<rparr> in
      if sl_rx_ring_capacity self1 < 0 then (Some DTERR_BADARG, self1)
      else
        let cap = (if sl_rx_ring_capacity self1 = 0 then 1024 else sl_rx_ring_capacity self1);
            self2 = self1\<lparr>sl_rx_ring_capacity := cap, sl_rx_fifo_storage := me_malloc_ok env\<rparr> in
        if \<not> me_malloc_ok env then (Some DTERR_NOMEM, self2)
        else (case rf_configure rf cap (sl_rx_fifo self2) of
                (e, f) \<Rightarrow>
                  let self3 = self2\<lparr>sl_rx_fifo := f\<rparr> in
                  if e \<noteq> None then (e, self3)
                  else (case me_task_create env of
                          Inl e \<Rightarrow> (Some e, self3)
                        | Inr task \<Rightarrow>
                            (case dtlock_create (me_lock env) (sl_lock self3) of
                               (e, l) \<Rightarrow> (e, self3\<lparr>sl_rxtasker := Some task, sl_lock := l\<rparr>)))))"

section \<open>Helpers\<close>

definition slv_release_lock ::
  "thread \<Rightarrow> 'f dtiox_linux_modbus_tcp_slave_t \<Rightarrow> dterr \<Rightarrow> (dterr \<times> 'f dtiox_linux_modbus_tcp_slave_t) option" where
  "slv_release_lock t self dterr_in =
     map_option (\<lambda>(e, l). (if dterr_in \<noteq> None then dterr_in else e, self\<lparr>sl_lock := l\<rparr>))
       (dtlock_release t (sl_lock self))"

definition slv_verify_rxtask_running :: "'f dtiox_linux_modbus_tcp_slave_t \<Rightarrow> dterr" where
  "slv_verify_rxtask_running self =
     (case get_info_handle (sl_rxtasker self) of
        Inl e \<Rightarrow> Some e
      | Inr (status, _) \<Rightarrow> if status \<noteq> TASK_RUNNING then Some DTERR_STATE else None)"

definition slv_verify_rxtask_not_running :: "'f dtiox_linux_modbus_tcp_slave_t \<Rightarrow> dterr" where
  "slv_verify_rxtask_not_running self =
     (case get_info_handle (sl_rxtasker self) of
        Inl e \<Rightarrow> Some e
      | Inr (status, _) \<Rightarrow> if status = TASK_RUNNING then Some DTERR_STATE else None)"

text \<open>The acquire, a body that returns its error and a result, and the release.\<close>

definition slv_locked ::
  "thread \<Rightarrow> 'r \<Rightarrow> ('f dtiox_linux_modbus_tcp_slave_t \<Rightarrow> dterr \<times> 'r \<times> 'f dtiox_linux_modbus_tcp_slave_t)
     \<Rightarrow> 'f dtiox_linux_modbus_tcp_slave_t \<Rightarrow> (dterr \<times> 'r \<times> 'f dtiox_linux_modbus_tcp_slave_t) option" where
  "slv_locked t none body self =
     (case dtlock_acquire t (sl_lock self) of
        None \<Rightarrow> None
      | Some (Some e, l) \<Rightarrow> Some (Some e, none, self\<lparr>sl_lock := l\<rparr>)
      | Some (None, l) \<Rightarrow>
          (case body (self\<lparr>sl_lock := l\<rparr>) of
             (e, r, self') \<Rightarrow> map_option (\<lambda>(e', s). (e', r, s)) (slv_release_lock t self' e)))"

section \<open>The register map\<close>

definition required_registers :: "modbus_consts \<Rightarrow> nat" where
  "required_registers c = mc_s2m_data c + nat (mc_max_blob_regs c) + 1"

definition reset_s2m :: "modbus_consts \<Rightarrow> u16 list \<Rightarrow> u16 list" where
  "reset_s2m c regs = regs[mc_s2m_status c := mc_status_no_data c, mc_s2m_len c := 0]"

definition clear_command :: "modbus_consts \<Rightarrow> u16 list \<Rightarrow> u16 list" where
  "clear_command c regs = regs[mc_m2s_cmd c := mc_cmd_none c, mc_m2s_len c := 0]"

text \<open>The two clamps of a length: by the configuration and by the constant.\<close>

definition slv_clamp :: "modbus_consts \<Rightarrow> 'f dtiox_linux_modbus_tcp_slave_t \<Rightarrow> int \<Rightarrow> int" where
  "slv_clamp c self byte_len =
     (let a = (if sl_max_blob_bytes self < byte_len then sl_max_blob_bytes self else byte_len)
      in if mc_max_blob_bytes c < a then mc_max_blob_bytes c else a)"

definition slv_prepare_poll_response ::
  "modbus_consts \<Rightarrow> 'f dtiox_linux_modbus_tcp_slave_t \<Rightarrow> 'f dtiox_linux_modbus_tcp_slave_t" where
  "slv_prepare_poll_response c self =
     (case sl_mb_map self of
        None \<Rightarrow> self
      | Some regs \<Rightarrow>
          if sl_tx_pending self \<and> 0 < sl_tx_len self
          then let byte_len = slv_clamp c self (sl_tx_len self);
                   regs1 = regs[mc_s2m_status c := mc_status_has_data c, mc_s2m_len c := word_of_int byte_len];
                   regs2 = store_regs (mc_s2m_data c) (mc_pack c (take (nat byte_len) (sl_tx_bytes self))) regs1
               in self\<lparr>sl_mb_map := Some regs2, sl_tx_pending := False, sl_tx_len := 0\<rparr>
          else self\<lparr>sl_mb_map := Some (reset_s2m c regs)\<rparr>)"

definition slv_consume_put_blob ::
  "modbus_consts \<Rightarrow> 'f ringfifo \<Rightarrow> errno option \<Rightarrow> 'f dtiox_linux_modbus_tcp_slave_t \<Rightarrow> 'f dtiox_linux_modbus_tcp_slave_t" where
  "slv_consume_put_blob c rf post_rc self =
     (case sl_mb_map self of
        None \<Rightarrow> self
      | Some regs \<Rightarrow>
          if regs ! mc_m2s_cmd c \<noteq> mc_cmd_put_blob c then self
          else
            let byte_len = slv_clamp c self (uint (regs ! mc_m2s_len c));
                self1 =
                  (if 0 < byte_len
                   then (case rf_push rf (sl_rx_fifo self) (mc_unpack c (drop (mc_m2s_data c) regs) byte_len) of
                           (written, f) \<Rightarrow>
                             self\<lparr>sl_rx_fifo := f,
                                  sl_rx_overflow_pending := (written < byte_len \<or> sl_rx_overflow_pending self),
                                  sl_rx_semaphore := (case sl_rx_semaphore self of
                                                        None \<Rightarrow> None
                                                      | Some s \<Rightarrow> snd (post_handle post_rc (Some s)))\<rparr>)
                   else self)
            in self1\<lparr>sl_mb_map := Some (clear_command c regs)\<rparr>)"

text \<open>What the task does under the lock after an answer. \<open>None\<close>: it reads through a NULL mapping.\<close>

definition slv_process ::
  "modbus_consts \<Rightarrow> 'f ringfifo \<Rightarrow> errno option \<Rightarrow> 'f dtiox_linux_modbus_tcp_slave_t \<Rightarrow> 'f dtiox_linux_modbus_tcp_slave_t option" where
  "slv_process c rf post_rc self =
     (let self1 = slv_consume_put_blob c rf post_rc self in
      case sl_mb_map self1 of
        None \<Rightarrow> None
      | Some regs \<Rightarrow>
          if regs ! mc_m2s_cmd c = mc_cmd_give_me_any_data c
          then let self2 = slv_prepare_poll_response c self1
               in Some (self2\<lparr>sl_mb_map := map_option (clear_command c) (sl_mb_map self2)\<rparr>)
          else Some self1)"


section \<open>Attach, detach, dispose\<close>

text \<open>
  What the calls of \<open>attach\<close> answer; \<open>sa_listen\<close> is the descriptor of \<open>modbus_tcp_listen\<close>. A new
  mapping holds zeros.
\<close>

record slave_attach_env =
  sa_new_tcp :: bool
  sa_set_timeout :: bool
  sa_mapping_new :: bool
  sa_listen :: int
  sa_start :: "errcode + dttasker_t"

text \<open>
  The rollback at \<open>cleanup\<close>. The \<open>int list\<close> of these results holds the descriptors that were
  closed.
\<close>

definition slv_rollback :: "'f dtiox_linux_modbus_tcp_slave_t \<Rightarrow> 'f dtiox_linux_modbus_tcp_slave_t \<times> int list" where
  "slv_rollback self =
     (let self1 = self\<lparr>sl_mb_map := None, sl_mb := False\<rparr> in
      if 0 < sl_listening_socket self
      then (self1\<lparr>sl_listening_socket := -1\<rparr>, [sl_listening_socket self])
      else (self1, []))"

text \<open>
  \<open>attach\<close> between the acquire and the release: the error, whether the error jumps behind the
  release of the lock, and the object.
\<close>

definition slv_attach_locked ::
  "modbus_consts \<Rightarrow> slave_attach_env \<Rightarrow> 'f dtiox_linux_modbus_tcp_slave_t
     \<Rightarrow> dterr \<times> bool \<times> 'f dtiox_linux_modbus_tcp_slave_t" where
  "slv_attach_locked c env self0 =
     (let self = self0\<lparr>sl_mb := sa_new_tcp env\<rparr> in
      if \<not> sa_new_tcp env then (Some DTERR_IO, False, self)
      else if 0 < sl_response_timeout_ms self \<and> \<not> sa_set_timeout env then (Some DTERR_IO, True, self)
      else if \<not> sa_mapping_new env then (Some DTERR_NOMEM, False, self\<lparr>sl_mb_map := None\<rparr>)
      else
        let self1 = self\<lparr>sl_mb_map := Some (reset_s2m c (replicate (required_registers c) 0)),
                         sl_listening_socket := sa_listen env\<rparr> in
        if sa_listen env < 0 then (Some DTERR_IO, False, self1)
        else
          let self2 = self1\<lparr>sl_rx_overflow_pending := False, sl_tx_pending := False, sl_tx_len := 0,
                            sl_enabled := True, sl_session_stop_requested := False,
                            sl_rxtask_stop_requested := False\<rparr> in
          (case sa_start env of
             Inl e \<Rightarrow> (Some e, True, self2)
           | Inr task \<Rightarrow> (None, False, self2\<lparr>sl_rxtasker := Some task\<rparr>)))"

text \<open>\<open>DTERR_ASSERT_NOT_NULL\<close> jumps to \<open>cleanup\<close> like \<open>DTERR_C\<close>.\<close>

definition slv_attach ::
  "modbus_consts \<Rightarrow> slave_attach_env \<Rightarrow> thread \<Rightarrow> 'f dtiox_linux_modbus_tcp_slave_t
     \<Rightarrow> (dterr \<times> 'f dtiox_linux_modbus_tcp_slave_t \<times> int list) option" where
  "slv_attach c env t self =
     (let cleanup = (\<lambda>e s. if e = None then (None, s, [])
                          else (case slv_rollback s of (s', closed) \<Rightarrow> (e, s', closed))) in
      if sl_lock self = None then Some (cleanup (Some DTERR_ASSERT) self)
      else if 0 < sl_listening_socket self then Some (cleanup None self)
      else if slv_verify_rxtask_not_running self \<noteq> None
      then Some (cleanup (slv_verify_rxtask_not_running self) self)
      else (case dtlock_acquire t (sl_lock self) of
              None \<Rightarrow> None
            | Some (Some e, l) \<Rightarrow> Some (cleanup (Some e) (self\<lparr>sl_lock := l\<rparr>))
            | Some (None, l) \<Rightarrow>
                (case slv_attach_locked c env (self\<lparr>sl_lock := l\<rparr>) of
                   (e, skips_release, s) \<Rightarrow>
                     if skips_release then Some (cleanup e s)
                     else map_option (\<lambda>(e', s'). cleanup e' s') (slv_release_lock t s e))))"

definition slv_detach :: "'f dtiox_linux_modbus_tcp_slave_t \<Rightarrow> dterr \<times> 'f dtiox_linux_modbus_tcp_slave_t \<times> int list" where
  "slv_detach self =
     (if sl_lock self = None then (Some DTERR_ASSERT, self, [])
      else
        let self1 = self\<lparr>sl_session_stop_requested := True, sl_enabled := False\<rparr> in
        if 0 < sl_session_socket self1 \<and> sl_session_socket self1 \<noteq> sl_listening_socket self1
        then (None, self1\<lparr>sl_session_socket := -1\<rparr>, [sl_session_socket self1])
        else (None, self1, []))"

definition slv_dispose :: "'f dtiox_linux_modbus_tcp_slave_t \<Rightarrow> 'f dtiox_linux_modbus_tcp_slave_t \<times> int list" where
  "slv_dispose self =
     (let self1 = self\<lparr>sl_rxtask_stop_requested := True, sl_session_stop_requested := True\<rparr> in
      if 0 \<le> sl_listening_socket self1
      then (self1\<lparr>sl_listening_socket := -1\<rparr>, [sl_listening_socket self1])
      else (self1, []))"

definition slv_equals ::
  "'f dtiox_linux_modbus_tcp_slave_t option \<Rightarrow> 'f dtiox_linux_modbus_tcp_slave_t option \<Rightarrow> bool" where
  "slv_equals a b =
     (case (a, b) of (Some x, Some y) \<Rightarrow> sl_model_number x = sl_model_number y | _ \<Rightarrow> False)"

section \<open>Enable, read, write\<close>

definition slv_enable ::
  "modbus_consts \<Rightarrow> 'f ringfifo \<Rightarrow> thread \<Rightarrow> bool \<Rightarrow> 'f dtiox_linux_modbus_tcp_slave_t
     \<Rightarrow> (dterr \<times> unit \<times> 'f dtiox_linux_modbus_tcp_slave_t) option" where
  "slv_enable c rf t enabled =
     slv_locked t ()
       (\<lambda>self. (None, (), self\<lparr>sl_enabled := enabled, sl_rx_fifo := rf_reset rf (sl_rx_fifo self),
                  sl_rx_overflow_pending := False, sl_tx_pending := False, sl_tx_len := 0,
                  sl_mb_map := map_option (reset_s2m c) (sl_mb_map self)\<rparr>))"

text \<open>The bytes read; \<open>None\<close> where \<open>*out_read\<close> is not written.\<close>

definition slv_read ::
  "'f ringfifo \<Rightarrow> thread \<Rightarrow> int \<Rightarrow> 'f dtiox_linux_modbus_tcp_slave_t
     \<Rightarrow> (dterr \<times> byte list option \<times> 'f dtiox_linux_modbus_tcp_slave_t) option" where
  "slv_read rf t buf_len self =
     (if buf_len < 0 then Some (Some DTERR_BADARG, None, self)
      else slv_locked t None
             (\<lambda>self. if sl_rx_overflow_pending self
                     then (Some DTERR_OVERFLOW, None, self\<lparr>sl_rx_overflow_pending := False\<rparr>)
                     else if \<not> sl_enabled self then (None, Some [], self)
                     else (case rf_pop rf (sl_rx_fifo self) buf_len of
                             (d, f) \<Rightarrow> (None, Some d, self\<lparr>sl_rx_fifo := f\<rparr>)))
             self)"

text \<open>\<open>buf\<close> holds at least \<open>len\<close> bytes. The result is \<open>*out_written\<close>, \<open>None\<close> where it is not written.\<close>

definition slv_write ::
  "thread \<Rightarrow> byte list \<Rightarrow> int \<Rightarrow> 'f dtiox_linux_modbus_tcp_slave_t
     \<Rightarrow> (dterr \<times> int option \<times> 'f dtiox_linux_modbus_tcp_slave_t) option" where
  "slv_write t buf len self =
     (if len < 0 then Some (Some DTERR_BADARG, None, self)
      else if sl_max_blob_bytes self < len then Some (Some DTERR_BADARG, None, self)
      else slv_locked t None
             (\<lambda>self. if \<not> sl_enabled self then (None, None, self)
                     else if sl_tx_pending self then (Some DTERR_BUSY, None, self)
                     else (None, Some len,
                           self\<lparr>sl_tx_bytes := take (nat len) buf @ drop (nat len) (sl_tx_bytes self),
                                sl_tx_len := len, sl_tx_pending := True\<rparr>))
             self)"

definition slv_set_rx_semaphore ::
  "thread \<Rightarrow> dtsemaphore_linux_t option \<Rightarrow> 'f dtiox_linux_modbus_tcp_slave_t
     \<Rightarrow> (dterr \<times> unit \<times> 'f dtiox_linux_modbus_tcp_slave_t) option" where
  "slv_set_rx_semaphore t sem = slv_locked t () (\<lambda>self. (None, (), self\<lparr>sl_rx_semaphore := sem\<rparr>))"

section \<open>The task\<close>

text \<open>
  The calls of a server, over the state \<open>'w\<close> of the connection; \<open>'q\<close> is a query. \<open>sv_reply\<close> may
  change the registers, \<open>sv_accept\<close> the descriptor it is given.
\<close>

record ('q, 'w) modbus_server =
  sv_accept :: "int \<Rightarrow> 'w \<Rightarrow> bool \<times> int \<times> 'w"
  sv_receive :: "'w \<Rightarrow> int \<times> 'q \<times> 'w"
  sv_reply :: "'q \<Rightarrow> int \<Rightarrow> u16 list \<Rightarrow> 'w \<Rightarrow> bool \<times> u16 list \<times> 'w"

text \<open>
  A round of the session loop. \<open>None\<close>: it waits for the lock for ever, or the mapping is NULL when
  the code reads through it.
\<close>

definition slv_session_round ::
  "modbus_consts \<Rightarrow> 'f ringfifo \<Rightarrow> errno option \<Rightarrow> ('q, 'w) modbus_server \<Rightarrow> thread
     \<Rightarrow> 'f dtiox_linux_modbus_tcp_slave_t \<Rightarrow> 'w \<Rightarrow> (rx_outcome \<times> 'f dtiox_linux_modbus_tcp_slave_t \<times> 'w) option" where
  "slv_session_round c rf post_rc srv t self w =
     (case slv_locked t True (\<lambda>s. (None, sl_rxtask_stop_requested s \<or> sl_session_stop_requested s, s)) self of
        None \<Rightarrow> None
      | Some (Some e, _, s) \<Rightarrow> Some (RxExit (Some e), s, w)
      | Some (None, stop, s) \<Rightarrow>
          if stop then Some (RxExit None, s, w)
          else (case sv_receive srv w of
                  (rc, query, w1) \<Rightarrow>
                    if 0 < rc
                    then (case sl_mb_map s of
                            None \<Rightarrow> None
                          | Some regs \<Rightarrow>
                              (case sv_reply srv query rc regs w1 of
                                 (ok, regs1, w2) \<Rightarrow>
                                   let s1 = s\<lparr>sl_mb_map := Some regs1\<rparr> in
                                   if \<not> ok then Some (RxExit (Some DTERR_IO), s1, w2)
                                   else (case dtlock_acquire t (sl_lock s1) of
                                           None \<Rightarrow> None
                                         | Some (Some e, l) \<Rightarrow> Some (RxExit (Some e), s1\<lparr>sl_lock := l\<rparr>, w2)
                                         | Some (None, l) \<Rightarrow>
                                             (case slv_process c rf post_rc (s1\<lparr>sl_lock := l\<rparr>) of
                                                None \<Rightarrow> None
                                              | Some s2 \<Rightarrow>
                                                  map_option
                                                    (\<lambda>(e, s3). (case e of None \<Rightarrow> RxGoOn | Some _ \<Rightarrow> RxExit e, s3, w2))
                                                    (slv_release_lock t s2 None)))))
                    else if rc = -1 then Some (RxExit None, s, w1)
                    else Some (RxGoOn, s, w1)))"

text \<open>\<open>n\<close> rounds; \<open>None\<close>: the session goes on after them.\<close>

fun slv_session_loop ::
  "modbus_consts \<Rightarrow> 'f ringfifo \<Rightarrow> errno option \<Rightarrow> ('q, 'w) modbus_server \<Rightarrow> thread \<Rightarrow> nat
     \<Rightarrow> 'f dtiox_linux_modbus_tcp_slave_t \<Rightarrow> 'w \<Rightarrow> (dterr \<times> 'f dtiox_linux_modbus_tcp_slave_t \<times> 'w) option" where
  "slv_session_loop c rf post_rc srv t 0 self w = None"
| "slv_session_loop c rf post_rc srv t (Suc n) self w =
     (case slv_session_round c rf post_rc srv t self w of
        None \<Rightarrow> None
      | Some (RxGoOn, s, w1) \<Rightarrow> slv_session_loop c rf post_rc srv t n s w1
      | Some (RxExit e, s, w1) \<Rightarrow> Some (e, s, w1))"

text \<open>
  How the server loop ends: with a \<open>return\<close>, which stands inside the body of the loop, or by
  \<open>break\<close>, behind which the function ends without returning a value.
\<close>

datatype server_end = Returned dterr | NoReturnValue

text \<open>\<open>n\<close> bounds the attempts to accept, and the rounds of the session.\<close>

fun slv_server_loop ::
  "modbus_consts \<Rightarrow> 'f ringfifo \<Rightarrow> errno option \<Rightarrow> ('q, 'w) modbus_server \<Rightarrow> thread \<Rightarrow> nat
     \<Rightarrow> 'f dtiox_linux_modbus_tcp_slave_t \<Rightarrow> 'w \<Rightarrow> (server_end \<times> 'f dtiox_linux_modbus_tcp_slave_t \<times> 'w) option" where
  "slv_server_loop c rf post_rc srv t 0 self w = None"
| "slv_server_loop c rf post_rc srv t (Suc n) self w =
     (case slv_locked t (True, 0) (\<lambda>s. (None, (sl_rxtask_stop_requested s, sl_listening_socket s), s)) self of
        None \<Rightarrow> None
      | Some (Some e, _, s) \<Rightarrow> Some (Returned (Some e), s, w)
      | Some (None, (stop, listening_socket), s) \<Rightarrow>
          if stop then Some (NoReturnValue, s, w)
          else (case sv_accept srv listening_socket w of
                  (False, _, w1) \<Rightarrow> slv_server_loop c rf post_rc srv t n (s\<lparr>sl_session_socket := -1\<rparr>) w1
                | (True, sock, w1) \<Rightarrow>
                    map_option (\<lambda>(_, s2, w2). (Returned None, s2, w2))
                      (slv_session_loop c rf post_rc srv t n (s\<lparr>sl_session_socket := sock\<rparr>) w1)))"

text \<open>The entry point; \<open>ready\<close> is the answer of \<open>dttasker_ready\<close>.\<close>

definition slv_rxtask_entry ::
  "modbus_consts \<Rightarrow> 'f ringfifo \<Rightarrow> errno option \<Rightarrow> ('q, 'w) modbus_server \<Rightarrow> dterr \<Rightarrow> thread \<Rightarrow> nat
     \<Rightarrow> 'f dtiox_linux_modbus_tcp_slave_t \<Rightarrow> 'w \<Rightarrow> (server_end \<times> 'f dtiox_linux_modbus_tcp_slave_t \<times> 'w) option" where
  "slv_rxtask_entry c rf post_rc srv ready t n self w =
     (if ready \<noteq> None then Some (Returned (Some DTERR_FAIL), self, w)
      else map_option
             (\<lambda>(e, s, w1). (case e of Returned (Some _) \<Rightarrow> Returned (Some DTERR_FAIL) | _ \<Rightarrow> e, s, w1))
             (slv_server_loop c rf post_rc srv t n self w))"


section \<open>What the task does with a request\<close>

definition slv_serving :: "modbus_consts \<Rightarrow> 'f dtiox_linux_modbus_tcp_slave_t \<Rightarrow> bool" where
  "slv_serving c s \<longleftrightarrow> lock_valid (sl_lock s) \<and> lock_holder (sl_lock s) = None \<and> sl_enabled s \<and>
     \<not> sl_rxtask_stop_requested s \<and> \<not> sl_session_stop_requested s \<and>
     0 < sl_max_blob_bytes s \<and> sl_max_blob_bytes s \<le> mc_max_blob_bytes c \<and>
     (\<exists>regs. sl_mb_map s = Some regs \<and> length regs = required_registers c)"

lemma serving_lock:
  "slv_serving c s \<Longrightarrow> lock_valid (sl_lock s)" "slv_serving c s \<Longrightarrow> lock_holder (sl_lock s) = None"
  by (simp_all add: slv_serving_def)

text \<open>The registers behind a put: command, length, data and what was there.\<close>

definition put_regs :: "modbus_consts \<Rightarrow> byte list \<Rightarrow> u16 list" where
  "put_regs c p = [mc_cmd_put_blob c, word_of_int (int (length p))] @ mc_pack c p"

lemma put_regs_facts:
  assumes "modbus_consts_ok c" "int (length p) \<le> mc_max_blob_bytes c" "length regs = required_registers c"
  defines "regs' \<equiv> store_regs (mc_m2s_cmd c) (put_regs c p) regs"
  shows "length regs' = required_registers c"
    and "regs' ! mc_m2s_cmd c = mc_cmd_put_blob c"
    and "uint (regs' ! mc_m2s_len c) = int (length p)"
    and "mc_unpack c (drop (mc_m2s_data c) regs') (int (length p)) = p"
proof -
  have lay: "mc_m2s_len c = mc_m2s_cmd c + 1" "mc_m2s_data c = mc_m2s_cmd c + 2"
    "mc_m2s_data c + nat (mc_max_blob_regs c) \<le> mc_s2m_status c" "mc_s2m_status c + 2 \<le> mc_s2m_data c"
    using assms(1) by (simp_all add: modbus_consts_ok_def mc_layout_ok_def)
  note p = blob_facts [OF assms(1,2)]
  have len: "mc_m2s_cmd c + length (put_regs c p) \<le> length regs"
    using lay p(2) assms(3) by (simp add: put_regs_def required_registers_def)
  then show "length regs' = required_registers c" using assms(3) by (simp add: regs'_def)
  show "regs' ! mc_m2s_cmd c = mc_cmd_put_blob c"
    unfolding regs'_def using len by (subst nth_store_regs) (auto simp: put_regs_def)
  have "int (length p) < 65536" using assms(1,2) by (simp add: modbus_consts_ok_def mc_blob_ok_def)
  moreover have "regs' ! mc_m2s_len c = word_of_int (int (length p))"
    unfolding regs'_def using len lay(1) by (subst nth_store_regs) (auto simp: put_regs_def)
  ultimately show "uint (regs' ! mc_m2s_len c) = int (length p)"
    by (simp add: unsigned_of_nat take_bit_nat_eq_self)
  have "drop (mc_m2s_data c) regs' = mc_pack c p @ drop (mc_m2s_cmd c + length (put_regs c p)) regs"
    using len unfolding regs'_def store_regs_def lay(2) by (simp add: put_regs_def)
  then show "mc_unpack c (drop (mc_m2s_data c) regs') (int (length p)) = p" using p(3) by simp
qed

lemma clear_command_facts:
  assumes "modbus_consts_ok c" "length regs = required_registers c"
  shows "clear_command c regs ! mc_m2s_cmd c = mc_cmd_none c"
    and "length (clear_command c regs) = required_registers c"
    and "i \<noteq> mc_m2s_cmd c \<Longrightarrow> i \<noteq> mc_m2s_len c \<Longrightarrow> clear_command c regs ! i = regs ! i"
  using assms by (simp_all add: clear_command_def modbus_consts_ok_def mc_layout_ok_def required_registers_def)

text \<open>A put blob of up to \<open>max_blob_bytes\<close> bytes goes to the FIFO, as far as there is room.\<close>

lemma slv_process_put:
  assumes c: "modbus_consts_ok c" and rf: "ringfifo_ok rf" and s: "slv_serving c s"
    and p: "int (length p) \<le> sl_max_blob_bytes s" and regs: "sl_mb_map s = Some regs"
  shows "\<exists>s' k. slv_process c rf post_rc (s\<lparr>sl_mb_map := Some (store_regs (mc_m2s_cmd c) (put_regs c p) regs)\<rparr>) = Some s' \<and>
    slv_serving c s' \<and> sl_lock s' = sl_lock s \<and> sl_max_blob_bytes s' = sl_max_blob_bytes s \<and> k \<le> length p \<and>
    rf_items rf (sl_rx_fifo s') = rf_items rf (sl_rx_fifo s) @ take k p \<and>
    rf_capacity rf (sl_rx_fifo s') = rf_capacity rf (sl_rx_fifo s) \<and>
    (sl_rx_overflow_pending s' \<longleftrightarrow> sl_rx_overflow_pending s \<or> k < length p) \<and>
    (length (rf_items rf (sl_rx_fifo s)) + length p \<le> rf_capacity rf (sl_rx_fifo s) \<longrightarrow> k = length p)"
proof -
  let ?regs = "store_regs (mc_m2s_cmd c) (put_regs c p) regs"
  have len: "length regs = required_registers c" using s regs by (simp add: slv_serving_def)
  have m: "sl_max_blob_bytes s \<le> mc_max_blob_bytes c" using s by (simp add: slv_serving_def)
  note f = put_regs_facts [OF c order_trans [OF p m] len]
  note cl = clear_command_facts [OF c f(1)]
  have cmds: "mc_cmd_none c \<noteq> mc_cmd_give_me_any_data c" using c by (simp add: modbus_consts_ok_def mc_codes_ok_def)
  let ?s = "s\<lparr>sl_mb_map := Some ?regs\<rparr>"
  have clamp: "slv_clamp c ?s (int (length p)) = int (length p)" using p m by (simp add: slv_clamp_def)
  show ?thesis
  proof (cases "p = []")
    case True
    have "slv_process c rf post_rc ?s = Some (s\<lparr>sl_mb_map := Some (clear_command c ?regs)\<rparr>)"
      using f(2,3) clamp cl(1) cmds True by (simp add: slv_process_def slv_consume_put_blob_def Let_def)
    moreover have "slv_serving c (s\<lparr>sl_mb_map := Some (clear_command c ?regs)\<rparr>)" using s cl(2) by (simp add: slv_serving_def)
    ultimately show ?thesis using True by auto
  next
    case False
    obtain k f' where push: "rf_push rf (sl_rx_fifo s) p = (int k, f')" "k \<le> length p"
      "rf_items rf f' = rf_items rf (sl_rx_fifo s) @ take k p" "rf_capacity rf f' = rf_capacity rf (sl_rx_fifo s)"
      "length (rf_items rf (sl_rx_fifo s)) + length p \<le> rf_capacity rf (sl_rx_fifo s) \<Longrightarrow> k = length p"
      using push_cases [OF rf] by blast
    let ?s' = "s\<lparr>sl_mb_map := Some (clear_command c ?regs), sl_rx_fifo := f',
       sl_rx_overflow_pending := (int k < int (length p) \<or> sl_rx_overflow_pending s),
       sl_rx_semaphore := (case sl_rx_semaphore s of None \<Rightarrow> None | Some h \<Rightarrow> snd (post_handle post_rc (Some h)))\<rparr>"
    have "slv_consume_put_blob c rf post_rc ?s = ?s'"
      using f(2-4) clamp push(1) False by (simp add: slv_consume_put_blob_def Let_def)
    then have "slv_process c rf post_rc ?s = Some ?s'" using cl(1) cmds by (simp add: slv_process_def)
    moreover have "slv_serving c ?s'" using s cl(2) by (simp add: slv_serving_def)
    ultimately show ?thesis using push(2-5) by (intro exI [of _ ?s'] exI [of _ k]) auto
  qed
qed


section \<open>The lock in the operations\<close>

lemma slv_locked_free:
  assumes "lock_valid (sl_lock self)" "lock_holder (sl_lock self) = None"
    and "\<And>l. body (self\<lparr>sl_lock := l\<rparr>) = (e, r, s\<lparr>sl_lock := l\<rparr>)" "sl_lock s = sl_lock self"
  shows "slv_locked t none body self = Some (e, r, s)"
proof -
  obtain l1 where l1: "dtlock_acquire t (sl_lock self) = Some (None, l1)"
      "dtlock_release t l1 = Some (None, sl_lock self)"
    using acquire_free [OF assms(1,2)] by blast
  with assms(3,4) show ?thesis
    by (cases s) (simp add: slv_locked_def slv_release_lock_def dtiox_linux_modbus_tcp_slave_t.defs)
qed

lemma slv_read_locked:
  assumes "lock_valid (sl_lock s)" "lock_holder (sl_lock s) = None" "0 \<le> n"
  shows "slv_read rf t n s = Some (
     if sl_rx_overflow_pending s then (Some DTERR_OVERFLOW, None, s\<lparr>sl_rx_overflow_pending := False\<rparr>)
     else if \<not> sl_enabled s then (None, Some [], s)
     else (None, Some (fst (rf_pop rf (sl_rx_fifo s) n)), s\<lparr>sl_rx_fifo := snd (rf_pop rf (sl_rx_fifo s) n)\<rparr>))"
proof -
  consider "sl_rx_overflow_pending s" | "\<not> sl_rx_overflow_pending s" "\<not> sl_enabled s"
    | "\<not> sl_rx_overflow_pending s" "sl_enabled s" by blast
  then show ?thesis
    using assms unfolding slv_read_def
    by cases (simp_all add: slv_locked_free [OF assms(1,2)] split: prod.splits)
qed

lemma slv_write_locked:
  assumes "lock_valid (sl_lock s)" "lock_holder (sl_lock s) = None" "0 \<le> n" "n \<le> sl_max_blob_bytes s" "sl_enabled s"
  shows "slv_write t buf n s = Some (
     if sl_tx_pending s then (Some DTERR_BUSY, None, s)
     else (None, Some n, s\<lparr>sl_tx_bytes := take (nat n) buf @ drop (nat n) (sl_tx_bytes s),
                             sl_tx_len := n, sl_tx_pending := True\<rparr>))"
  using assms unfolding slv_write_def by (cases "sl_tx_pending s") (simp_all add: slv_locked_free [OF assms(1,2)])

section \<open>One request\<close>

text \<open>A server with one request at hand, whose answer changes the registers by \<open>f\<close>.\<close>

definition one_query :: "(u16 list \<Rightarrow> u16 list) \<Rightarrow> (unit, unit) modbus_server" where
  "one_query f = \<lparr>sv_accept = (\<lambda>s w. (True, s, w)), sv_receive = (\<lambda>w. (1, (), w)),
                 sv_reply = (\<lambda>_ _ regs w. (True, f regs, w))\<rparr>"

definition slv_request ::
  "modbus_consts \<Rightarrow> 'f ringfifo \<Rightarrow> errno option \<Rightarrow> thread \<Rightarrow> (u16 list \<Rightarrow> u16 list)
     \<Rightarrow> 'f dtiox_linux_modbus_tcp_slave_t \<Rightarrow> 'f dtiox_linux_modbus_tcp_slave_t option" where
  "slv_request c rf post_rc t f s =
     (case slv_session_round c rf post_rc (one_query f) t s () of
        Some (RxGoOn, s', _) \<Rightarrow> Some s'
      | _ \<Rightarrow> None)"

lemma slv_clamp_lock: "slv_clamp c (s\<lparr>sl_lock := l\<rparr>) = slv_clamp c s"
  by (rule ext) (simp add: slv_clamp_def)

lemma slv_consume_lock:
  "slv_consume_put_blob c rf post_rc (s\<lparr>sl_lock := l\<rparr>) = (slv_consume_put_blob c rf post_rc s)\<lparr>sl_lock := l\<rparr>"
proof (cases "sl_mb_map s")
  case None
  then show ?thesis by (simp add: slv_consume_put_blob_def)
next
  case (Some regs)
  show ?thesis
  proof (cases "regs ! mc_m2s_cmd c = mc_cmd_put_blob c")
    case True
    with Some show ?thesis
      by (cases "0 < slv_clamp c s (uint (regs ! mc_m2s_len c))")
         (simp_all add: slv_consume_put_blob_def slv_clamp_lock Let_def split: prod.split)
  qed (simp add: Some slv_consume_put_blob_def)
qed

lemma slv_prepare_lock:
  "slv_prepare_poll_response c (s\<lparr>sl_lock := l\<rparr>) = (slv_prepare_poll_response c s)\<lparr>sl_lock := l\<rparr>"
  by (cases "sl_mb_map s") (simp_all add: slv_prepare_poll_response_def slv_clamp_lock Let_def)

lemma slv_process_lock:
  "slv_process c rf post_rc (s\<lparr>sl_lock := l\<rparr>) = map_option (\<lambda>s. s\<lparr>sl_lock := l\<rparr>) (slv_process c rf post_rc s)"
  by (cases "sl_mb_map (slv_consume_put_blob c rf post_rc s)")
     (simp_all add: slv_process_def slv_consume_lock slv_prepare_lock Let_def)

lemma slv_request_serving:
  assumes "slv_serving c s" "sl_mb_map s = Some regs"
    and "slv_process c rf post_rc (s\<lparr>sl_mb_map := Some (f regs)\<rparr>) = Some s'" "sl_lock s' = sl_lock s"
  shows "slv_request c rf post_rc t f s = Some s'"
proof -
  note lock = serving_lock [OF assms(1)]
  obtain l1 where l1: "dtlock_acquire t (sl_lock s) = Some (None, l1)"
      "dtlock_release t l1 = Some (None, sl_lock s)"
    using acquire_free [OF lock] by blast
  have "slv_locked t True (\<lambda>s. (None, sl_rxtask_stop_requested s \<or> sl_session_stop_requested s, s)) s = Some (None, False, s)"
    using assms(1) by (intro slv_locked_free [OF lock]) (simp_all add: slv_serving_def)
  moreover have "s'\<lparr>sl_lock := sl_lock s\<rparr> = s'" using assms(4) by (cases s') simp
  ultimately show ?thesis
    using assms(2,3) l1
    by (simp add: slv_request_def slv_session_round_def one_query_def slv_process_lock slv_release_lock_def)
qed


section \<open>The slave as a byte stream\<close>

text \<open>
  \<open>m\<close> is the configured blob size. A blob arrives with one request of the master that writes
  \<open>put_regs\<close>.
\<close>

definition slv_arrive ::
  "modbus_consts \<times> 'f ringfifo \<Rightarrow> byte list \<Rightarrow> 'f dtiox_linux_modbus_tcp_slave_t \<Rightarrow> 'f dtiox_linux_modbus_tcp_slave_t" where
  "slv_arrive env d s =
     (case slv_request (fst env) (snd env) None 0 (store_regs (mc_m2s_cmd (fst env)) (put_regs (fst env) d)) s of
        None \<Rightarrow> s | Some s' \<Rightarrow> s')"

definition slv_take ::
  "modbus_consts \<times> 'f ringfifo \<Rightarrow> nat \<Rightarrow> 'f dtiox_linux_modbus_tcp_slave_t
     \<Rightarrow> dterr \<times> byte list \<times> 'f dtiox_linux_modbus_tcp_slave_t" where
  "slv_take env n s =
     (case slv_read (snd env) 0 (int n) s of
        None \<Rightarrow> (Some DTERR_STATE, [], s)
      | Some (e, d, s') \<Rightarrow> (e, case d of None \<Rightarrow> [] | Some b \<Rightarrow> b, s'))"

definition slv_env_ok :: "modbus_consts \<times> 'f ringfifo \<Rightarrow> bool" where
  "slv_env_ok env \<longleftrightarrow> modbus_consts_ok (fst env) \<and> ringfifo_ok (snd env)"

definition slv_live :: "int \<Rightarrow> modbus_consts \<Rightarrow> 'f dtiox_linux_modbus_tcp_slave_t \<Rightarrow> bool" where
  "slv_live m c s \<longleftrightarrow> slv_serving c s \<and> sl_max_blob_bytes s = m"

definition slv_pending :: "modbus_consts \<times> 'f ringfifo \<Rightarrow> 'f dtiox_linux_modbus_tcp_slave_t \<Rightarrow> byte list" where
  "slv_pending env s = rf_items (snd env) (sl_rx_fifo s)"

lemma slv_arrive_put:
  assumes c: "modbus_consts_ok c" and rf: "ringfifo_ok rf" and s: "slv_serving c s"
    and p: "int (length p) \<le> sl_max_blob_bytes s"
  shows "\<exists>s' k. slv_request c rf post_rc t (store_regs (mc_m2s_cmd c) (put_regs c p)) s = Some s' \<and>
    slv_serving c s' \<and> sl_lock s' = sl_lock s \<and> sl_max_blob_bytes s' = sl_max_blob_bytes s \<and> k \<le> length p \<and>
    rf_items rf (sl_rx_fifo s') = rf_items rf (sl_rx_fifo s) @ take k p \<and>
    rf_capacity rf (sl_rx_fifo s') = rf_capacity rf (sl_rx_fifo s) \<and>
    (sl_rx_overflow_pending s' \<longleftrightarrow> sl_rx_overflow_pending s \<or> k < length p) \<and>
    (length (rf_items rf (sl_rx_fifo s)) + length p \<le> rf_capacity rf (sl_rx_fifo s) \<longrightarrow> k = length p)"
proof -
  obtain regs where regs: "sl_mb_map s = Some regs" using s by (auto simp: slv_serving_def)
  from slv_process_put [OF c rf s p regs, of post_rc] obtain s' k
    where put: "slv_process c rf post_rc (s\<lparr>sl_mb_map := Some (store_regs (mc_m2s_cmd c) (put_regs c p) regs)\<rparr>) = Some s'"
      "sl_lock s' = sl_lock s"
      and rest: "slv_serving c s' \<and> sl_lock s' = sl_lock s \<and> sl_max_blob_bytes s' = sl_max_blob_bytes s \<and> k \<le> length p \<and>
    rf_items rf (sl_rx_fifo s') = rf_items rf (sl_rx_fifo s) @ take k p \<and>
    rf_capacity rf (sl_rx_fifo s') = rf_capacity rf (sl_rx_fifo s) \<and>
    (sl_rx_overflow_pending s' \<longleftrightarrow> sl_rx_overflow_pending s \<or> k < length p) \<and>
    (length (rf_items rf (sl_rx_fifo s)) + length p \<le> rf_capacity rf (sl_rx_fifo s) \<longrightarrow> k = length p)"
    by (elim exE conjE) blast
  from slv_request_serving [where f = "store_regs (mc_m2s_cmd c) (put_regs c p)" and t = t, OF s regs put] rest
  show ?thesis by blast
qed

interpretation slv_rx: rx_stream "\<lambda>env. slv_env_ok env \<and> fst env = c" "slv_live m c" "\<lambda>d. int (length d) \<le> m"
  slv_pending sl_rx_overflow_pending slv_arrive slv_take for c :: modbus_consts and m :: int
proof
  fix env :: "modbus_consts \<times> 'f ringfifo" and s :: "'f dtiox_linux_modbus_tcp_slave_t" and d :: "byte list" and n :: nat
  assume env: "slv_env_ok env \<and> fst env = c" and live: "slv_live m c s"
  have c: "modbus_consts_ok c" and rf: "ringfifo_ok (snd env)" and fe: "fst env = c"
    using env by (auto simp: slv_env_ok_def)
  have s: "slv_serving c s" and m: "sl_max_blob_bytes s = m" using live by (simp_all add: slv_live_def)
  note lock = serving_lock [OF s]
  {
    assume "int (length d) \<le> m"
    with m have d: "int (length d) \<le> sl_max_blob_bytes s" by simp
    from slv_arrive_put [OF c rf s d, of None 0] obtain s' k
      where r: "slv_request c (snd env) None 0 (store_regs (mc_m2s_cmd c) (put_regs c d)) s = Some s'"
        and f: "slv_serving c s'" "sl_max_blob_bytes s' = sl_max_blob_bytes s" "k \<le> length d"
          "rf_items (snd env) (sl_rx_fifo s') = rf_items (snd env) (sl_rx_fifo s) @ take k d"
          "sl_rx_overflow_pending s' = (sl_rx_overflow_pending s \<or> k < length d)"
      by (elim exE conjE) blast
    have "slv_arrive env d s = s'" using r fe by (simp add: slv_arrive_def)
    with f m show "slv_live m c (slv_arrive env d s) \<and> (\<exists>k\<le>length d.
        slv_pending env (slv_arrive env d s) = slv_pending env s @ take k d \<and>
        sl_rx_overflow_pending (slv_arrive env d s) = (sl_rx_overflow_pending s \<or> k < length d))"
      by (intro conjI exI [of _ k]) (simp_all add: slv_pending_def slv_live_def)
  next
    assume o: "sl_rx_overflow_pending s"
    have "slv_take env n s = (Some DTERR_OVERFLOW, [], s\<lparr>sl_rx_overflow_pending := False\<rparr>)"
      by (simp add: slv_take_def slv_read_locked [OF lock] o)
    then show "\<exists>s'. slv_take env n s = (Some DTERR_OVERFLOW, [], s') \<and> slv_live m c s' \<and>
        \<not> sl_rx_overflow_pending s' \<and> slv_pending env s' = slv_pending env s"
      using live by (simp add: slv_live_def slv_serving_def slv_pending_def)
  next
    assume o: "\<not> sl_rx_overflow_pending s"
    obtain f' where f': "rf_pop (snd env) (sl_rx_fifo s) (int n) = (take n (rf_items (snd env) (sl_rx_fifo s)), f')"
        "rf_items (snd env) f' = drop n (rf_items (snd env) (sl_rx_fifo s))"
      using pop_cases [OF rf, of "int n" "sl_rx_fifo s"] by auto
    have "sl_enabled s" using s by (simp add: slv_serving_def)
    then have "slv_take env n s = (None, take n (slv_pending env s), s\<lparr>sl_rx_fifo := f'\<rparr>)"
      by (simp add: slv_take_def slv_read_locked [OF lock] o f'(1) slv_pending_def)
    then show "\<exists>s'. slv_take env n s = (None, take n (slv_pending env s), s') \<and> slv_live m c s' \<and>
        \<not> sl_rx_overflow_pending s' \<and> slv_pending env s' = drop n (slv_pending env s)"
      using live o f'(2) by (simp add: slv_live_def slv_serving_def slv_pending_def)
  }
qed

section \<open>Properties\<close>

text \<open>
  The receive path of the slave is a byte stream that reports its losses. Whatever blobs of
  at most the configured size the master puts and whatever the caller reads, in any order, the
  bytes read are among those that were put, in their order and none twice; and if no read
  reported an overflow and none is due, what was read and what waits is exactly what was put.
\<close>

theorem slave_stream:
  assumes "modbus_consts_ok c" "ringfifo_ok rf" "slv_serving c s" "slv_pending (c, rf) s = []"
    and "list_all (\<lambda>e. case e of Arrive d \<Rightarrow> int (length d) \<le> sl_max_blob_bytes s | Read _ \<Rightarrow> True) es"
    and "rx_run (slv_arrive (c, rf)) (slv_take (c, rf)) es s = (errs, got, s')"
  shows "subseq (got @ slv_pending (c, rf) s') (arrivals es) \<and>
    (errs = 0 \<and> \<not> sl_rx_overflow_pending s' \<longrightarrow> got @ slv_pending (c, rf) s' = arrivals es)"
proof -
  have "slv_env_ok (c, rf) \<and> fst (c, rf) = c" using assms(1,2) by (simp add: slv_env_ok_def)
  moreover have "slv_live (sl_max_blob_bytes s) c s" using assms(3) by (simp add: slv_live_def)
  ultimately show ?thesis using slv_rx.stream [OF _ _ assms(5,6)] assms(4) by auto
qed


section \<open>A message that is never sent\<close>

definition tx_stuck :: "'f dtiox_linux_modbus_tcp_slave_t \<Rightarrow> bool" where
  "tx_stuck s \<longleftrightarrow> sl_tx_pending s \<and> sl_tx_len s = 0"

lemma consume_tx [simp]:
  "sl_tx_pending (slv_consume_put_blob c rf post_rc s) = sl_tx_pending s"
  "sl_tx_len (slv_consume_put_blob c rf post_rc s) = sl_tx_len s"
  "sl_enabled (slv_consume_put_blob c rf post_rc s) = sl_enabled s"
  "sl_max_blob_bytes (slv_consume_put_blob c rf post_rc s) = sl_max_blob_bytes s"
  by (simp_all add: slv_consume_put_blob_def Let_def split: option.split prod.split)

lemma process_tx_stuck:
  assumes "slv_process c rf post_rc s = Some s'" "tx_stuck s"
  shows "tx_stuck s'" "sl_enabled s' = sl_enabled s" "sl_max_blob_bytes s' = sl_max_blob_bytes s"
proof -
  have "tx_stuck s' \<and> sl_enabled s' = sl_enabled s \<and> sl_max_blob_bytes s' = sl_max_blob_bytes s"
    using assms
    by (cases "sl_mb_map (slv_consume_put_blob c rf post_rc s)")
       (auto simp: slv_process_def slv_prepare_poll_response_def tx_stuck_def Let_def split: if_splits)
  then show "tx_stuck s'" "sl_enabled s' = sl_enabled s" "sl_max_blob_bytes s' = sl_max_blob_bytes s"
    by simp_all
qed

section \<open>What a session keeps\<close>

lemma consume_same_lock [simp]:
  "sl_lock (slv_consume_put_blob c rf post_rc s) = sl_lock s"
  "sl_listening_socket (slv_consume_put_blob c rf post_rc s) = sl_listening_socket s"
  by (simp_all add: slv_consume_put_blob_def Let_def split: option.split prod.split)

lemma process_same_lock:
  "slv_process c rf post_rc s = Some s' \<Longrightarrow> sl_lock s' = sl_lock s \<and> sl_listening_socket s' = sl_listening_socket s"
  by (auto simp: slv_process_def slv_prepare_poll_response_def Let_def split: option.splits if_splits)

lemma session_round_keeps:
  assumes lock: "lock_valid (sl_lock s)" "lock_holder (sl_lock s) = None"
    and "slv_session_round c rf post_rc srv t s w = Some (out, s', w')" and "P s"
    and map: "\<And>s regs. P s \<Longrightarrow> P (s\<lparr>sl_mb_map := Some regs\<rparr>)"
    and process: "\<And>s s'. P s \<Longrightarrow> slv_process c rf post_rc s = Some s' \<Longrightarrow> P s'"
  shows "P s' \<and> sl_lock s' = sl_lock s"
proof -
  obtain l1 where l1: "dtlock_acquire t (sl_lock s) = Some (None, l1)"
      "dtlock_release t l1 = Some (None, sl_lock s)"
    using acquire_free [OF lock] by blast
  have snap: "slv_locked t True (\<lambda>s. (None, sl_rxtask_stop_requested s \<or> sl_session_stop_requested s, s)) s
      = Some (None, sl_rxtask_stop_requested s \<or> sl_session_stop_requested s, s)"
    by (intro slv_locked_free [OF lock]) simp_all
  obtain rc q w1 where rcv: "sv_receive srv w = (rc, q, w1)" by (cases "sv_receive srv w")
  note round = assms(3) [unfolded slv_session_round_def snap, simplified, unfolded rcv, simplified]
  show ?thesis
  proof (cases "sl_rxtask_stop_requested s \<or> sl_session_stop_requested s \<or> rc \<le> 0")
    case True
    with round have "s' = s" by (auto split: if_splits)
    with \<open>P s\<close> show ?thesis by simp
  next
    case False
    with round obtain regs where regs: "sl_mb_map s = Some regs" by (auto split: option.splits)
    obtain ok regs1 w2 where rep: "sv_reply srv q rc regs w1 = (ok, regs1, w2)" by (cases "sv_reply srv q rc regs w1")
    let ?s1 = "s\<lparr>sl_mb_map := Some regs1\<rparr>"
    show ?thesis
    proof (cases ok)
      case no: False
      with round False regs rep have "s' = ?s1" by simp
      with map [OF \<open>P s\<close>] show ?thesis by simp
    next
      case True
      with round False regs rep l1
      obtain s2 where p: "slv_process c rf post_rc (?s1\<lparr>sl_lock := l1\<rparr>) = Some s2"
        by (cases "slv_process c rf post_rc (?s1\<lparr>sl_lock := l1\<rparr>)") simp_all
      then obtain s3 where s3: "slv_process c rf post_rc ?s1 = Some s3" "s2 = s3\<lparr>sl_lock := l1\<rparr>"
        by (cases "slv_process c rf post_rc ?s1") (simp_all add: slv_process_lock)
      have "s' = s3\<lparr>sl_lock := sl_lock s\<rparr>"
        using round False regs rep l1 p True by (simp add: slv_release_lock_def s3(2))
      moreover have "sl_lock s3 = sl_lock s" using process_same_lock [OF s3(1)] by simp
      ultimately have "s' = s3" by (cases s3) simp
      with process [OF map [OF \<open>P s\<close>] s3(1)] \<open>sl_lock s3 = sl_lock s\<close> show ?thesis by simp
    qed
  qed
qed

lemma session_loop_keeps:
  assumes map: "\<And>s regs. P s \<Longrightarrow> P (s\<lparr>sl_mb_map := Some regs\<rparr>)"
    and process: "\<And>s s'. P s \<Longrightarrow> slv_process c rf post_rc s = Some s' \<Longrightarrow> P s'"
  shows "lock_valid (sl_lock s) \<Longrightarrow> lock_holder (sl_lock s) = None \<Longrightarrow>
     slv_session_loop c rf post_rc srv t n s w = Some (e, s', w') \<Longrightarrow> P s \<Longrightarrow> P s' \<and> sl_lock s' = sl_lock s"
proof (induction n arbitrary: s w)
  case (Suc n)
  then obtain out s1 w1 where r: "slv_session_round c rf post_rc srv t s w = Some (out, s1, w1)"
    by (auto split: option.splits)
  have s1: "P s1 \<and> sl_lock s1 = sl_lock s"
    by (rule session_round_keeps [where P = P, OF Suc.prems(1,2) r Suc.prems(4) map process])
  show ?case
  proof (cases out)
    case RxGoOn
    with Suc.IH [of s1 w1] Suc.prems r s1 show ?thesis by simp
  next
    case RxExit
    with Suc.prems(3) r s1 show ?thesis by simp
  qed
qed simp

text \<open>
  The task serves one master. Once a session has ended, however it ended, the task returns
  and accepts nobody else, while the object stays as it was: enabled and listening. A new attach
  returns success at once and changes nothing, so that no task runs again.
\<close>

theorem slave_serves_one_session:
  assumes "slv_serving c s" "0 < sl_listening_socket s"
    and "sv_accept srv (sl_listening_socket s) w = (True, sock, w1)"
    and "slv_session_loop c rf post_rc srv t n (s\<lparr>sl_session_socket := sock\<rparr>) w1 = Some (e, s', w')"
  shows "slv_rxtask_entry c rf post_rc srv None t (Suc n) s w = Some (Returned None, s', w') \<and>
    slv_attach c env u s' = Some (None, s', [])"
proof -
  note lock = serving_lock [OF assms(1)]
  have "slv_locked t (True, 0) (\<lambda>s. (None, (sl_rxtask_stop_requested s, sl_listening_socket s), s)) s
      = Some (None, (False, sl_listening_socket s), s)"
    using assms(1) by (intro slv_locked_free [OF lock]) (simp_all add: slv_serving_def)
  then have "slv_rxtask_entry c rf post_rc srv None t (Suc n) s w = Some (Returned None, s', w')"
    using assms(3,4) by (simp add: slv_rxtask_entry_def)
  moreover have "sl_listening_socket s' = k \<and> sl_lock s' = sl_lock (s\<lparr>sl_session_socket := sock\<rparr>)"
    if k: "k = sl_listening_socket s" for k
  proof (rule session_loop_keeps [where P = "\<lambda>x. sl_listening_socket x = k", OF _ _ _ _ assms(4)])
    fix x x' :: "'a dtiox_linux_modbus_tcp_slave_t"
    assume "sl_listening_socket x = k" "slv_process c rf post_rc x = Some x'"
    with process_same_lock [OF this(2)] show "sl_listening_socket x' = k" by simp
  qed (simp_all add: lock k)
  moreover have "sl_lock s \<noteq> None" using lock by (cases "sl_lock s") (auto simp: lock_valid_def)
  ultimately show ?thesis using assms(2) by (simp add: slv_attach_def)
qed

text \<open>
  A detach does not end a session that \<open>modbus_tcp_accept\<close> started without changing the
  descriptor it is given, and a slave cannot be attached again after it. The detach closes
  nothing, since the descriptor of the session is then the listening one; the next attach returns
  success and leaves the slave disabled and its sessions told to stop.
\<close>

theorem slave_detach_is_final:
  assumes "slv_serving c s" "0 < sl_listening_socket s" "sl_session_socket s = sl_listening_socket s"
  shows "\<exists>s1. slv_detach s = (None, s1, []) \<and> slv_attach c env u s1 = Some (None, s1, []) \<and>
    \<not> sl_enabled s1 \<and> sl_session_stop_requested s1 \<and>
    (0 \<le> n \<and> \<not> sl_rx_overflow_pending s \<longrightarrow> slv_read rf t n s1 = Some (None, Some [], s1)) \<and>
    (0 \<le> n \<and> n \<le> sl_max_blob_bytes s \<longrightarrow> slv_write t buf n s1 = Some (None, None, s1))"
proof -
  note lock = serving_lock [OF assms(1)]
  let ?s1 = "s\<lparr>sl_session_stop_requested := True, sl_enabled := False\<rparr>"
  have some: "sl_lock s \<noteq> None" using lock by (cases "sl_lock s") (auto simp: lock_valid_def)
  then have "slv_detach s = (None, ?s1, [])" using assms(3) by (simp add: slv_detach_def)
  moreover have "slv_attach c env u ?s1 = Some (None, ?s1, [])" using some assms(2) by (simp add: slv_attach_def)
  moreover have "0 \<le> n \<Longrightarrow> \<not> sl_rx_overflow_pending s \<Longrightarrow> slv_read rf t n ?s1 = Some (None, Some [], ?s1)"
    using slv_read_locked [of ?s1 n rf t] lock by simp
  moreover have "0 \<le> n \<Longrightarrow> n \<le> sl_max_blob_bytes s \<Longrightarrow> slv_write t buf n ?s1 = Some (None, None, ?s1)"
    unfolding slv_write_def by (simp add: slv_locked_free lock)
  ultimately show ?thesis by (intro exI [of _ ?s1]) simp
qed

text \<open>
  An empty write blocks the slave's sending side. It is accepted and marks a message of
  length 0 as waiting; no request of a master ever sends it, so after any session every write
  is refused with \<open>DTERR_BUSY\<close>.
\<close>

theorem slave_empty_write_blocks:
  assumes "slv_serving c s" "\<not> sl_tx_pending s" "slv_write t [] 0 s = Some (e, out, s1)"
    and "slv_session_loop c rf post_rc srv u n s1 w = Some (e2, s2, w2)"
    and "0 \<le> m" "m \<le> sl_max_blob_bytes s"
  shows "e = None \<and> out = Some 0 \<and> slv_write v buf m s2 = Some (Some DTERR_BUSY, None, s2)"
proof -
  note lock = serving_lock [OF assms(1)]
  have s: "sl_enabled s" "0 \<le> sl_max_blob_bytes s" using assms(1) by (simp_all add: slv_serving_def)
  from assms(2,3) slv_write_locked [OF lock _ s(2,1), of t "[]"]
  have w: "e = None" "out = Some 0" "s1 = s\<lparr>sl_tx_len := 0, sl_tx_pending := True\<rparr>" by auto
  let ?P = "\<lambda>x. tx_stuck x \<and> sl_enabled x \<and> sl_max_blob_bytes x = sl_max_blob_bytes s"
  have "?P s2 \<and> sl_lock s2 = sl_lock s1"
  proof (rule session_loop_keeps [where P = ?P, OF _ _ _ _ assms(4)])
    show "?P s1" using s(1) by (simp add: w(3) tx_stuck_def)
  qed (simp_all add: lock w(3) tx_stuck_def process_tx_stuck [unfolded tx_stuck_def])
  with slv_write_locked [of s2 m v buf] assms(5,6) lock
  have "slv_write v buf m s2 = Some (Some DTERR_BUSY, None, s2)" by (simp add: tx_stuck_def w(3))
  with w show ?thesis by simp
qed


lemma slv_attach_rolled_back:
  assumes "slv_attach c env t s = Some (Some e, s', closed)" "sl_listening_socket s \<le> 0"
  shows "\<exists>x. slv_rollback x = (s', closed) \<and> (0 < sl_listening_socket x \<longrightarrow> sl_listening_socket x = sa_listen env) \<and>
      (slv_verify_rxtask_not_running s = Some DTERR_STATE \<and> sl_lock s \<noteq> None \<longrightarrow> x = s)"
proof -
  have locked: "0 < sl_listening_socket x \<Longrightarrow> sl_listening_socket x = sa_listen env"
    if "slv_attach_locked c env y = (a, b, x)" "sl_listening_socket y \<le> 0"
    for x y :: "'a dtiox_linux_modbus_tcp_slave_t" and a b
    using that by (auto simp: slv_attach_locked_def Let_def split: if_splits sum.splits)
  show ?thesis
  proof (cases "sl_lock s = None \<or> slv_verify_rxtask_not_running s \<noteq> None")
    case True
    then have "slv_rollback s = (s', closed)"
      using assms by (auto simp: slv_attach_def Let_def split: if_splits prod.splits)
    with assms(2) show ?thesis by (intro exI [of _ s]) simp
  next
    case False
    then have run: "slv_verify_rxtask_not_running s = None" "sl_lock s \<noteq> None" by simp_all
    note att = assms(1) [unfolded slv_attach_def Let_def]
    show ?thesis
    proof (cases "dtlock_acquire t (sl_lock s)")
      case None
      with att run assms(2) show ?thesis by simp
    next
      case (Some a)
      obtain e1 l where el: "a = (e1, l)" by (cases a)
      show ?thesis
      proof (cases e1)
        case (Some e2)
        with att run assms(2) el \<open>dtlock_acquire t (sl_lock s) = Some a\<close>
        have "slv_rollback (s\<lparr>sl_lock := l\<rparr>) = (s', closed)" by (simp split: prod.splits)
        with assms(2) run show ?thesis by (intro exI [of _ "s\<lparr>sl_lock := l\<rparr>"]) simp
      next
        case None
        obtain e3 skip x where lk: "slv_attach_locked c env (s\<lparr>sl_lock := l\<rparr>) = (e3, skip, x)"
          by (cases "slv_attach_locked c env (s\<lparr>sl_lock := l\<rparr>)")
        have x: "0 < sl_listening_socket x \<Longrightarrow> sl_listening_socket x = sa_listen env"
          using locked [OF lk] assms(2) by simp
        have "\<exists>y. slv_rollback y = (s', closed) \<and> sl_listening_socket y = sl_listening_socket x"
        proof (cases skip)
          case True
          with att run assms(2) el \<open>dtlock_acquire t (sl_lock s) = Some a\<close> None lk
          have "slv_rollback x = (s', closed)" by (simp split: prod.splits if_splits)
          then show ?thesis by blast
        next
          case False
          with att run assms(2) el \<open>dtlock_acquire t (sl_lock s) = Some a\<close> None lk
          obtain y e4 where rel: "slv_release_lock t x e3 = Some (e4, y)"
            by (cases "slv_release_lock t x e3") auto
          with False att run assms(2) el \<open>dtlock_acquire t (sl_lock s) = Some a\<close> None lk
          have "slv_rollback y = (s', closed)" by (cases "slv_rollback y") (simp split: if_splits)
          with rel show ?thesis by (auto simp: slv_release_lock_def)
        qed
        with x run show ?thesis by auto
      qed
    qed
  qed
qed

text \<open>
  An attach that fails leaves nothing of the mapping and of the context, also where they are
  in use. It closes exactly the descriptor it opened, and after it no descriptor is open in the
  object. But an attach of an object whose task still runs and that has no listening socket any
  more, as after a dispose, is refused and frees the registers the task is working with: what
  the task does after its next answer reads through NULL.
\<close>

theorem slave_attach_failure:
  assumes "slv_attach c env t s = Some (Some e, s', closed)" "sl_listening_socket s \<le> 0"
  shows "sl_mb_map s' = None \<and> \<not> sl_mb s' \<and> sl_listening_socket s' \<le> 0 \<and>
    (closed = [] \<or> closed = [sa_listen env] \<and> 0 < sa_listen env) \<and>
    (slv_verify_rxtask_not_running s = Some DTERR_STATE \<and> sl_lock s \<noteq> None \<longrightarrow>
       slv_verify_rxtask_not_running s' = Some DTERR_STATE \<and> slv_process c rf post_rc s' = None)"
proof -
  have roll: "sl_mb_map x' = None \<and> \<not> sl_mb x' \<and> sl_listening_socket x' \<le> 0 \<and>
      cl = (if 0 < sl_listening_socket x then [sl_listening_socket x] else [])"
    if "slv_rollback x = (x', cl)" for x x' :: "'a dtiox_linux_modbus_tcp_slave_t" and cl
    using that by (auto simp: slv_rollback_def Let_def split: if_splits)
  from slv_attach_rolled_back [OF assms] obtain x where x: "slv_rollback x = (s', closed)"
      "0 < sl_listening_socket x \<longrightarrow> sl_listening_socket x = sa_listen env"
      "slv_verify_rxtask_not_running s = Some DTERR_STATE \<and> sl_lock s \<noteq> None \<longrightarrow> x = s" by blast
  have "slv_verify_rxtask_not_running s' = Some DTERR_STATE \<and> slv_process c rf post_rc s' = None"
    if "slv_verify_rxtask_not_running s = Some DTERR_STATE" "sl_lock s \<noteq> None"
  proof -
    from x that have "slv_rollback s = (s', closed)" by simp
    with assms(2) have s': "s' = s\<lparr>sl_mb_map := None, sl_mb := False\<rparr>" by (simp add: slv_rollback_def)
    with that show ?thesis
      by (simp add: slv_verify_rxtask_not_running_def slv_process_def slv_consume_put_blob_def)
  qed
  with x(2) roll [OF x(1)] show ?thesis by auto
qed

section \<open>Witnesses\<close>

definition sample_slave :: "(byte list \<times> nat) dtiox_linux_modbus_tcp_slave_t" where
  "sample_slave = (snd (slv_init byte_consts list_fifo 0 None None))\<lparr>
     sl_max_blob_bytes := 4, sl_mb := True, sl_listening_socket := 5, sl_session_socket := 5, sl_enabled := True,
     sl_mb_map := Some (reset_s2m byte_consts (replicate (required_registers byte_consts) 0)),
     sl_rx_fifo := ([], 8), sl_rxtasker := Some running_tasker, sl_lock := fresh_lock Unlocked\<rparr>"

lemmas sample_slave_defs =
  sample_slave_def slv_init_def reset_s2m_def required_registers_def byte_consts_def fresh_lock_def list_fifo_def

lemma sample_serving: "slv_serving byte_consts sample_slave"
  by (simp add: slv_serving_def sample_slave_defs lock_valid_def lock_holder_def)

lemma sample_slave_fields:
  "sl_listening_socket sample_slave = 5" "sl_session_socket sample_slave = 5" "sl_max_blob_bytes sample_slave = 4"
  "\<not> sl_tx_pending sample_slave" "\<not> sl_rx_overflow_pending sample_slave" "slv_pending (c, list_fifo) sample_slave = []"
  by (simp_all add: sample_slave_defs slv_pending_def)

definition sample_attach_env :: slave_attach_env where
  "sample_attach_env = \<lparr>sa_new_tcp = True, sa_set_timeout = True, sa_mapping_new = True, sa_listen = 5,
     sa_start = Inr running_tasker\<rparr>"

text \<open>A master that connects and hangs up.\<close>

definition gone_server :: "(unit, unit) modbus_server" where
  "gone_server = \<lparr>sv_accept = (\<lambda>s w. (True, s, w)), sv_receive = (\<lambda>w. (-1, (), w)),
                 sv_reply = (\<lambda>_ _ regs w. (True, regs, w))\<rparr>"

lemma gone_session:
  assumes "lock_valid (sl_lock s)" "lock_holder (sl_lock s) = None"
  shows "slv_session_loop c rf post_rc gone_server t (Suc n) s () = Some (None, s, ())"
  using slv_locked_free [OF assms, of "\<lambda>s. (None, sl_rxtask_stop_requested s \<or> sl_session_stop_requested s, s)" None _ s]
  by (simp add: slv_session_round_def gone_server_def)

theorem slave_stream_witness:
  "case rx_run (slv_arrive (byte_consts, list_fifo)) (slv_take (byte_consts, list_fifo)) [Arrive [1, 2], Read 1] sample_slave of
     (errs, got, s') \<Rightarrow> subseq (got @ slv_pending (byte_consts, list_fifo) s') [1, 2]"
proof -
  let ?r = "rx_run (slv_arrive (byte_consts, list_fifo)) (slv_take (byte_consts, list_fifo)) [Arrive [1, 2], Read 1] sample_slave"
  have "?r = (fst ?r, fst (snd ?r), snd (snd ?r))" by (simp only: prod.collapse)
  from slave_stream [OF byte_consts_ok list_fifo_ok sample_serving sample_slave_fields(6) _ this]
  show ?thesis by (simp add: sample_slave_fields case_prod_unfold)
qed

theorem slave_serves_one_session_witness:
  "slv_rxtask_entry byte_consts list_fifo None gone_server None 1 2 sample_slave ()
     = Some (Returned None, sample_slave\<lparr>sl_session_socket := 5\<rparr>, ()) \<and>
   slv_attach byte_consts sample_attach_env 2 (sample_slave\<lparr>sl_session_socket := 5\<rparr>)
     = Some (None, sample_slave\<lparr>sl_session_socket := 5\<rparr>, [])"
proof -
  have acc: "sv_accept gone_server (sl_listening_socket sample_slave) () = (True, 5, ())"
    by (simp add: gone_server_def sample_slave_fields)
  have "slv_session_loop byte_consts list_fifo None gone_server 1 1 (sample_slave\<lparr>sl_session_socket := 5\<rparr>) ()
      = Some (None, sample_slave\<lparr>sl_session_socket := 5\<rparr>, ())"
    using gone_session [of "sample_slave\<lparr>sl_session_socket := 5\<rparr>" _ _ _ _ 0] serving_lock [OF sample_serving] by simp
  from slave_serves_one_session [where env = sample_attach_env and u = 2, OF sample_serving _ acc this] show ?thesis
    by (simp only: sample_slave_fields Suc_1 simp_thms zero_less_numeral)
qed

theorem slave_detach_is_final_witness:
  "\<exists>s1. slv_detach sample_slave = (None, s1, []) \<and> slv_attach byte_consts sample_attach_env 1 s1 = Some (None, s1, []) \<and>
    \<not> sl_enabled s1 \<and> sl_session_stop_requested s1 \<and>
    (0 \<le> (2 :: int) \<and> \<not> sl_rx_overflow_pending sample_slave \<longrightarrow> slv_read list_fifo 1 2 s1 = Some (None, Some [], s1)) \<and>
    (0 \<le> (2 :: int) \<and> 2 \<le> sl_max_blob_bytes sample_slave \<longrightarrow> slv_write 1 [7, 8] 2 s1 = Some (None, None, s1))"
  by (rule slave_detach_is_final [OF sample_serving]) (simp_all add: sample_slave_fields)

theorem slave_empty_write_blocks_witness:
  "\<exists>e out s1. slv_write 1 [] 0 sample_slave = Some (e, out, s1) \<and> e = None \<and> out = Some 0 \<and>
     slv_write 1 [7] 1 s1 = Some (Some DTERR_BUSY, None, s1)"
proof -
  note lock = serving_lock [OF sample_serving]
  let ?s1 = "sample_slave\<lparr>sl_tx_bytes := [] @ sl_tx_bytes sample_slave, sl_tx_len := 0, sl_tx_pending := True\<rparr>"
  have w: "slv_write 1 [] 0 sample_slave = Some (None, Some 0, ?s1)"
    using slv_write_locked [OF lock, of 0 1 "[]"] sample_slave_fields(3,4) sample_serving
    by (simp add: slv_serving_def)
  have "slv_session_loop byte_consts list_fifo None gone_server 2 (Suc 0) ?s1 () = Some (None, ?s1, ())"
    by (rule gone_session) (simp_all add: lock)
  from w slave_empty_write_blocks [OF sample_serving sample_slave_fields(4) w this, of 1 1 "[7]"] show ?thesis
    by (simp only: sample_slave_fields) auto
qed

theorem slave_attach_failure_witness:
  "\<exists>s' closed. slv_attach byte_consts sample_attach_env 1 (sample_slave\<lparr>sl_listening_socket := -1\<rparr>) = Some (Some DTERR_STATE, s', closed) \<and>
     sl_mb_map s' = None \<and> slv_process byte_consts list_fifo None s' = None"
proof -
  let ?s = "sample_slave\<lparr>sl_listening_socket := -1\<rparr>"
  have v: "slv_verify_rxtask_not_running ?s = Some DTERR_STATE"
    by (simp add: slv_verify_rxtask_not_running_def get_info_handle_def sample_slave_defs running_tasker_def dttasker_get_info_def)
  have lock: "sl_lock ?s \<noteq> None" by (simp add: sample_slave_defs)
  with v have "\<exists>s' closed. slv_attach byte_consts sample_attach_env 1 ?s = Some (Some DTERR_STATE, s', closed)"
    by (simp add: slv_attach_def Let_def split: prod.split)
  then obtain s' closed where a: "slv_attach byte_consts sample_attach_env 1 ?s = Some (Some DTERR_STATE, s', closed)" by blast
  have "sl_listening_socket ?s \<le> 0" by simp
  from a v lock slave_attach_failure [where c = byte_consts and rf = list_fifo and post_rc = None, OF a this] show ?thesis by blast
qed

end
