(* ===== verification/ModbusBus.thy ===== *)
theory ModbusBus
  imports ModbusMaster ModbusSlave
begin

text \<open>
  A TCP master and a slave on one bus: what the master writes the slave's caller reads, and what
  the slave's caller writes the master's caller reads. What libmodbus does between them is the
  hypothesis \<open>bus_ok\<close>.
\<close>

section \<open>The bus\<close>

text \<open>
  The world of the master is the slave. A call of the master becomes one request at the slave's
  task, which libmodbus answers out of the registers (a write stores, a read copies), and the
  call returns the number of registers.
\<close>

definition bus_ok ::
  "modbus_consts \<Rightarrow> 'f ringfifo \<Rightarrow> errno option \<Rightarrow> thread \<Rightarrow> 'f dtiox_linux_modbus_tcp_slave_t modbus_api \<Rightarrow> bool" where
  "bus_ok c rf post_rc u api \<longleftrightarrow>
     (\<forall>addr rs s s'. rs \<noteq> [] \<longrightarrow> slv_request c rf post_rc u (store_regs addr rs) s = Some s' \<longrightarrow>
        ma_write_registers api addr rs s = (int (length rs), s')) \<and>
     (\<forall>addr n s s' regs. 0 < n \<longrightarrow> sl_mb_map s = Some regs \<longrightarrow> slv_request c rf post_rc u (\<lambda>r. r) s = Some s' \<longrightarrow>
        ma_read_registers api addr n s = (n, take (nat n) (drop addr regs), s'))"

lemma bus_write:
  "bus_ok c rf post_rc u api \<Longrightarrow> rs \<noteq> [] \<Longrightarrow> slv_request c rf post_rc u (store_regs addr rs) s = Some s' \<Longrightarrow>
     ma_write_registers api addr rs s = (int (length rs), s')"
  unfolding bus_ok_def by blast

lemma bus_read:
  "bus_ok c rf post_rc u api \<Longrightarrow> 0 < n \<Longrightarrow> sl_mb_map s = Some regs \<Longrightarrow>
     slv_request c rf post_rc u (\<lambda>r. r) s = Some s' \<Longrightarrow>
     ma_read_registers api addr n s = (n, take (nat n) (drop addr regs), s')"
  unfolding bus_ok_def by blast

text \<open>The bus itself: it satisfies \<open>bus_ok\<close>, and the witnesses compute with it.\<close>

definition direct_bus ::
  "modbus_consts \<Rightarrow> 'f ringfifo \<Rightarrow> errno option \<Rightarrow> thread \<Rightarrow> 'f dtiox_linux_modbus_tcp_slave_t modbus_api" where
  "direct_bus c rf post_rc u =
     \<lparr>ma_new = (\<lambda>w. (True, w)), ma_set_slave = (\<lambda>_ w. (True, w)),
      ma_set_response_timeout = (\<lambda>_ _ w. (True, w)), ma_set_byte_timeout = (\<lambda>_ _ w. (True, w)),
      ma_set_rs485 = (\<lambda>w. w), ma_set_rts_up = (\<lambda>w. w), ma_connect = (\<lambda>w. (True, w)), ma_close = (\<lambda>w. w),
      ma_write_registers = (\<lambda>addr rs s. case slv_request c rf post_rc u (store_regs addr rs) s of
                                          None \<Rightarrow> (-1, s) | Some s' \<Rightarrow> (int (length rs), s')),
      ma_read_registers = (\<lambda>addr n s. case sl_mb_map s of
                                        None \<Rightarrow> (-1, [], s)
                                      | Some regs \<Rightarrow>
                                          (case slv_request c rf post_rc u (\<lambda>r. r) s of
                                             None \<Rightarrow> (-1, [], s)
                                           | Some s' \<Rightarrow> (n, take (nat n) (drop addr regs), s')))\<rparr>"

lemma direct_bus_ok: "bus_ok c rf post_rc u (direct_bus c rf post_rc u)"
  by (simp add: bus_ok_def direct_bus_def)


section \<open>From the master to the slave\<close>

definition master_ready :: "modbus_consts \<Rightarrow> 'f dtiox_linux_modbus_tcp_master_t \<Rightarrow> bool" where
  "master_ready c self \<longleftrightarrow> lock_valid (mm_lock self) \<and> lock_holder (mm_lock self) = None \<and> mm_mb self \<and>
     mm_enabled self \<and> mm_is_connected self \<and> \<not> mm_stop_requested self \<and>
     0 < mm_max_blob_bytes self \<and> mm_max_blob_bytes self \<le> mc_max_blob_bytes c"

lemma master_lock:
  assumes "master_ready c self"
  obtains l1 y where "dtlock_acquire t (mm_lock self) = Some (None, l1)"
    "dtlock_release t l1 = Some (None, mm_lock self)" "mm_lock self = Some y"
proof -
  have l: "lock_valid (mm_lock self)" "lock_holder (mm_lock self) = None" using assms by (simp_all add: master_ready_def)
  then obtain y where "mm_lock self = Some y" by (cases "mm_lock self") (auto simp: lock_valid_def)
  with acquire_free [OF l, of t] that show ?thesis by blast
qed



section \<open>From the slave to the master\<close>

lemma request_id:
  assumes "modbus_consts_ok c" "slv_serving c s" "sl_mb_map s = Some regs" "regs ! mc_m2s_cmd c = mc_cmd_none c"
  shows "slv_request c rf post_rc u (\<lambda>r. r) s = Some s"
proof -
  have "mc_cmd_none c \<noteq> mc_cmd_put_blob c" "mc_cmd_none c \<noteq> mc_cmd_give_me_any_data c"
    using assms(1) by (simp_all add: modbus_consts_ok_def mc_codes_ok_def)
  moreover have "s\<lparr>sl_mb_map := Some regs\<rparr> = s" using assms(3) by (cases s) simp
  ultimately have "slv_process c rf post_rc (s\<lparr>sl_mb_map := Some regs\<rparr>) = Some s"
    using assms(3,4) by (simp add: slv_process_def slv_consume_put_blob_def)
  then show ?thesis
    using slv_request_serving [where f = "\<lambda>r. r" and rf = rf and post_rc = post_rc and t = u, OF assms(2,3)] by simp
qed

text \<open>The command of a poll moves the waiting message into the area the master reads.\<close>

lemma request_poll:
  assumes c: "modbus_consts_ok c" and s: "slv_serving c s"
    and tx: "sl_tx_pending s" "sl_tx_len s = int (length p)" "p \<noteq> []" "take (length p) (sl_tx_bytes s) = p"
    and p: "int (length p) \<le> sl_max_blob_bytes s"
  shows "\<exists>s' regs. slv_request c rf post_rc u (store_regs (mc_m2s_cmd c) [mc_cmd_give_me_any_data c, 0]) s = Some s' \<and>
    slv_serving c s' \<and> sl_mb_map s' = Some regs \<and> regs ! mc_m2s_cmd c = mc_cmd_none c \<and>
    take 2 (drop (mc_s2m_status c) regs) = [mc_status_has_data c, word_of_int (int (length p))] \<and>
    take (length (mc_pack c p)) (drop (mc_s2m_data c) regs) = mc_pack c p \<and>
    \<not> sl_tx_pending s' \<and> sl_rx_fifo s' = sl_rx_fifo s \<and> sl_max_blob_bytes s' = sl_max_blob_bytes s"
proof -
  have lay: "mc_m2s_len c = mc_m2s_cmd c + 1" "mc_m2s_data c = mc_m2s_cmd c + 2" "mc_s2m_len c = mc_s2m_status c + 1"
    "mc_m2s_data c + nat (mc_max_blob_regs c) \<le> mc_s2m_status c" "mc_s2m_status c + 2 \<le> mc_s2m_data c"
    using c by (simp_all add: modbus_consts_ok_def mc_layout_ok_def)
  have cmds: "mc_cmd_give_me_any_data c \<noteq> mc_cmd_put_blob c"
    using c by (auto simp: modbus_consts_ok_def mc_codes_ok_def)
  have mx: "sl_max_blob_bytes s \<le> mc_max_blob_bytes c" using s by (simp add: slv_serving_def)
  then have pm: "int (length p) \<le> mc_max_blob_bytes c" using p by simp
  note pk = blob_facts(2) [OF c pm]
  obtain regs where regs: "sl_mb_map s = Some regs" "length regs = required_registers c"
    using s by (auto simp: slv_serving_def)
  define r1 where "r1 = store_regs (mc_m2s_cmd c) [mc_cmd_give_me_any_data c, 0] regs"
  have len1: "length r1 = required_registers c" using lay regs(2) by (simp add: r1_def required_registers_def)
  have cmd1: "r1 ! mc_m2s_cmd c = mc_cmd_give_me_any_data c"
    unfolding r1_def using lay regs(2) by (subst nth_store_regs) (auto simp: required_registers_def)
  define r2 where "r2 = r1[mc_s2m_status c := mc_status_has_data c, mc_s2m_len c := word_of_int (int (length p))]"
  define r3 where "r3 = store_regs (mc_s2m_data c) (mc_pack c p) r2"
  have len2: "length r2 = required_registers c" using len1 by (simp add: r2_def)
  have fits: "mc_s2m_data c + length (mc_pack c p) < length r2" using pk by (simp add: len2 required_registers_def)
  have len3: "length r3 = required_registers c" using fits len2 by (simp add: r3_def)
  let ?s1 = "s\<lparr>sl_mb_map := Some r1\<rparr>"
  let ?s2 = "s\<lparr>sl_mb_map := Some (clear_command c r3), sl_tx_pending := False, sl_tx_len := 0\<rparr>"
  have "slv_clamp c ?s1 (int (length p)) = int (length p)" using p pm by (simp add: slv_clamp_def)
  then have "slv_prepare_poll_response c ?s1 = s\<lparr>sl_mb_map := Some r3, sl_tx_pending := False, sl_tx_len := 0\<rparr>"
    using tx by (simp add: slv_prepare_poll_response_def Let_def r3_def r2_def)
  then have "slv_process c rf post_rc ?s1 = Some ?s2"
    using cmds by (simp add: slv_process_def slv_consume_put_blob_def cmd1 Let_def)
  then have req: "slv_request c rf post_rc u (store_regs (mc_m2s_cmd c) [mc_cmd_give_me_any_data c, 0]) s = Some ?s2"
    by (intro slv_request_serving [OF s regs(1)]) (simp_all add: r1_def)
  note cl = clear_command_facts [OF c len3]
  have "drop (mc_s2m_data c) (clear_command c r3) = mc_pack c p @ drop (mc_s2m_data c + length (mc_pack c p)) r2"
    using fits lay by (simp add: clear_command_def r3_def drop_store_regs)
  moreover have "take 2 (drop (mc_s2m_status c) (clear_command c r3)) = [mc_status_has_data c, word_of_int (int (length p))]"
  proof (rule nth_equalityI)
    show "length (take 2 (drop (mc_s2m_status c) (clear_command c r3)))
        = length [mc_status_has_data c, word_of_int (int (length p)) :: u16]"
      using cl(2) lay by (simp add: required_registers_def)
  next
    fix i assume "i < length (take 2 (drop (mc_s2m_status c) (clear_command c r3)))"
    then have i: "i = 0 \<or> i = 1" by auto
    have b: "mc_s2m_status c + i < length r3" "mc_s2m_status c + i < length r2"
      using i lay len2 len3 by (auto simp: required_registers_def)
    have "take 2 (drop (mc_s2m_status c) (clear_command c r3)) ! i = clear_command c r3 ! (mc_s2m_status c + i)"
      using i b cl(2) len3 by auto
    also have "\<dots> = r3 ! (mc_s2m_status c + i)" using i lay by (intro cl(3)) auto
    also have "\<dots> = r2 ! (mc_s2m_status c + i)" unfolding r3_def using fits b lay i by (subst nth_store_regs) auto
    also have "\<dots> = [mc_status_has_data c, word_of_int (int (length p))] ! i"
      using i b lay by (auto simp: r2_def)
    finally show "take 2 (drop (mc_s2m_status c) (clear_command c r3)) ! i
        = [mc_status_has_data c, word_of_int (int (length p))] ! i" .
  qed
  ultimately show ?thesis
    using req s cl(1,2) by (intro exI [of _ ?s2] exI [of _ "clear_command c r3"]) (simp add: slv_serving_def)
qed


lemma poll_len_eq:
  assumes "0 \<le> n" "n \<le> m" "m \<le> 65535"
  shows "uint (poll_len m (word_of_int n)) = n"
proof -
  have "uint (word_of_int k :: u16) = k" if "0 \<le> k" "k \<le> 65535" for k
    using that by (simp add: unsigned_of_int take_bit_int_eq_self)
  with assms show ?thesis by (simp add: poll_len_def word_less_def)
qed

text \<open>A round of the master's task while the slave has a message: it takes it over.\<close>

lemma master_round_gets:
  assumes c: "modbus_consts_ok c" and rfm: "ringfifo_ok rfm" and bus: "bus_ok c rf post_rc u api"
    and m: "master_ready c self" and s: "slv_serving c s"
    and tx: "sl_tx_pending s" "sl_tx_len s = int (length p)" "p \<noteq> []" "take (length p) (sl_tx_bytes s) = p"
    and p: "int (length p) \<le> sl_max_blob_bytes s" "int (length p) \<le> mm_max_blob_bytes self"
  shows "\<exists>self' s' k. mm_rx_round (mtcp_poll c rfm api) c t self s = Some (RxGoOn, self', s') \<and>
    master_ready c self' \<and> mm_rx_tasker self' = mm_rx_tasker self \<and> mm_dead_slave_pending self' = mm_dead_slave_pending self \<and>
    mm_max_blob_bytes self' = mm_max_blob_bytes self \<and>
    slv_serving c s' \<and> \<not> sl_tx_pending s' \<and> sl_rx_fifo s' = sl_rx_fifo s \<and> sl_max_blob_bytes s' = sl_max_blob_bytes s \<and>
    k \<le> length p \<and> rf_items rfm (mm_rx_fifo self') = rf_items rfm (mm_rx_fifo self) @ take k p \<and>
    (mm_rx_overflow_pending self' \<longleftrightarrow> mm_rx_overflow_pending self \<or> k < length p) \<and>
    (length (rf_items rfm (mm_rx_fifo self)) + length p \<le> rf_capacity rfm (mm_rx_fifo self) \<longrightarrow> k = length p)"
proof -
  have mx: "0 < mm_max_blob_bytes self" "mm_max_blob_bytes self \<le> mc_max_blob_bytes c" using m by (simp_all add: master_ready_def)
  have pm: "int (length p) \<le> mc_max_blob_bytes c" using mx p(2) by simp
  have big: "mc_max_blob_bytes c \<le> 65535" using c by (simp add: modbus_consts_ok_def mc_blob_ok_def)
  note pk = blob_facts [OF c pm]
  from request_poll [OF c s tx p(1), of rf post_rc u] obtain s' regs
    where r: "slv_request c rf post_rc u (store_regs (mc_m2s_cmd c) [mc_cmd_give_me_any_data c, 0]) s = Some s'"
      and s': "slv_serving c s'" "sl_mb_map s' = Some regs" "regs ! mc_m2s_cmd c = mc_cmd_none c"
        "take 2 (drop (mc_s2m_status c) regs) = [mc_status_has_data c, word_of_int (int (length p))]"
        "take (length (mc_pack c p)) (drop (mc_s2m_data c) regs) = mc_pack c p"
        "\<not> sl_tx_pending s'" "sl_rx_fifo s' = sl_rx_fifo s" "sl_max_blob_bytes s' = sl_max_blob_bytes s"
    by (elim exE conjE) blast
  note id = request_id [OF c s'(1-3), of rf post_rc u]
  have wr: "ma_write_registers api (mc_m2s_cmd c) [mc_cmd_give_me_any_data c, 0] s = (2, s')"
    using bus_write [OF bus _ r] by simp
  define v where "v = (word_of_int (int (length p)) :: u16)"
  have hdr: "ma_read_registers api (mc_s2m_status c) 2 s' = (2, [mc_status_has_data c, v], s')"
    using bus_read [OF bus _ s'(2) id, of 2 "mc_s2m_status c"] s'(4) by (simp add: v_def)
  have pos: "0 < int (length (mc_pack c p))" using pk(5) tx(3) by simp
  have dat: "ma_read_registers api (mc_s2m_data c) (int (length (mc_pack c p))) s' = (int (length (mc_pack c p)), mc_pack c p, s')"
    using bus_read [OF bus pos s'(2) id, of "mc_s2m_data c"] s'(5) by simp
  have mb: "mm_max_blob c self = mm_max_blob_bytes self" using mx by (simp add: mm_max_blob_def)
  have len: "uint (poll_len (mm_max_blob_bytes self) v) = int (length p)"
    unfolding v_def using p(2) mx big by (intro poll_len_eq) simp_all
  have nz: "0 < v"
  proof -
    have "uint (word_of_int (int (length p)) :: u16) = int (length p)"
      using pm big by (simp add: unsigned_of_nat take_bit_nat_eq_self)
    with tx(3) show ?thesis by (simp add: word_less_def v_def)
  qed
  obtain k f' where push: "rf_push rfm (mm_rx_fifo self) p = (int k, f')" "k \<le> length p"
      "rf_items rfm f' = rf_items rfm (mm_rx_fifo self) @ take k p" "rf_capacity rfm f' = rf_capacity rfm (mm_rx_fifo self)"
      "length (rf_items rfm (mm_rx_fifo self)) + length p \<le> rf_capacity rfm (mm_rx_fifo self) \<Longrightarrow> k = length p"
    using push_cases [OF rfm] by blast
  define self' where "self' = self\<lparr>mm_rx_fifo := f', mm_rx_overflow_pending := (k < length p \<or> mm_rx_overflow_pending self)\<rparr>"
  have store: "mm_store c rfm (mc_pack c p) (int (length p)) (self\<lparr>mm_lock := l\<rparr>) = (int k, self'\<lparr>mm_lock := l\<rparr>)" for l
    using push(1,2) pk(4) by (cases self; simp add: mm_store_def self'_def)
  have poll: "mtcp_poll c rfm api (mm_max_blob_bytes self) (self\<lparr>mm_lock := l\<rparr>) s = (None, (), self'\<lparr>mm_lock := l\<rparr>, s')" for l
    using pk(1,2) by (simp add: mtcp_poll_def wr hdr dat len nz store Let_def)
  have lock: "lock_valid (mm_lock self)" "lock_holder (mm_lock self) = None" using m by (simp_all add: master_ready_def)
  have "mm_locked t (True, False, 0)
      (\<lambda>x w. (None, (mm_stop_requested x, mm_enabled x \<and> mm_mb x, mm_max_blob c x), x, w)) self s
      = Some (None, (False, True, mm_max_blob_bytes self), self, s)"
    by (rule mm_locked_free [OF lock]) (use m mb in \<open>simp_all add: master_ready_def mm_max_blob_def\<close>)
  moreover have "mm_locked t () (mtcp_poll c rfm api (mm_max_blob_bytes self)) self s = Some (None, (), self', s')"
    by (rule mm_locked_free [OF lock], rule poll) (simp add: self'_def)
  ultimately have "mm_rx_round (mtcp_poll c rfm api) c t self s = Some (RxGoOn, self', s')"
    by (simp add: mm_rx_round_def)
  moreover have "master_ready c self'" using m by (simp add: master_ready_def self'_def)
  ultimately show ?thesis
    using s' push(2-5) by (intro exI [of _ self'] exI [of _ s'] exI [of _ k]) (auto simp: self'_def)
qed


section \<open>The bus as a byte stream\<close>

record ('m, 'f) bus_env =
  be_consts :: modbus_consts
  be_master_fifo :: "'m ringfifo"
  be_slave_fifo :: "'f ringfifo"
  be_post :: "errno option"
  be_slave_thread :: thread
  be_master_thread :: thread
  be_api :: "'f dtiox_linux_modbus_tcp_slave_t modbus_api"

definition bus_good :: "modbus_consts \<Rightarrow> ('m, 'f) bus_env \<Rightarrow> bool" where
  "bus_good c env \<longleftrightarrow> be_consts env = c \<and> modbus_consts_ok c \<and> ringfifo_ok (be_master_fifo env) \<and>
     bus_ok c (be_slave_fifo env) (be_post env) (be_slave_thread env) (be_api env)"

type_synonym ('m, 'f) bus_state = "'m dtiox_linux_modbus_tcp_master_t \<times> 'f dtiox_linux_modbus_tcp_slave_t"

definition bus_live :: "int \<Rightarrow> modbus_consts \<Rightarrow> ('m, 'f) bus_state \<Rightarrow> bool" where
  "bus_live m c st \<longleftrightarrow> master_ready c (fst st) \<and> mm_max_blob_bytes (fst st) = m \<and>
     \<not> mm_dead_slave_pending (fst st) \<and> mm_verify_rxtask_running (fst st) None = None \<and>
     slv_serving c (snd st) \<and> \<not> sl_tx_pending (snd st) \<and> m \<le> sl_max_blob_bytes (snd st)"

text \<open>A message arrives: the slave's caller writes it, and the master's task makes its next round.\<close>

definition bus_arrive :: "('m, 'f) bus_env \<Rightarrow> byte list \<Rightarrow> ('m, 'f) bus_state \<Rightarrow> ('m, 'f) bus_state" where
  "bus_arrive env d st =
     (case slv_write (be_slave_thread env) d (int (length d)) (snd st) of
        Some (None, _, s1) \<Rightarrow>
          (case mm_rx_round (mtcp_poll (be_consts env) (be_master_fifo env) (be_api env)) (be_consts env)
                  (be_master_thread env) (fst st) s1 of
             None \<Rightarrow> st
           | Some (_, self', s') \<Rightarrow> (self', s'))
      | _ \<Rightarrow> st)"

definition bus_take :: "('m, 'f) bus_env \<Rightarrow> nat \<Rightarrow> ('m, 'f) bus_state \<Rightarrow> dterr \<times> byte list \<times> ('m, 'f) bus_state" where
  "bus_take env n st =
     (case mm_read (be_master_fifo env) (be_master_thread env) (int n) (fst st) of
        None \<Rightarrow> (Some DTERR_STATE, [], st)
      | Some (e, d, self') \<Rightarrow> (e, case d of None \<Rightarrow> [] | Some b \<Rightarrow> b, (self', snd st)))"

definition bus_pending :: "('m, 'f) bus_env \<Rightarrow> ('m, 'f) bus_state \<Rightarrow> byte list" where
  "bus_pending env st = rf_items (be_master_fifo env) (mm_rx_fifo (fst st))"

definition bus_overflowed :: "('m, 'f) bus_state \<Rightarrow> bool" where
  "bus_overflowed st = mm_rx_overflow_pending (fst st)"

lemma mm_read_ready:
  assumes "master_ready c self" "\<not> mm_dead_slave_pending self" "0 \<le> n"
    and "mm_verify_rxtask_running self None = None"
  shows "mm_read rf t n self = Some (
     if mm_rx_overflow_pending self then (Some DTERR_OVERFLOW, None, self\<lparr>mm_rx_overflow_pending := False\<rparr>)
     else (None, Some (fst (rf_pop rf (mm_rx_fifo self) n)), self\<lparr>mm_rx_fifo := snd (rf_pop rf (mm_rx_fifo self) n)\<rparr>))"
proof -
  obtain l1 y where l1: "dtlock_acquire t (mm_lock self) = Some (None, l1)"
      "dtlock_release t l1 = Some (None, mm_lock self)" "mm_lock self = Some y"
    using master_lock [OF assms(1)] by blast
  have v: "mm_verify_rxtask_running (self\<lparr>mm_rx_overflow_pending := False, mm_lock := l\<rparr>) e = (if e \<noteq> None then e else None)"
    "mm_verify_rxtask_running (self\<lparr>mm_rx_fifo := f, mm_lock := l\<rparr>) e = (if e \<noteq> None then e else None)" for l f e
    using assms(4) by (simp_all add: mm_verify_rxtask_running_def)
  show ?thesis
  proof (cases "mm_rx_overflow_pending self")
    case True
    with l1 v assms(1-3) show ?thesis
      by (simp add: mm_read_def mm_read_locked_def mm_release_lock_def master_ready_def)
  next
    case False
    obtain d f where "rf_pop rf (mm_rx_fifo self) n = (d, f)" by (cases "rf_pop rf (mm_rx_fifo self) n")
    with False l1 v assms(1-3) show ?thesis
      by (simp add: mm_read_def mm_read_locked_def mm_release_lock_def master_ready_def)
  qed
qed

lemma bus_arrive_live:
  assumes env: "bus_good c env" and live: "bus_live m c st" and d: "d \<noteq> []" "int (length d) \<le> m"
  shows "\<exists>k. bus_live m c (bus_arrive env d st) \<and> k \<le> length d \<and>
     bus_pending env (bus_arrive env d st) = bus_pending env st @ take k d \<and>
     (bus_overflowed (bus_arrive env d st) \<longleftrightarrow> bus_overflowed st \<or> k < length d)"
proof -
  obtain self s where st: "st = (self, s)" by (cases st)
  have c: "modbus_consts_ok c" and rf: "ringfifo_ok (be_master_fifo env)" and be: "be_consts env = c"
    and bus: "bus_ok c (be_slave_fifo env) (be_post env) (be_slave_thread env) (be_api env)"
    using env by (simp_all add: bus_good_def)
  have m: "master_ready c self" "mm_max_blob_bytes self = m" "\<not> mm_dead_slave_pending self"
      "mm_verify_rxtask_running self None = None"
    and s: "slv_serving c s" "\<not> sl_tx_pending s" "m \<le> sl_max_blob_bytes s"
    using live by (simp_all add: bus_live_def st)
  let ?s1 = "s\<lparr>sl_tx_bytes := d @ drop (length d) (sl_tx_bytes s), sl_tx_len := int (length d), sl_tx_pending := True\<rparr>"
  have en: "sl_enabled s" using s(1) by (simp add: slv_serving_def)
  have w: "slv_write (be_slave_thread env) d (int (length d)) s = Some (None, Some (int (length d)), ?s1)"
    using slv_write_locked [OF serving_lock [OF s(1)] _ _ en, of "int (length d)" "be_slave_thread env" d] d(2) s(2,3) by simp
  have s1: "slv_serving c ?s1" using s(1) by (simp add: slv_serving_def)
  have p: "int (length d) \<le> sl_max_blob_bytes ?s1" "int (length d) \<le> mm_max_blob_bytes self" using d(2) m(2) s(3) by simp_all
  have tx: "sl_tx_pending ?s1" "sl_tx_len ?s1 = int (length d)" "take (length d) (sl_tx_bytes ?s1) = d" by simp_all
  from master_round_gets [OF c rf bus m(1) s1 tx(1,2) d(1) tx(3) p, of "be_master_thread env"] obtain self' s' k
    where r: "mm_rx_round (mtcp_poll c (be_master_fifo env) (be_api env)) c (be_master_thread env) self ?s1
                = Some (RxGoOn, self', s')"
      and f: "master_ready c self'" "mm_rx_tasker self' = mm_rx_tasker self" "mm_dead_slave_pending self' = mm_dead_slave_pending self"
        "mm_max_blob_bytes self' = mm_max_blob_bytes self" "slv_serving c s'" "\<not> sl_tx_pending s'"
        "sl_max_blob_bytes s' = sl_max_blob_bytes ?s1" "k \<le> length d"
        "rf_items (be_master_fifo env) (mm_rx_fifo self') = rf_items (be_master_fifo env) (mm_rx_fifo self) @ take k d"
        "mm_rx_overflow_pending self' \<longleftrightarrow> mm_rx_overflow_pending self \<or> k < length d"
    by (elim exE conjE) blast
  have "bus_arrive env d st = (self', s')" using w r by (simp add: bus_arrive_def st be)
  moreover have "mm_verify_rxtask_running self' None = None" using m(4) f(2) by (simp add: mm_verify_rxtask_running_def)
  ultimately show ?thesis using f m s(3)
    by (intro exI [of _ k]) (simp add: bus_live_def bus_pending_def bus_overflowed_def st)
qed


interpretation bus_rx: rx_stream "bus_good c" "bus_live m c" "\<lambda>d. d \<noteq> [] \<and> int (length d) \<le> m"
  bus_pending bus_overflowed bus_arrive bus_take for c :: modbus_consts and m :: int
proof
  fix env :: "('m, 'f) bus_env" and st :: "('m, 'f) bus_state" and d :: "byte list" and n :: nat
  assume env: "bus_good c env" and live: "bus_live m c st"
  have rf: "ringfifo_ok (be_master_fifo env)" using env by (simp add: bus_good_def)
  obtain self s where st: "st = (self, s)" by (cases st)
  have m: "master_ready c self" "\<not> mm_dead_slave_pending self" "mm_verify_rxtask_running self None = None"
    using live by (simp_all add: bus_live_def st)
  note rd = mm_read_ready [OF m(1,2) _ m(3), of "int n" "be_master_fifo env" "be_master_thread env"]
  {
    assume "d \<noteq> [] \<and> int (length d) \<le> m"
    with bus_arrive_live [OF env live]
    show "bus_live m c (bus_arrive env d st) \<and> (\<exists>k\<le>length d.
        bus_pending env (bus_arrive env d st) = bus_pending env st @ take k d \<and>
        bus_overflowed (bus_arrive env d st) = (bus_overflowed st \<or> k < length d))" by blast
  next
    assume "bus_overflowed st"
    with rd have "bus_take env n st = (Some DTERR_OVERFLOW, [], (self\<lparr>mm_rx_overflow_pending := False\<rparr>, s))"
      by (simp add: bus_take_def bus_overflowed_def st)
    moreover have "bus_live m c (self\<lparr>mm_rx_overflow_pending := False\<rparr>, s)"
      using live by (simp add: bus_live_def master_ready_def mm_verify_rxtask_running_def st)
    ultimately show "\<exists>st'. bus_take env n st = (Some DTERR_OVERFLOW, [], st') \<and> bus_live m c st' \<and>
        \<not> bus_overflowed st' \<and> bus_pending env st' = bus_pending env st"
      by (simp add: bus_overflowed_def bus_pending_def st)
  next
    assume o: "\<not> bus_overflowed st"
    obtain f' where f': "rf_pop (be_master_fifo env) (mm_rx_fifo self) (int n)
          = (take n (rf_items (be_master_fifo env) (mm_rx_fifo self)), f')"
        "rf_items (be_master_fifo env) f' = drop n (rf_items (be_master_fifo env) (mm_rx_fifo self))"
      using pop_cases [OF rf, of "int n" "mm_rx_fifo self"] by auto
    from rd o f'(1) have "bus_take env n st = (None, take n (bus_pending env st), (self\<lparr>mm_rx_fifo := f'\<rparr>, s))"
      by (simp add: bus_take_def bus_overflowed_def bus_pending_def st)
    moreover have "bus_live m c (self\<lparr>mm_rx_fifo := f'\<rparr>, s)"
      using live by (simp add: bus_live_def master_ready_def mm_verify_rxtask_running_def st)
    ultimately show "\<exists>st'. bus_take env n st = (None, take n (bus_pending env st), st') \<and> bus_live m c st' \<and>
        \<not> bus_overflowed st' \<and> bus_pending env st' = drop n (bus_pending env st)"
      using o f'(2) by (simp add: bus_overflowed_def bus_pending_def st)
  }
qed


section \<open>Witnesses\<close>

definition sample_bus :: "(byte list \<times> nat, byte list \<times> nat) bus_env" where
  "sample_bus = \<lparr>be_consts = byte_consts, be_master_fifo = list_fifo, be_slave_fifo = list_fifo, be_post = None,
     be_slave_thread = 1, be_master_thread = 2, be_api = direct_bus byte_consts list_fifo None 1\<rparr>"

lemma sample_bus_good: "bus_good byte_consts sample_bus"
  by (simp add: bus_good_def sample_bus_def byte_consts_ok list_fifo_ok direct_bus_ok)

lemma sample_master_ready: "master_ready byte_consts (idle_tcp_master True)"
  by (simp add: master_ready_def idle_lock) (simp add: idle_tcp_master_def idle_defs byte_consts_def)

lemma sample_bus_live: "bus_live 4 byte_consts (idle_tcp_master True, sample_slave)"
proof -
  have "mm_verify_rxtask_running (idle_tcp_master True) None = None"
    by (simp add: mm_verify_rxtask_running_def get_info_handle_def idle_tcp_master_def idle_defs running_tasker_def
        dttasker_get_info_def)
  then show ?thesis
    by (simp add: bus_live_def sample_serving sample_slave_fields sample_master_ready)
       (simp add: idle_tcp_master_def idle_defs)
qed



end
