(* ===== verification/Mosquitto.thy ===== *)
theory Mosquitto
  imports Semaphore Cstring
begin

text \<open>
  \<open>dtmc_linux_library/src/dtnetportal_mosquitto.c\<close>: publish and subscribe over an MQTT broker. The
  callbacks of libmosquitto run in its own thread; while an operation of the portal waits, what
  they do is a list of events, so that every interleaving is a choice of events. The fan-out to
  the local recipients is the manifold of dtmc_base, a parameter.
\<close>

section \<open>Parameters\<close>

text \<open>
  \<open>mf_count\<close> is \<open>dtmanifold_subject_recipient_count\<close>; \<open>mf_foreach\<close> is what
  \<open>dtmanifold_foreach_topic\<close> visits, the topics with their numbers of recipients.
\<close>

record 'm manifold =
  mf_init :: "dterr \<times> 'm"
  mf_set_semaphore :: "'m \<Rightarrow> dterr \<times> 'm"
  mf_subscribe :: "string \<Rightarrow> 'm \<Rightarrow> dterr \<times> 'm"
  mf_count :: "string \<Rightarrow> 'm \<Rightarrow> errcode + int"
  mf_publish :: "string \<Rightarrow> byte list \<Rightarrow> 'm \<Rightarrow> dterr \<times> 'm"
  mf_foreach :: "'m \<Rightarrow> (string \<times> int) list"

section \<open>The object\<close>

record mosquitto_config =
  mc_host :: "string option"
  mc_port :: int
  mc_keepalive :: int
  mc_client_id :: "string option"
  mc_username :: "string option"
  mc_password :: "string option"
  mc_clean_start :: bool
  mc_use_tls :: bool
  mc_tls_ca_file :: "string option"
  mc_tls_certfile :: "string option"
  mc_tls_keyfile :: "string option"

record 'm dtnetportal_mosquitto_t =
  mq_model_number :: int
  mq_config :: mosquitto_config
  mq_client_id :: string
  mq_manifold_semaphore :: "dtsemaphore_linux_t option"
  mq_manifold :: 'm
  mq_mqt :: bool
  mq_connected :: bool
  mq_suback_mid_waiting :: int
  mq_suback_result :: int
  mq_is_malloced :: bool

definition mq_zero :: "'m \<Rightarrow> int \<Rightarrow> 'm dtnetportal_mosquitto_t" where
  "mq_zero m model = \<lparr>mq_model_number = model,
     mq_config = \<lparr>mc_host = None, mc_port = 0, mc_keepalive = 0, mc_client_id = None, mc_username = None,
                  mc_password = None, mc_clean_start = False, mc_use_tls = False,
                  mc_tls_ca_file = None, mc_tls_certfile = None, mc_tls_keyfile = None\<rparr>,
     mq_client_id = [], mq_manifold_semaphore = None, mq_manifold = m, mq_mqt = False, mq_connected = False,
     mq_suback_mid_waiting = 0, mq_suback_result = 0, mq_is_malloced = False\<rparr>"

text \<open>The registrations of the two vtables are \<open>reg1\<close> and \<open>reg2\<close>, \<open>m0\<close> the zeroed manifold.\<close>

definition mq_init ::
  "'m manifold \<Rightarrow> 'm \<Rightarrow> sem_env \<Rightarrow> int \<Rightarrow> dterr \<Rightarrow> dterr \<Rightarrow> dterr \<times> 'm dtnetportal_mosquitto_t" where
  "mq_init mf m0 sem model reg1 reg2 =
     (let self = mq_zero m0 model in
      if reg1 \<noteq> None then (reg1, self)
      else if reg2 \<noteq> None then (reg2, self)
      else (case mf_init mf of
              (Some e, m) \<Rightarrow> (Some e, self\<lparr>mq_manifold := m\<rparr>)
            | (None, m) \<Rightarrow>
                (case dtsemaphore_create sem 1 1 of
                   (Some e, _) \<Rightarrow> (Some e, self\<lparr>mq_manifold := m\<rparr>)
                 | (None, h) \<Rightarrow>
                     (case mf_set_semaphore mf m of
                        (e, m') \<Rightarrow>
                          let self1 = self\<lparr>mq_manifold := m', mq_manifold_semaphore := h\<rparr> in
                          if e \<noteq> None then (e, self1)
                          else (None, self1\<lparr>mq_suback_mid_waiting := -1, mq_suback_result := -1\<rparr>)))))"

text \<open>
  \<open>create\<close>: the error and what the caller's pointer refers to. \<open>Some None\<close>: memory that has been
  freed, to which the pointer still points.
\<close>

definition mq_create ::
  "bool \<Rightarrow> 'm manifold \<Rightarrow> 'm \<Rightarrow> sem_env \<Rightarrow> int \<Rightarrow> dterr \<Rightarrow> dterr
     \<Rightarrow> dterr \<times> 'm dtnetportal_mosquitto_t option option" where
  "mq_create malloc_ok mf m0 sem model reg1 reg2 =
     (if \<not> malloc_ok then (Some DTERR_NOMEM, None)
      else (case mq_init mf m0 sem model reg1 reg2 of
              (Some e, _) \<Rightarrow> (Some e, Some None)
            | (None, self) \<Rightarrow> (None, Some (Some (self\<lparr>mq_is_malloced := True\<rparr>)))))"

text \<open>\<open>guid\<close>: the text of a new guid.\<close>

definition mq_configure ::
  "string \<Rightarrow> 'm dtnetportal_mosquitto_t \<Rightarrow> mosquitto_config option \<Rightarrow> dterr \<times> 'm dtnetportal_mosquitto_t" where
  "mq_configure guid self config =
     (case config of
        None \<Rightarrow> (Some DTERR_BADARG, self)
      | Some cfg \<Rightarrow>
          if mc_host cfg = None then (Some DTERR_BADARG, self)
          else
            let cfg1 = (if mc_port cfg \<le> 0 then cfg\<lparr>mc_port := 1883\<rparr> else cfg) in
            if mc_client_id cfg1 = None
            then (None, self\<lparr>mq_config := cfg1\<lparr>mc_client_id := Some guid\<rparr>, mq_client_id := guid\<rparr>)
            else (None, self\<lparr>mq_config := cfg1\<rparr>))"

section \<open>The callbacks\<close>

text \<open>
  What the thread of libmosquitto calls. \<open>granted\<close> is \<open>None\<close> for a NULL array. Messages and the
  log callback change nothing an operation waits for.
\<close>

datatype mq_event = OnConnect int | OnDisconnect | OnSubscribe int "int list option"

text \<open>The topics that are subscribed again: those with recipients, whatever the broker answers.\<close>

definition resubscribe_iter :: "string \<times> int \<Rightarrow> string list" where
  "resubscribe_iter t = (if snd t \<le> 0 then [] else [fst t])"

definition mq_on_connect :: "'m manifold \<Rightarrow> int \<Rightarrow> 'm dtnetportal_mosquitto_t \<Rightarrow> 'm dtnetportal_mosquitto_t \<times> string list" where
  "mq_on_connect mf rc self =
     (self\<lparr>mq_connected := (rc = 0)\<rparr>,
      if rc = 0 then concat (map resubscribe_iter (mf_foreach mf (mq_manifold self))) else [])"

definition suback_ok :: "int list option \<Rightarrow> bool" where
  "suback_ok granted =
     (case granted of
        None \<Rightarrow> False
      | Some qs \<Rightarrow> qs \<noteq> [] \<and> list_all (\<lambda>q. \<not> (q < 0 \<or> q = 128)) qs)"

definition mq_on_subscribe :: "int \<Rightarrow> int list option \<Rightarrow> 'm dtnetportal_mosquitto_t \<Rightarrow> 'm dtnetportal_mosquitto_t" where
  "mq_on_subscribe mid granted self =
     (if mq_suback_mid_waiting self = mid
      then self\<lparr>mq_suback_result := (if suback_ok granted then 0 else 1)\<rparr> else self)"

definition mq_on_disconnect :: "'m dtnetportal_mosquitto_t \<Rightarrow> 'm dtnetportal_mosquitto_t" where
  "mq_on_disconnect self = self\<lparr>mq_connected := False\<rparr>"

text \<open>
  The object and the topics asked of the broker since the connection was made. A new connection
  starts from nothing, as with a clean session.
\<close>

type_synonym 'm mq_state = "'m dtnetportal_mosquitto_t \<times> string list"

definition mq_handle :: "'m manifold \<Rightarrow> mq_event \<Rightarrow> 'm mq_state \<Rightarrow> 'm mq_state" where
  "mq_handle mf ev st =
     (case ev of
        OnConnect rc \<Rightarrow> (case mq_on_connect mf rc (fst st) of (s, topics) \<Rightarrow> (s, if rc = 0 then topics else snd st))
      | OnDisconnect \<Rightarrow> (mq_on_disconnect (fst st), snd st)
      | OnSubscribe mid granted \<Rightarrow> (mq_on_subscribe mid granted (fst st), snd st))"

definition mq_handle_all :: "'m manifold \<Rightarrow> mq_event list \<Rightarrow> 'm mq_state \<Rightarrow> 'm mq_state" where
  "mq_handle_all mf evs st = fold (mq_handle mf) evs st"

text \<open>
  \<open>on_message\<close>: the error it logs, and the manifold. \<open>buf\<close> is the answer of \<open>dtbuffer_create\<close>.
\<close>

definition mq_on_message ::
  "'m manifold \<Rightarrow> dterr \<Rightarrow> string option \<Rightarrow> byte list \<Rightarrow> 'm dtnetportal_mosquitto_t \<Rightarrow> dterr \<times> 'm dtnetportal_mosquitto_t" where
  "mq_on_message mf buf topic payload self =
     (case topic of
        None \<Rightarrow> (Some DTERR_BADARG, self)
      | Some t \<Rightarrow>
          if buf \<noteq> None then (buf, self)
          else (case mf_publish mf t payload (mq_manifold self) of (e, m) \<Rightarrow> (e, self\<lparr>mq_manifold := m\<rparr>)))"

section \<open>Waiting\<close>

text \<open>\<open>add_ms_to_timespec\<close>, for \<open>ms \<ge> 0\<close>, over seconds and nanoseconds.\<close>

definition mq_add_ms :: "int \<times> int \<Rightarrow> int \<Rightarrow> int \<times> int" where
  "mq_add_ms ts ms =
     (let nsec = snd ts + (ms smod 1000) * 1000000 in
      if 1000000000 \<le> nsec then (fst ts + ms sdiv 1000 + 1, nsec - 1000000000)
      else (fst ts + ms sdiv 1000, nsec))"

text \<open>
  A wait: the events while \<open>pthread_cond_timedwait\<close> runs, and whether it answers ETIMEDOUT. A loop
  whose waits run out is still asleep: \<open>None\<close>.
\<close>

type_synonym mq_wait = "mq_event list \<times> bool"

datatype mq_rc = RcOk | RcTimedOut | RcNotConn | RcIo

fun conn_wait :: "'m manifold \<Rightarrow> mq_wait list \<Rightarrow> 'm mq_state \<Rightarrow> (bool \<times> 'm mq_state) option" where
  "conn_wait mf [] st = (if mq_connected (fst st) then Some (False, st) else None)"
| "conn_wait mf ((evs, timed_out) # ws) st =
     (if mq_connected (fst st) then Some (False, st)
      else let st' = mq_handle_all mf evs st in
           if timed_out then Some (True, st') else conn_wait mf ws st')"

definition wait_for_connected :: "'m manifold \<Rightarrow> mq_wait list \<Rightarrow> 'm mq_state \<Rightarrow> (mq_rc \<times> 'm mq_state) option" where
  "wait_for_connected mf ws st =
     map_option
       (\<lambda>(timed_out, st'). (if timed_out then RcTimedOut
                             else if \<not> mq_connected (fst st') then RcNotConn else RcOk, st'))
       (conn_wait mf ws st)"

fun suback_wait :: "'m manifold \<Rightarrow> mq_wait list \<Rightarrow> 'm mq_state \<Rightarrow> (bool \<times> 'm mq_state) option" where
  "suback_wait mf [] st =
     (if mq_suback_result (fst st) = -1 \<and> mq_connected (fst st) then None else Some (False, st))"
| "suback_wait mf ((evs, timed_out) # ws) st =
     (if mq_suback_result (fst st) = -1 \<and> mq_connected (fst st)
      then let st' = mq_handle_all mf evs st in
           if timed_out then Some (True, st') else suback_wait mf ws st'
      else Some (False, st))"

definition wait_for_suback :: "'m manifold \<Rightarrow> int \<Rightarrow> mq_wait list \<Rightarrow> 'm mq_state \<Rightarrow> (mq_rc \<times> 'm mq_state) option" where
  "wait_for_suback mf mid ws st =
     map_option
       (\<lambda>(timed_out, st').
          let self = fst st';
              rc = (if mq_suback_result self = 0 then RcOk
                    else if 0 < mq_suback_result self then RcIo
                    else if \<not> mq_connected self then RcNotConn
                    else if timed_out then RcTimedOut else RcOk)
          in (rc, self\<lparr>mq_suback_mid_waiting := -1\<rparr>, snd st'))
       (suback_wait mf ws ((fst st)\<lparr>mq_suback_mid_waiting := mid, mq_suback_result := -1\<rparr>, snd st))"

section \<open>The operations\<close>

text \<open>
  What libmosquitto answers to \<open>activate\<close>. The arguments of the calls that only pass on the
  configuration are left out; the clean session flag is the result of the first one.
\<close>

record activate_env =
  ae_new :: bool
  ae_username_pw_set :: bool
  ae_tls_set :: bool
  ae_tls_insecure_set :: bool
  ae_connect :: bool
  ae_loop_start :: bool

definition mq_clean :: "'m dtnetportal_mosquitto_t \<Rightarrow> bool" where
  "mq_clean self \<longleftrightarrow> mc_client_id (mq_config self) = None \<or> mc_clean_start (mq_config self)"

text \<open>
  The calls behind \<open>mosquitto_new\<close> up to \<open>mosquitto_loop_start\<close>: whether one fails.
\<close>

definition mq_setup_fails :: "activate_env \<Rightarrow> mosquitto_config \<Rightarrow> bool" where
  "mq_setup_fails env cfg \<longleftrightarrow>
     (mc_username cfg \<noteq> None \<and> mc_password cfg \<noteq> None \<and> \<not> ae_username_pw_set env) \<or>
     (mc_use_tls cfg \<and> \<not> (ae_tls_set env \<and> ae_tls_insecure_set env)) \<or>
     \<not> ae_connect env \<or> \<not> ae_loop_start env"

text \<open>\<open>early\<close>: the events before the wait. An error destroys the client.\<close>

definition mq_activate ::
  "'m manifold \<Rightarrow> activate_env \<Rightarrow> mq_event list \<Rightarrow> mq_wait list \<Rightarrow> 'm mq_state \<Rightarrow> (dterr \<times> 'm mq_state) option" where
  "mq_activate mf env early ws st =
     (let fail = (\<lambda>e (s, subs). (Some e, s\<lparr>mq_mqt := False\<rparr>, subs)) in
      if \<not> ae_new env then Some (fail DTERR_NOMEM st)
      else
        let st1 = ((fst st)\<lparr>mq_mqt := True\<rparr>, snd st) in
        if mq_setup_fails env (mq_config (fst st)) then Some (fail DTERR_IO st1)
        else map_option
               (\<lambda>(rc, st2). if rc \<noteq> RcOk then fail DTERR_TIMEOUT st2 else (None, st2))
               (wait_for_connected mf ws (mq_handle_all mf early st1)))"

text \<open>
  \<open>answer\<close> is what \<open>mosquitto_subscribe\<close> gives, the message id when it succeeds; \<open>early\<close> are the
  events between it and the start of the wait for the SUBACK.
\<close>

definition mq_subscribe ::
  "'m manifold \<Rightarrow> int option \<Rightarrow> mq_event list \<Rightarrow> mq_wait list \<Rightarrow> string \<Rightarrow> 'm mq_state \<Rightarrow> (dterr \<times> 'm mq_state) option" where
  "mq_subscribe mf answer early ws topic st =
     (case mf_subscribe mf topic (mq_manifold (fst st)) of
        (e, m) \<Rightarrow>
          let self = (fst st)\<lparr>mq_manifold := m\<rparr> in
          if e \<noteq> None then Some (e, self, snd st)
          else (case mf_count mf topic m of
                  Inl e \<Rightarrow> Some (Some e, self, snd st)
                | Inr rcnt \<Rightarrow>
                    if rcnt = 1 \<and> mq_mqt self \<and> mq_connected self
                    then (case answer of
                            None \<Rightarrow> Some (Some DTERR_IO, self, snd st)
                          | Some mid \<Rightarrow>
                              map_option
                                (\<lambda>(rc, st2). (case rc of RcTimedOut \<Rightarrow> Some DTERR_TIMEOUT | RcIo \<Rightarrow> Some DTERR_IO
                                                | RcNotConn \<Rightarrow> Some DTERR_STATE | RcOk \<Rightarrow> None, st2))
                                (wait_for_suback mf mid ws (mq_handle_all mf early (self, snd st @ [topic]))))
                    else Some (None, self, snd st)))"

text \<open>\<open>ok\<close>: the answer of \<open>mosquitto_publish\<close>. The messages given to the broker.\<close>

definition mq_publish :: "bool \<Rightarrow> 'm dtnetportal_mosquitto_t \<Rightarrow> string \<Rightarrow> byte list \<Rightarrow> dterr \<times> (string \<times> byte list) list" where
  "mq_publish ok self topic payload =
     (if \<not> mq_mqt self then (Some DTERR_STATE, [])
      else if \<not> ok then (Some DTERR_IO, [])
      else (None, [(topic, payload)]))"

text \<open>The text of the origin, in a field of \<open>n\<close> bytes.\<close>

definition mq_get_info :: "nat \<Rightarrow> 'm dtnetportal_mosquitto_t \<Rightarrow> bool \<Rightarrow> dterr \<times> string option" where
  "mq_get_info n self has_info =
     (if \<not> has_info then (Some DTERR_BADARG, None)
      else (None, Some (fit n (''mqtt://['' @ show_text (mc_host (mq_config self)) @ '']:'' @
                               show_int (mc_port (mq_config self))))))"

definition mq_dispose :: "'m \<Rightarrow> 'm dtnetportal_mosquitto_t option \<Rightarrow> 'm dtnetportal_mosquitto_t option" where
  "mq_dispose m0 self =
     (case self of
        None \<Rightarrow> None
      | Some s \<Rightarrow> if mq_is_malloced s then None else Some (mq_zero m0 0))"

definition mq_equals :: "'m dtnetportal_mosquitto_t option \<Rightarrow> 'm dtnetportal_mosquitto_t option \<Rightarrow> bool" where
  "mq_equals a b = (case (a, b) of (Some x, Some y) \<Rightarrow> mq_model_number x = mq_model_number y | _ \<Rightarrow> False)"


section \<open>The manifold\<close>

text \<open>What the portal relies on: a subscription adds one recipient to its topic and none to the
  others, the topics with recipients are visited, a publication adds none.\<close>

definition counts_ok :: "'m manifold \<Rightarrow> bool" where
  "counts_ok mf \<longleftrightarrow> (\<forall>t m. \<exists>n\<ge>0. mf_count mf t m = Inr n)"

definition subscribe_ok :: "'m manifold \<Rightarrow> bool" where
  "subscribe_ok mf \<longleftrightarrow>
     (\<forall>t m m'. mf_subscribe mf t m = (None, m') \<longrightarrow>
        (\<forall>n. mf_count mf t m = Inr n \<longrightarrow> mf_count mf t m' = Inr (n + 1)) \<and>
        (\<forall>t'. t' \<noteq> t \<longrightarrow> mf_count mf t' m' = mf_count mf t' m))"

definition foreach_ok :: "'m manifold \<Rightarrow> bool" where
  "foreach_ok mf \<longleftrightarrow> (\<forall>t m n. mf_count mf t m = Inr n \<longrightarrow> 0 < n \<longrightarrow> (t, n) \<in> set (mf_foreach mf m))"

definition publish_ok :: "'m manifold \<Rightarrow> bool" where
  "publish_ok mf \<longleftrightarrow> (\<forall>t t' p m. mf_count mf t (snd (mf_publish mf t' p m)) = mf_count mf t m)"

definition manifold_ok :: "'m manifold \<Rightarrow> bool" where
  "manifold_ok mf \<longleftrightarrow> counts_ok mf \<and> subscribe_ok mf \<and> foreach_ok mf \<and> publish_ok mf"

definition list_manifold :: "string list manifold" where
  "list_manifold = \<lparr>mf_init = (None, []), mf_set_semaphore = (\<lambda>m. (None, m)),
     mf_subscribe = (\<lambda>t m. (None, t # m)), mf_count = (\<lambda>t m. Inr (int (length (filter (\<lambda>x. x = t) m)))),
     mf_publish = (\<lambda>t p m. (None, m)),
     mf_foreach = (\<lambda>m. map (\<lambda>t. (t, int (length (filter (\<lambda>x. x = t) m)))) m)\<rparr>"

lemma list_manifold_ok: "manifold_ok list_manifold"
  by (auto simp: manifold_ok_def counts_ok_def subscribe_ok_def foreach_ok_def publish_ok_def list_manifold_def
      filter_empty_conv image_iff)

lemma manifold_count:
  assumes "manifold_ok mf"
  obtains n where "mf_count mf t m = Inr n" "0 \<le> n"
  using assms unfolding manifold_ok_def counts_ok_def by metis

lemma manifold_subscribe:
  assumes "manifold_ok mf" "mf_subscribe mf t m = (None, m')"
  shows "mf_count mf t m = Inr n \<Longrightarrow> mf_count mf t m' = Inr (n + 1)"
    and "t' \<noteq> t \<Longrightarrow> mf_count mf t' m' = mf_count mf t' m"
proof -
  have "subscribe_ok mf" using assms(1) by (simp add: manifold_ok_def)
  with assms(2) show "mf_count mf t m = Inr n \<Longrightarrow> mf_count mf t m' = Inr (n + 1)"
    and "t' \<noteq> t \<Longrightarrow> mf_count mf t' m' = mf_count mf t' m"
    unfolding subscribe_ok_def by blast+
qed

lemma manifold_foreach:
  assumes "manifold_ok mf" "mf_count mf t m = Inr n" "0 < n"
  shows "t \<in> set (concat (map resubscribe_iter (mf_foreach mf m)))"
proof -
  have "foreach_ok mf" using assms(1) by (simp add: manifold_ok_def)
  with assms(2,3) have "(t, n) \<in> set (mf_foreach mf m)" unfolding foreach_ok_def by blast
  with assms(3) show ?thesis by (auto simp: resubscribe_iter_def intro!: bexI [of _ "(t, n)"])
qed

lemma manifold_publish:
  assumes "manifold_ok mf"
  shows "mf_count mf t (snd (mf_publish mf t' p m)) = mf_count mf t m"
proof -
  have "publish_ok mf" using assms by (simp add: manifold_ok_def)
  then show ?thesis unfolding publish_ok_def by blast
qed

section \<open>What the events change\<close>

lemma mq_handle_keeps:
  "mq_manifold (fst (mq_handle mf ev st)) = mq_manifold (fst st) \<and>
   mq_mqt (fst (mq_handle mf ev st)) = mq_mqt (fst st) \<and>
   mq_suback_mid_waiting (fst (mq_handle mf ev st)) = mq_suback_mid_waiting (fst st)"
  by (cases ev) (simp_all add: mq_handle_def mq_on_connect_def mq_on_disconnect_def mq_on_subscribe_def)

lemma mq_handle_all_simps [simp]:
  "mq_handle_all mf [] st = st"
  "mq_handle_all mf (ev # evs) st = mq_handle_all mf evs (mq_handle mf ev st)"
  "mq_handle_all mf (es1 @ es2) st = mq_handle_all mf es2 (mq_handle_all mf es1 st)"
  by (simp_all add: mq_handle_all_def)

lemma mq_handle_all_keeps [simp]:
  "mq_manifold (fst (mq_handle_all mf evs st)) = mq_manifold (fst st)"
  "mq_mqt (fst (mq_handle_all mf evs st)) = mq_mqt (fst st)"
  "mq_suback_mid_waiting (fst (mq_handle_all mf evs st)) = mq_suback_mid_waiting (fst st)"
  by (induction evs arbitrary: st) (simp_all add: mq_handle_keeps)

definition suback_for :: "int \<Rightarrow> mq_event \<Rightarrow> bool" where
  "suback_for mid ev = (case ev of OnSubscribe m _ \<Rightarrow> m = mid | _ \<Rightarrow> False)"

lemma mq_handle_all_result:
  "list_all (\<lambda>ev. \<not> suback_for (mq_suback_mid_waiting (fst st)) ev) evs \<Longrightarrow>
     mq_suback_result (fst (mq_handle_all mf evs st)) = mq_suback_result (fst st)"
proof (induction evs arbitrary: st)
  case (Cons ev evs)
  have "mq_suback_result (fst (mq_handle mf ev st)) = mq_suback_result (fst st)"
    using Cons.prems
    by (cases ev) (auto simp: mq_handle_def mq_on_connect_def mq_on_disconnect_def mq_on_subscribe_def suback_for_def)
  with Cons.IH [of "mq_handle mf ev st"] Cons.prems show ?case by (simp add: mq_handle_keeps)
qed simp

text \<open>A predicate that every event keeps is kept by the waits.\<close>

lemma handle_all_closed:
  assumes "\<And>ev st. P st \<Longrightarrow> P (mq_handle mf ev st)"
  shows "P st \<Longrightarrow> P (mq_handle_all mf evs st)"
  by (induction evs arbitrary: st) (simp_all add: assms)

lemma conn_wait_keeps:
  assumes step: "\<And>ev st. P st \<Longrightarrow> P (mq_handle mf ev st)"
  shows "conn_wait mf ws st = Some (to, st') \<Longrightarrow> P st \<Longrightarrow> P st' \<and> (\<not> to \<longrightarrow> mq_connected (fst st'))"
proof (induction ws arbitrary: st)
  case Nil
  then show ?case by (simp split: if_splits)
next
  case (Cons w ws)
  obtain evs timed_out where w: "w = (evs, timed_out)" by (cases w)
  have "P (mq_handle_all mf evs st)" using handle_all_closed [where P = P, OF step Cons.prems(2)] .
  with Cons.IH [of "mq_handle_all mf evs st"] Cons.prems show ?case by (simp add: w Let_def split: if_splits)
qed

lemma suback_wait_keeps:
  assumes step: "\<And>ev st. P st \<Longrightarrow> P (mq_handle mf ev st)"
  shows "suback_wait mf ws st = Some (to, st') \<Longrightarrow> P st \<Longrightarrow> P st'"
proof (induction ws arbitrary: st)
  case Nil
  then show ?case by (simp split: if_splits)
next
  case (Cons w ws)
  obtain evs timed_out where w: "w = (evs, timed_out)" by (cases w)
  have "P (mq_handle_all mf evs st)" using handle_all_closed [where P = P, OF step Cons.prems(2)] .
  with Cons.IH [of "mq_handle_all mf evs st"] Cons.prems show ?case by (simp add: w Let_def split: if_splits)
qed

lemma wait_for_suback_result:
  assumes "wait_for_suback mf mid ws st = Some (rc, st2)"
  obtains to st3 where
    "suback_wait mf ws ((fst st)\<lparr>mq_suback_mid_waiting := mid, mq_suback_result := -1\<rparr>, snd st) = Some (to, st3)"
    "st2 = ((fst st3)\<lparr>mq_suback_mid_waiting := -1\<rparr>, snd st3)"
    "rc = (if mq_suback_result (fst st3) = 0 then RcOk
           else if 0 < mq_suback_result (fst st3) then RcIo
           else if \<not> mq_connected (fst st3) then RcNotConn
           else if to then RcTimedOut else RcOk)"
  using assms that unfolding wait_for_suback_def Let_def by (elim map_option_eq_Some [THEN iffD1, elim_format]) auto

section \<open>Properties\<close>

text \<open>While connected, every topic with recipients has been asked of the broker.\<close>

definition mq_covered :: "'m manifold \<Rightarrow> 'm mq_state \<Rightarrow> bool" where
  "mq_covered mf st \<longleftrightarrow>
     (mq_connected (fst st) \<longrightarrow>
        (\<forall>t n. mf_count mf t (mq_manifold (fst st)) = Inr n \<longrightarrow> 0 < n \<longrightarrow> t \<in> set (snd st)))"

definition mq_inv :: "'m manifold \<Rightarrow> 'm mq_state \<Rightarrow> bool" where
  "mq_inv mf st \<longleftrightarrow> mq_covered mf st \<and> (mq_connected (fst st) \<longrightarrow> mq_mqt (fst st))"

text \<open>
  A history: callbacks of a client that exists, messages that arrive, activations and
  subscriptions that return success.
\<close>

inductive mq_step :: "'m manifold \<Rightarrow> 'm mq_state \<Rightarrow> 'm mq_state \<Rightarrow> bool" for mf where
  event: "mq_mqt (fst st) \<Longrightarrow> mq_step mf st (mq_handle mf ev st)"
| message: "mq_step mf (s, subs) (snd (mq_on_message mf buf topic payload s), subs)"
| configure: "mq_step mf (s, subs) (snd (mq_configure guid s cfg), subs)"
| activate: "mq_activate mf env early ws st = Some (None, st') \<Longrightarrow> mq_step mf st st'"
| subscribe: "mq_subscribe mf answer early ws topic st = Some (None, st') \<Longrightarrow> mq_step mf st st'"

lemma covered_handle:
  assumes "manifold_ok mf" "mq_covered mf st"
  shows "mq_covered mf (mq_handle mf ev st)"
proof (cases ev)
  case (OnConnect rc)
  then show ?thesis
    using manifold_foreach [OF assms(1)] by (auto simp: mq_covered_def mq_handle_def mq_on_connect_def simp del: set_concat)
qed (use assms(2) in \<open>simp_all add: mq_covered_def mq_handle_def mq_on_disconnect_def mq_on_subscribe_def\<close>)

lemma inv_handle:
  assumes "manifold_ok mf" "mq_inv mf st" "mq_mqt (fst st)"
  shows "mq_inv mf (mq_handle mf ev st) \<and> mq_mqt (fst (mq_handle mf ev st))"
  using covered_handle [OF assms(1)] assms(2,3) by (simp add: mq_inv_def mq_handle_keeps)

lemma activate_inv:
  assumes ok: "manifold_ok mf" and st: "mq_inv mf st"
    and a: "mq_activate mf env early ws st = Some (None, st')"
  shows "mq_inv mf st' \<and> mq_connected (fst st')"
proof -
  let ?st1 = "((fst st)\<lparr>mq_mqt := True\<rparr>, snd st)"
  let ?P = "\<lambda>x. mq_inv mf x \<and> mq_mqt (fst x)"
  have P1: "?P ?st1" using st by (simp add: mq_inv_def mq_covered_def)
  have step: "?P x \<Longrightarrow> ?P (mq_handle mf ev x)" for ev x using inv_handle [OF ok] by blast
  have "?P (mq_handle_all mf early ?st1)" by (rule handle_all_closed [where P = ?P, OF step P1])
  moreover from a obtain st2 where "wait_for_connected mf ws (mq_handle_all mf early ?st1) = Some (RcOk, st2)" "st' = st2"
    by (cases st) (auto simp: mq_activate_def Let_def split: if_splits)
  then obtain "conn_wait mf ws (mq_handle_all mf early ?st1) = Some (False, st')"
    by (auto simp: wait_for_connected_def split: if_splits)
  ultimately show ?thesis using conn_wait_keeps [where P = ?P, OF step] by blast
qed

lemma subscribe_covers:
  assumes ok: "manifold_ok mf" and inv: "mq_inv mf st" and sub: "mf_subscribe mf topic (mq_manifold (fst st)) = (None, m)"
    and asked: "mq_connected (fst st) \<Longrightarrow> mf_count mf topic m = Inr 1 \<Longrightarrow> topic \<in> set subs" and subs: "set (snd st) \<subseteq> set subs"
  shows "mq_inv mf ((fst st)\<lparr>mq_manifold := m\<rparr>, subs)"
proof -
  have "t \<in> set subs" if con: "mq_connected (fst st)" and n: "mf_count mf t m = Inr n" "0 < n" for t n
  proof (cases "t = topic")
    case True
    obtain k where k: "mf_count mf topic (mq_manifold (fst st)) = Inr k" "0 \<le> k" using manifold_count [OF ok] .
    with manifold_subscribe(1) [OF ok sub] have "mf_count mf topic m = Inr (k + 1)" by blast
    with inv con k True asked subs show ?thesis
      by (cases "k = 0") (auto simp: mq_inv_def mq_covered_def)
  next
    case False
    with manifold_subscribe(2) [OF ok sub] n have "mf_count mf t (mq_manifold (fst st)) = Inr n" by simp
    with inv con n subs show ?thesis by (auto simp: mq_inv_def mq_covered_def)
  qed
  with inv show ?thesis by (simp add: mq_inv_def mq_covered_def)
qed

lemma subscribe_inv:
  assumes ok: "manifold_ok mf" and st: "mq_inv mf st"
    and a: "mq_subscribe mf answer early ws topic st = Some (None, st')"
  shows "mq_inv mf st'"
proof -
  obtain e m where sub: "mf_subscribe mf topic (mq_manifold (fst st)) = (e, m)" by fastforce
  with a have "e = None" by (auto simp: mq_subscribe_def Let_def split: if_splits)
  note sub = sub [unfolded this]
  let ?self = "(fst st)\<lparr>mq_manifold := m\<rparr>"
  obtain n where n: "mf_count mf topic m = Inr n" using manifold_count [OF ok] by blast
  show ?thesis
  proof (cases "n = 1 \<and> mq_mqt (fst st) \<and> mq_connected (fst st)")
    case False
    with a sub n have "st' = (?self, snd st)" by (auto simp: mq_subscribe_def Let_def)
    moreover have "mq_inv mf (?self, snd st)"
      using False n st by (intro subscribe_covers [OF ok st sub]) (auto simp: mq_inv_def)
    ultimately show ?thesis by simp
  next
    case True
    with a sub n obtain mid where mid: "answer = Some mid" by (cases answer) (simp_all add: mq_subscribe_def Let_def)
    with a sub n True obtain rc st2 where r: "wait_for_suback mf mid ws (mq_handle_all mf early (?self, snd st @ [topic])) = Some (rc, st2)"
      by (cases "wait_for_suback mf mid ws (mq_handle_all mf early (?self, snd st @ [topic]))")
         (auto simp: mq_subscribe_def Let_def)
    with a sub n True mid have w: "wait_for_suback mf mid ws (mq_handle_all mf early (?self, snd st @ [topic])) = Some (RcOk, st2)"
        "st' = st2"
      by (cases rc; simp add: mq_subscribe_def Let_def)+
    let ?P = "\<lambda>x. mq_inv mf x \<and> mq_mqt (fst x)"
    have step: "?P x \<Longrightarrow> ?P (mq_handle mf ev x)" for ev x using inv_handle [OF ok] by blast
    have "mq_inv mf (?self, snd st @ [topic])" by (rule subscribe_covers [OF ok st sub]) auto
    with True have p: "?P (?self, snd st @ [topic])" by simp
    have "?P (mq_handle_all mf early (?self, snd st @ [topic]))" by (rule handle_all_closed [where P = ?P, OF step p])
    then have "?P ((fst (mq_handle_all mf early (?self, snd st @ [topic])))\<lparr>mq_suback_mid_waiting := mid, mq_suback_result := -1\<rparr>,
        snd (mq_handle_all mf early (?self, snd st @ [topic])))"
      by (simp add: mq_inv_def mq_covered_def)
    note start = this
    from w(1) obtain to st3 where st3: "suback_wait mf ws ((fst (mq_handle_all mf early (?self, snd st @ [topic])))
          \<lparr>mq_suback_mid_waiting := mid, mq_suback_result := -1\<rparr>,
        snd (mq_handle_all mf early (?self, snd st @ [topic]))) = Some (to, st3)"
      "st2 = ((fst st3)\<lparr>mq_suback_mid_waiting := -1\<rparr>, snd st3)"
      by (rule wait_for_suback_result)
    have "?P st3" by (rule suback_wait_keeps [where P = ?P, OF step st3(1) start])
    with st3(2) w(2) have "mq_inv mf st3" "st' = ((fst st3)\<lparr>mq_suback_mid_waiting := -1\<rparr>, snd st3)" by simp_all
    then show ?thesis by (cases st') (auto simp: mq_inv_def mq_covered_def)
  qed
qed

lemma mq_step_inv:
  assumes "manifold_ok mf" "mq_step mf st st'" "mq_inv mf st"
  shows "mq_inv mf st'"
  using assms(2)
proof cases
  case (event ev)
  then show ?thesis using inv_handle [OF assms(1,3)] by simp
next
  case (message s subs buf topic payload)
  have "mq_inv mf (snd (mq_on_message mf buf topic payload s), subs)"
    using assms(3) message manifold_publish [OF assms(1)]
    by (auto simp: mq_on_message_def mq_inv_def mq_covered_def split: option.split prod.split)
       (metis snd_conv)+
  with message show ?thesis by simp
next
  case (configure s subs guid cfg)
  then show ?thesis using assms(3)
    by (auto simp: mq_configure_def mq_inv_def mq_covered_def Let_def split: option.split)
next
  case (activate env early ws)
  then show ?thesis using activate_inv [OF assms(1,3)] by blast
next
  case (subscribe answer early ws topic)
  then show ?thesis using subscribe_inv [OF assms(1,3)] by blast
qed



section \<open>What a subscription reports\<close>

lemma suback_wait_silent:
  "suback_wait mf ws st = Some (to, st') \<Longrightarrow> mq_suback_result (fst st) = -1 \<Longrightarrow>
     list_all (\<lambda>w. list_all (\<lambda>ev. \<not> suback_for (mq_suback_mid_waiting (fst st)) ev) (fst w)) ws \<Longrightarrow>
     mq_suback_result (fst st') = -1 \<and> (\<not> to \<longrightarrow> \<not> mq_connected (fst st'))"
proof (induction ws arbitrary: st)
  case Nil
  then show ?case by (simp split: if_splits)
next
  case (Cons w ws)
  obtain evs timed_out where w: "w = (evs, timed_out)" by (cases w)
  have r: "mq_suback_result (fst (mq_handle_all mf evs st)) = -1"
    using mq_handle_all_result [of st evs mf] Cons.prems(2,3) w by simp
  show ?case
  proof (cases "mq_connected (fst st) \<and> \<not> timed_out")
    case True
    with Cons.IH [of "mq_handle_all mf evs st"] Cons.prems r w show ?thesis by (simp add: Let_def)
  next
    case False
    with Cons.prems r w show ?thesis by (auto simp: Let_def split: if_splits)
  qed
qed

lemma suback_done: "mq_suback_result (fst st) \<noteq> -1 \<Longrightarrow> suback_wait mf ws st = Some (False, st)"
  by (cases ws) (auto simp: case_prod_unfold)

text \<open>\<open>asks mf topic st m\<close>: a subscription of this topic is the one that asks the broker.\<close>

definition asks :: "'m manifold \<Rightarrow> string \<Rightarrow> 'm mq_state \<Rightarrow> 'm \<Rightarrow> bool" where
  "asks mf topic st m \<longleftrightarrow> mf_subscribe mf topic (mq_manifold (fst st)) = (None, m) \<and>
     mf_count mf topic m = Inr 1 \<and> mq_mqt (fst st) \<and> mq_connected (fst st)"

definition rc_error :: "mq_rc \<Rightarrow> dterr" where
  "rc_error rc = (case rc of RcTimedOut \<Rightarrow> Some DTERR_TIMEOUT | RcIo \<Rightarrow> Some DTERR_IO
                    | RcNotConn \<Rightarrow> Some DTERR_STATE | RcOk \<Rightarrow> None)"

lemma mq_subscribe_asks:
  "asks mf topic st m \<Longrightarrow>
     mq_subscribe mf (Some mid) early ws topic st =
       map_option (\<lambda>(rc, st2). (rc_error rc, st2))
         (wait_for_suback mf mid ws (mq_handle_all mf early ((fst st)\<lparr>mq_manifold := m\<rparr>, snd st @ [topic])))"
  by (simp add: mq_subscribe_def asks_def Let_def rc_error_def)


text \<open>
  An answer that comes too early is lost, and a subscription that failed is never made up
  for. The portal records the id it waits for only after \<open>mosquitto_subscribe\<close> has returned: if
  the broker's answer is handled before that, then the subscription, however the broker answered,
  returns \<open>DTERR_TIMEOUT\<close> (or \<open>DTERR_STATE\<close> after a disconnection). The topic keeps its
  recipient, so that the next subscription to it returns success without asking the broker.
\<close>

theorem mqtt_early_answer_lost:
  assumes "manifold_ok mf" "asks mf topic st m"
    and "list_all (\<lambda>w. list_all (\<lambda>ev. \<not> suback_for mid ev) (fst w)) ws"
    and "mq_subscribe mf (Some mid) (OnSubscribe mid granted # early) ws topic st = Some (e, st1)"
    and "mf_subscribe mf topic (mq_manifold (fst st1)) = (None, m2)"
  shows "(e = Some DTERR_TIMEOUT \<or> e = Some DTERR_STATE) \<and>
    mq_subscribe mf answer early2 ws2 topic st1 = Some (None, (fst st1)\<lparr>mq_manifold := m2\<rparr>, snd st1)"
proof -
  let ?st = "mq_handle_all mf (OnSubscribe mid granted # early) ((fst st)\<lparr>mq_manifold := m\<rparr>, snd st @ [topic])"
  from assms(4) obtain rc where w: "wait_for_suback mf mid ws ?st = Some (rc, st1)" and e: "e = rc_error rc"
    unfolding mq_subscribe_asks [OF assms(2)] by auto
  let ?st0 = "((fst ?st)\<lparr>mq_suback_mid_waiting := mid, mq_suback_result := -1\<rparr>, snd ?st)"
  obtain to st3 where st3: "suback_wait mf ws ?st0 = Some (to, st3)"
      "st1 = ((fst st3)\<lparr>mq_suback_mid_waiting := -1\<rparr>, snd st3)"
      "rc = (if mq_suback_result (fst st3) = 0 then RcOk
             else if 0 < mq_suback_result (fst st3) then RcIo
             else if \<not> mq_connected (fst st3) then RcNotConn
             else if to then RcTimedOut else RcOk)"
    using w by (rule wait_for_suback_result)
  have "mq_suback_result (fst st3) = -1 \<and> (\<not> to \<longrightarrow> \<not> mq_connected (fst st3))"
    using suback_wait_silent [OF st3(1)] assms(3) by simp
  then have err: "e = Some DTERR_TIMEOUT \<or> e = Some DTERR_STATE" using st3(3) by (auto simp: e rc_error_def)
  let ?P = "\<lambda>x. mq_manifold (fst x) = m"
  have "?P st3" by (rule suback_wait_keeps [where P = ?P, OF _ st3(1)]) (simp_all add: mq_handle_keeps)
  then have man: "mq_manifold (fst st1) = m" using st3(2) by simp
  have "mf_count mf topic m = Inr 1" using assms(2) by (simp add: asks_def)
  with manifold_subscribe(1) [OF assms(1,5), of 1] man have "mf_count mf topic m2 = Inr 2" by simp
  with assms(5) man have "mq_subscribe mf answer early2 ws2 topic st1 = Some (None, (fst st1)\<lparr>mq_manifold := m2\<rparr>, snd st1)"
    by (simp add: mq_subscribe_def)
  with err show ?thesis by blast
qed

section \<open>What an activation reports\<close>

text \<open>
  What an activation reports of the connection. When the client can be set up and the wait
  runs out in the very round in which the broker accepts, the portal is connected, reports
  \<open>DTERR_TIMEOUT\<close> and destroys the client. The mark that it is connected stays: the next
  activation of the object returns success at once, with a client that has not connected.
\<close>

theorem mqtt_activate_races:
  assumes "ae_new env" "\<not> mq_setup_fails env (mq_config s)" "\<not> mq_connected s"
    and "list_all (\<lambda>ev. ev = OnConnect 0) evs" "evs \<noteq> []"
  shows "\<exists>s1 asked1. mq_activate mf env [] ((evs, True) # ws) (s, asked) = Some (Some DTERR_TIMEOUT, s1, asked1) \<and>
    mq_connected s1 \<and> \<not> mq_mqt s1 \<and>
    mq_activate mf env [] [] (s1, asked1) = Some (None, s1\<lparr>mq_mqt := True\<rparr>, asked1)"
proof -
  let ?st = "mq_handle_all mf evs (s\<lparr>mq_mqt := True\<rparr>, asked)"
  have cfg: "mq_config (fst (mq_handle_all mf es x)) = mq_config (fst x)" for es and x :: "'a mq_state"
  proof (induction es arbitrary: x)
    case (Cons e es)
    have "mq_config (fst (mq_handle mf e x)) = mq_config (fst x)"
      by (cases e) (simp_all add: mq_handle_def mq_on_connect_def mq_on_disconnect_def mq_on_subscribe_def)
    with Cons.IH [of "mq_handle mf e x"] show ?case by simp
  qed simp
  have "mq_connected (fst (mq_handle_all mf es x))"
    if "list_all (\<lambda>ev. ev = OnConnect 0) es" "es \<noteq> [] \<or> mq_connected (fst x)" for es and x :: "'a mq_state"
    using that by (induction es arbitrary: x) (auto simp: mq_handle_def mq_on_connect_def)
  with assms(4,5) have con: "mq_connected (fst ?st)" by blast
  obtain s1 asked1 where st: "?st = (s1, asked1)" by (cases ?st)
  have "mq_activate mf env [] ((evs, True) # ws) (s, asked) = Some (Some DTERR_TIMEOUT, s1\<lparr>mq_mqt := False\<rparr>, asked1)"
    using assms(1-3) st by (simp add: mq_activate_def wait_for_connected_def Let_def)
  moreover have "mq_activate mf env [] [] (s1\<lparr>mq_mqt := False\<rparr>, asked1) = Some (None, (s1\<lparr>mq_mqt := False\<rparr>)\<lparr>mq_mqt := True\<rparr>, asked1)"
    using assms(1,2) con st cfg [of evs "(s\<lparr>mq_mqt := True\<rparr>, asked)"]
    by (simp add: mq_activate_def wait_for_connected_def Let_def)
  ultimately show ?thesis using con st by (intro exI [of _ "s1\<lparr>mq_mqt := False\<rparr>"] exI [of _ asked1]) simp
qed

lemma mq_deadline:
  assumes "timespec_ok ts" "0 \<le> ms"
  shows "mq_add_ms ts ms = add_ms_to_timespec_monotonic ts ms"
proof -
  have "0 \<le> ms smod 1000" using assms(2) by (simp add: signed_modulo_int_def sgn_if)
  with assms(1) show ?thesis by (simp add: mq_add_ms_def add_ms_to_timespec_monotonic_def timespec_ok_def Let_def)
qed

section \<open>Witnesses\<close>

definition sample_portal :: "string list dtnetportal_mosquitto_t" where
  "sample_portal = (snd (mq_init list_manifold [] \<lparr>se_alloc = None, se_mutex_init = None, se_attr_init = None,
      se_setclock = None, se_cond_init = None\<rparr> 1 None None))"

definition online_portal :: "string list mq_state" where
  "online_portal = (sample_portal\<lparr>mq_mqt := True, mq_connected := True\<rparr>, [])"

lemma sample_init:
  "mq_init list_manifold [] \<lparr>se_alloc = None, se_mutex_init = None, se_attr_init = None,
      se_setclock = None, se_cond_init = None\<rparr> 1 None None = (None, sample_portal)"
  by (simp add: sample_portal_def mq_init_def list_manifold_def dtsemaphore_create_def)

lemma sample_portal_fields:
  "mq_manifold sample_portal = []" "\<not> mq_connected sample_portal" "mc_use_tls (mq_config sample_portal) = False"
  "mc_username (mq_config sample_portal) = None"
  by (simp_all add: sample_portal_def mq_init_def mq_zero_def list_manifold_def dtsemaphore_create_def)

lemma sample_asks: "asks list_manifold ''t'' online_portal [''t'']"
  by (simp add: asks_def online_portal_def sample_portal_fields) (simp add: list_manifold_def)

definition calm_activate :: activate_env where
  "calm_activate = \<lparr>ae_new = True, ae_username_pw_set = True, ae_tls_set = True, ae_tls_insecure_set = True,
     ae_connect = True, ae_loop_start = True\<rparr>"

lemma calm_setup: "\<not> mq_setup_fails calm_activate (mq_config sample_portal)"
  by (simp add: mq_setup_fails_def calm_activate_def sample_portal_fields)


theorem mqtt_activate_races_witness:
  "\<exists>s1 asked1. mq_activate list_manifold calm_activate [] [([OnConnect 0], True)] (sample_portal, [])
      = Some (Some DTERR_TIMEOUT, s1, asked1) \<and> mq_connected s1 \<and> \<not> mq_mqt s1 \<and>
    mq_activate list_manifold calm_activate [] [] (s1, asked1) = Some (None, s1\<lparr>mq_mqt := True\<rparr>, asked1)"
  by (rule mqtt_activate_races) (simp_all add: calm_setup sample_portal_fields, simp add: calm_activate_def)

theorem mqtt_early_answer_lost_witness:
  "\<exists>e st1. mq_subscribe list_manifold (Some 7) [OnSubscribe 7 (Some [0])] [([], True)] ''t'' online_portal = Some (e, st1) \<and>
    e \<noteq> None \<and> mq_subscribe list_manifold None [] [] ''t'' st1 = Some (None, (fst st1)\<lparr>mq_manifold := ''t'' # mq_manifold (fst st1)\<rparr>, snd st1)"
proof -
  have "suback_wait list_manifold [([], True)] x = Some (mq_suback_result (fst x) = -1 \<and> mq_connected (fst x), x)" for x
    by simp
  then have "\<exists>r. mq_subscribe list_manifold (Some 7) [OnSubscribe 7 (Some [0])] [([], True)] ''t'' online_portal = Some r"
    unfolding mq_subscribe_asks [OF sample_asks] wait_for_suback_def by auto
  then obtain e st1 where r: "mq_subscribe list_manifold (Some 7) [OnSubscribe 7 (Some [0])] [([], True)] ''t'' online_portal
      = Some (e, st1)" by auto
  have "mf_subscribe list_manifold ''t'' (mq_manifold (fst st1)) = (None, ''t'' # mq_manifold (fst st1))"
    by (simp add: list_manifold_def)
  from r mqtt_early_answer_lost [OF list_manifold_ok sample_asks _ r this, of None "[]" "[]"] show ?thesis by auto
qed


end
