(* ===== verification/Coap.thy ===== *)
theory Coap
  imports Mosquitto BufferQueue Tasker Cstring
begin

text \<open>
  \<open>dtmc_linux_library/src/dtnetportal_coap*.c\<close>: publish and subscribe as CoAP posts between peers.
  A publication is packed into a buffer and put into the buffer queue; a byte written to a pipe
  wakes the task that posts what is queued. libcoap and the manifold are parameters. Buffers are
  passed by pointer, so they live in a heap.
\<close>

section \<open>Data\<close>

text \<open>The callback for status changes of the task is left out of the configuration.\<close>

record coap_config =
  cc_publish_to_host :: "string option"
  cc_publish_to_port :: int
  cc_keepalive :: int
  cc_client_id :: "string option"
  cc_username :: "string option"
  cc_password :: "string option"
  cc_clean_start :: bool
  cc_use_tls :: bool
  cc_tls_ca_file :: "string option"
  cc_tls_certfile :: "string option"
  cc_tls_keyfile :: "string option"
  cc_listen_host :: "string option"
  cc_listen_port :: u16
  cc_io_process_timeout_ms :: int

text \<open>A family, the address as text (\<open>None\<close>: any) and the port.\<close>

datatype coap_address = AddrUnset | AddrV4 "string option" u16 | AddrV6 "string option" u16

text \<open>Of the objects of libcoap the portal keeps pointers; a flag says that one is not NULL.\<close>

record 'm dtnetportal_coap_t =
  cp_model_number :: int
  cp_config :: coap_config
  cp_manifold_semaphore :: "dtsemaphore_linux_t option"
  cp_manifold :: 'm
  cp_manifold_set :: bool
  cp_ioloop_tasker :: "dttasker_t option"
  cp_bufferqueue :: "dtbufferqueue_t option"
  cp_is_connected :: bool
  cp_is_malloced :: bool
  cp_context :: bool
  cp_publish_uri :: "string option"
  cp_publish_address :: coap_address
  cp_session :: bool
  cp_listen_address :: coap_address
  cp_endpoint :: bool
  cp_resource_path :: bool
  cp_resource :: bool
  cp_wake_pipe :: "int \<times> int"
  cp_wake_pipe_ok :: bool
  cp_ioloop_should_stop :: int

definition coap_zero :: "'m \<Rightarrow> int \<Rightarrow> 'm dtnetportal_coap_t" where
  "coap_zero m model = \<lparr>cp_model_number = model,
     cp_config = \<lparr>cc_publish_to_host = None, cc_publish_to_port = 0, cc_keepalive = 0, cc_client_id = None,
       cc_username = None, cc_password = None, cc_clean_start = False, cc_use_tls = False, cc_tls_ca_file = None,
       cc_tls_certfile = None, cc_tls_keyfile = None, cc_listen_host = None, cc_listen_port = 0,
       cc_io_process_timeout_ms = 0\<rparr>,
     cp_manifold_semaphore = None, cp_manifold = m, cp_manifold_set = False, cp_ioloop_tasker = None,
     cp_bufferqueue = None, cp_is_connected = False, cp_is_malloced = False, cp_context = False,
     cp_publish_uri = None, cp_publish_address = AddrUnset, cp_session = False, cp_listen_address = AddrUnset,
     cp_endpoint = False, cp_resource_path = False, cp_resource = False, cp_wake_pipe = (0, 0),
     cp_wake_pipe_ok = False, cp_ioloop_should_stop = 0\<rparr>"

section \<open>Packing\<close>

text \<open>
  \<open>create n\<close> is what \<open>dtbuffer_create\<close> gives for \<open>n\<close> bytes: an error or the payload, whose bytes
  are then written over. A topic is a C string, so it holds no NUL.
\<close>

definition pubwork_enbuf :: "(int \<Rightarrow> errcode + byte list) \<Rightarrow> string \<Rightarrow> byte list \<Rightarrow> errcode + byte list" where
  "pubwork_enbuf create topic data =
     (let topic_len = length topic + 1 in
      case create (int (topic_len + length data)) of
        Inl e \<Rightarrow> Inl e
      | Inr payload \<Rightarrow> Inr (overwrite topic_len data (overwrite 0 (bytes_of topic @ [0]) payload)))"

text \<open>\<open>None\<close>: no NUL in the payload, so that \<open>strlen\<close> reads past its end.\<close>

definition pubwork_debuf :: "byte list option \<Rightarrow> (errcode + string \<times> byte list) option" where
  "pubwork_debuf buffer =
     (case buffer of
        None \<Rightarrow> Some (Inl DTERR_BADARG)
      | Some payload \<Rightarrow>
          if length payload < 2 then Some (Inl DTERR_BADARG)
          else if 0 \<notin> set payload then None
          else let topic = takeWhile (\<lambda>x. x \<noteq> 0) payload in
               Some (Inr (map (\<lambda>x. char_of (unat x)) topic, drop (length topic + 1) payload)))"

section \<open>Life cycle\<close>

definition coap_init ::
  "'m manifold \<Rightarrow> 'm \<Rightarrow> bq_env \<Rightarrow> sem_env \<Rightarrow> int \<Rightarrow> dterr \<Rightarrow> dterr \<Rightarrow> dterr \<times> 'm dtnetportal_coap_t" where
  "coap_init mf m0 bq sem model reg1 reg2 =
     (let self = coap_zero m0 model in
      if reg1 \<noteq> None then (reg1, self)
      else if reg2 \<noteq> None then (reg2, self)
      else (case dtbufferqueue_create bq 10 False of
              (Some e, _) \<Rightarrow> (Some e, self)
            | (None, q) \<Rightarrow>
                (case mf_init mf of
                   (e, m) \<Rightarrow>
                     let self1 = self\<lparr>cp_bufferqueue := q, cp_manifold := m, cp_manifold_set := True\<rparr> in
                     if e \<noteq> None then (e, self1)
                     else (case dtsemaphore_create sem 1 1 of
                             (Some e, _) \<Rightarrow> (Some e, self1)
                           | (None, h) \<Rightarrow>
                               (case mf_set_semaphore mf m of
                                  (e, m') \<Rightarrow> (e, self1\<lparr>cp_manifold_semaphore := h, cp_manifold := m'\<rparr>))))))"

text \<open>As for the other portal, \<open>Some None\<close> is memory that has been freed.\<close>

definition coap_create ::
  "bool \<Rightarrow> 'm manifold \<Rightarrow> 'm \<Rightarrow> bq_env \<Rightarrow> sem_env \<Rightarrow> int \<Rightarrow> dterr \<Rightarrow> dterr
     \<Rightarrow> dterr \<times> 'm dtnetportal_coap_t option option" where
  "coap_create malloc_ok mf m0 bq sem model reg1 reg2 =
     (if \<not> malloc_ok then (Some DTERR_NOMEM, None)
      else (case coap_init mf m0 bq sem model reg1 reg2 of
              (Some e, _) \<Rightarrow> (Some e, Some None)
            | (None, self) \<Rightarrow> (None, Some (Some (self\<lparr>cp_is_malloced := True\<rparr>)))))"

text \<open>The default of the port is written to the caller's configuration, the last result.\<close>

definition coap_configure ::
  "'m dtnetportal_coap_t \<Rightarrow> coap_config option \<Rightarrow> dterr \<times> 'm dtnetportal_coap_t \<times> coap_config option" where
  "coap_configure self config =
     (case config of
        None \<Rightarrow> (Some DTERR_BADARG, self, None)
      | Some cfg \<Rightarrow>
          if cc_publish_to_host cfg = None then (Some DTERR_BADARG, self, Some cfg)
          else let cfg1 = (if cc_listen_port cfg = 0 then cfg\<lparr>cc_listen_port := 5683\<rparr> else cfg) in
               (None, self\<lparr>cp_config := cfg1\<rparr>, Some cfg1))"

definition publish_url :: "coap_config \<Rightarrow> string" where
  "publish_url cfg =
     fit 256 (''coap'' @ (if cc_use_tls cfg then ''s'' else []) @ ''://['' @ show_text (cc_publish_to_host cfg) @
              '']:'' @ show_int (cc_publish_to_port cfg))"

text \<open>
  What libcoap, \<open>inet_pton\<close> (for IPv6 when the flag is set) and the kernel answer to \<open>activate\<close>.
  \<open>ca_start\<close> is \<open>dttasker_start\<close>, and \<open>ca_priority\<close> the priority whose number is 5.
\<close>

record coap_env =
  ca_trylock :: bool
  ca_new_context :: bool
  ca_uri :: "string \<Rightarrow> bool"
  ca_pton :: "bool \<Rightarrow> string \<Rightarrow> bool"
  ca_session :: bool
  ca_endpoint :: bool
  ca_path :: bool
  ca_resource :: bool
  ca_pipe :: "(int \<times> int) option"
  ca_fcntl :: bool
  ca_tasker :: create_env
  ca_priority :: dttasker_priority_t
  ca_start :: "dttasker_t \<Rightarrow> dterr \<times> dttasker_t"

text \<open>\<open>None\<close>: \<open>strstr\<close> is called with NULL.\<close>

definition create_sessions :: "coap_env \<Rightarrow> 'm dtnetportal_coap_t \<Rightarrow> (dterr \<times> 'm dtnetportal_coap_t) option" where
  "create_sessions env self =
     (if \<not> cp_context self then Some (Some DTERR_FAIL, self)
      else let cfg = cp_config self; url = publish_url cfg in
        if \<not> ca_uri env url then Some (Some DTERR_FAIL, self\<lparr>cp_publish_uri := None\<rparr>)
        else (case cc_publish_to_host cfg of
                None \<Rightarrow> None
              | Some host \<Rightarrow>
                  let v6 = (strstr host '':'' \<noteq> None);
                      port = word_of_int (cc_publish_to_port cfg);
                      addr = (\<lambda>h. if v6 then AddrV6 h port else AddrV4 h port);
                      self1 = self\<lparr>cp_publish_uri := Some url\<rparr> in
                  if \<not> ca_pton env v6 host then Some (Some DTERR_FAIL, self1\<lparr>cp_publish_address := addr None\<rparr>)
                  else let self2 = self1\<lparr>cp_publish_address := addr (Some host), cp_session := ca_session env\<rparr> in
                       Some (if \<not> ca_session env then Some DTERR_FAIL else None, self2)))"

definition create_endpoints :: "coap_env \<Rightarrow> 'm dtnetportal_coap_t \<Rightarrow> (dterr \<times> 'm dtnetportal_coap_t) option" where
  "create_endpoints env self =
     (if \<not> cp_context self then Some (Some DTERR_FAIL, self)
      else let cfg = cp_config self in
        (case cc_listen_host cfg of
           None \<Rightarrow> None
         | Some host \<Rightarrow>
             let addr = (if strstr host '':'' = None then AddrV4 None (cc_listen_port cfg)
                         else AddrV6 None (cc_listen_port cfg)) in
             Some (if \<not> ca_endpoint env then Some DTERR_FAIL else None,
                   self\<lparr>cp_listen_address := addr, cp_endpoint := ca_endpoint env\<rparr>)))"

definition create_resource :: "coap_env \<Rightarrow> 'm dtnetportal_coap_t \<Rightarrow> dterr \<times> 'm dtnetportal_coap_t" where
  "create_resource env self =
     (if \<not> ca_path env then (Some DTERR_NOMEM, self\<lparr>cp_resource_path := False\<rparr>)
      else let self1 = self\<lparr>cp_resource_path := True, cp_resource := ca_resource env\<rparr> in
           (if \<not> ca_resource env then Some DTERR_FAIL else None, self1))"

text \<open>The pipe and the task: the last part of \<open>activate\<close>.\<close>

definition start_ioloop :: "coap_env \<Rightarrow> 'm dtnetportal_coap_t \<Rightarrow> dterr \<times> 'm dtnetportal_coap_t" where
  "start_ioloop env self =
     (case ca_pipe env of
        None \<Rightarrow> (Some DTERR_FAIL, self)
      | Some pipe \<Rightarrow>
          let self1 = self\<lparr>cp_wake_pipe := pipe\<rparr> in
          if \<not> ca_fcntl env then (Some DTERR_FAIL, self1)
          else let self2 = self1\<lparr>cp_wake_pipe_ok := True\<rparr> in
            (case dttasker_create (ca_tasker env) ''netportal ioloop'' (ca_priority env) 4096 of
               (Some e, _) \<Rightarrow> (Some e, self2)
             | (None, None) \<Rightarrow> (Some DTERR_ASSERT, self2)
             | (None, Some task) \<Rightarrow>
                 (case ca_start env task of (e, task') \<Rightarrow> (e, self2\<lparr>cp_ioloop_tasker := Some task'\<rparr>))))"

text \<open>
  \<open>activate\<close> with the context that the process shares: \<open>None\<close> for NULL, otherwise whether its
  application data, the portal that receives the posts, is this object. An error undoes nothing.
\<close>

definition coap_activate ::
  "coap_env \<Rightarrow> bool option \<Rightarrow> 'm dtnetportal_coap_t \<Rightarrow> (dterr \<times> 'm dtnetportal_coap_t \<times> bool option) option" where
  "coap_activate env global self =
     (let global1 = (if ca_trylock env \<and> global = None \<and> ca_new_context env then Some False else global) in
      if global1 = None then Some (Some DTERR_FAIL, self, None)
      else
        let after = (\<lambda>(e, s). (e, s, Some True)) in
        (case create_sessions env (self\<lparr>cp_context := True\<rparr>) of
           None \<Rightarrow> None
         | Some (Some e, s1) \<Rightarrow> Some (after (Some e, s1))
         | Some (None, s1) \<Rightarrow>
             (case create_endpoints env s1 of
                None \<Rightarrow> None
              | Some (Some e, s2) \<Rightarrow> Some (after (Some e, s2))
              | Some (None, s2) \<Rightarrow>
                  (case create_resource env s2 of
                     (Some e, s3) \<Rightarrow> Some (after (Some e, s3))
                   | (None, s3) \<Rightarrow> Some (after (start_ioloop env s3))))))"

definition coap_subscribe :: "'m manifold \<Rightarrow> string \<Rightarrow> 'm dtnetportal_coap_t \<Rightarrow> dterr \<times> 'm dtnetportal_coap_t" where
  "coap_subscribe mf topic self =
     (case mf_subscribe mf topic (cp_manifold self) of (e, m) \<Rightarrow> (e, self\<lparr>cp_manifold := m\<rparr>))"

text \<open>The flavour, the version and the origin, in a field of \<open>n\<close> bytes.\<close>

definition coap_get_info :: "nat \<Rightarrow> 'm dtnetportal_coap_t \<Rightarrow> bool \<Rightarrow> dterr \<times> (string \<times> string \<times> string) option" where
  "coap_get_info n self has_info =
     (if \<not> has_info then (Some DTERR_BADARG, None)
      else (None, Some (''dtnetportal_coap'', ''0.1.0'',
              fit n (''coap://['' @ show_text (cc_listen_host (cp_config self)) @ '']:'' @
                     show_int (uint (cc_listen_port (cp_config self)))))))"

definition coap_equals :: "'m dtnetportal_coap_t option \<Rightarrow> 'm dtnetportal_coap_t option \<Rightarrow> bool" where
  "coap_equals a b = (case (a, b) of (Some x, Some y) \<Rightarrow> cp_model_number x = cp_model_number y | _ \<Rightarrow> False)"

section \<open>Publishing\<close>

text \<open>
  The buffers in memory, the bytes waiting at the other end of each descriptor, the posts given to
  libcoap, and the PDUs allocated less those released.
\<close>

record coap_post =
  po_path :: string
  po_octets :: bool
  po_query :: string
  po_payload :: "byte list"

record coap_world =
  cw_heap :: "buffer \<Rightarrow> byte list option"
  cw_unread :: "int \<Rightarrow> nat"
  cw_sent :: "coap_post list"
  cw_pdus :: int

datatype pub_result = PubQueued | PubAsleep | PubFailed errcode | PubFault

definition pub_queued :: "bq_result \<times> dtbufferqueue_t \<Rightarrow> 'm dtnetportal_coap_t \<Rightarrow> pub_result \<times> 'm dtnetportal_coap_t" where
  "pub_queued rq self =
     (case rq of
        (r, q) \<Rightarrow>
          (case r of
             BqAsleep \<Rightarrow> PubAsleep
           | BqReturned (Some e) _ \<Rightarrow> PubFailed e
           | BqReturned None _ \<Rightarrow> PubQueued
           | BqMoved _ _ \<Rightarrow> PubQueued
           | BqFault \<Rightarrow> PubFault,
           self\<lparr>cp_bufferqueue := Some q\<rparr>))"

text \<open>
  \<open>publish\<close> up to the put, at whose mutex it may have to sleep; \<open>b\<close> is the address of the new buffer.
\<close>

definition coap_publish_put ::
  "(int \<Rightarrow> errcode + byte list) \<Rightarrow> errno option \<Rightarrow> buffer \<Rightarrow> string \<Rightarrow> byte list \<Rightarrow> 'm dtnetportal_coap_t \<Rightarrow> coap_world
     \<Rightarrow> pub_result \<times> 'm dtnetportal_coap_t \<times> coap_world" where
  "coap_publish_put create lock_rc b topic data self w =
     (case pubwork_enbuf create topic data of
        Inl e \<Rightarrow> (PubFailed e, self, w)
      | Inr payload \<Rightarrow>
          let w1 = w\<lparr>cw_heap := (cw_heap w)(b := Some payload)\<rparr> in
          (case cp_bufferqueue self of
             None \<Rightarrow> (PubFailed DTERR_ASSERT, self, w1)
           | Some q \<Rightarrow> (case pub_queued (dtbufferqueue_put lock_rc WaitForever False (Some b) q) self of
                          (r, self1) \<Rightarrow> (r, self1, w1))))"

text \<open>The put, returning from a sleep.\<close>

definition coap_publish_woken ::
  "errno option \<Rightarrow> buffer \<Rightarrow> 'm dtnetportal_coap_t \<Rightarrow> pub_result \<times> 'm dtnetportal_coap_t" where
  "coap_publish_woken rc b self =
     (case cp_bufferqueue self of
        None \<Rightarrow> (PubFailed DTERR_ASSERT, self)
      | Some q \<Rightarrow> pub_queued (dtbufferqueue_put_resume rc WaitForever False b q) self)"

text \<open>
  The byte that wakes the task. A pipe holds 65536 bytes; a full one refuses it, and the answer is
  not looked at.
\<close>

definition coap_wake :: "'m dtnetportal_coap_t \<Rightarrow> coap_world \<Rightarrow> coap_world" where
  "coap_wake self w =
     (let fd = snd (cp_wake_pipe self) in
      w\<lparr>cw_unread := (cw_unread w)(fd := min 65536 (cw_unread w fd + 1))\<rparr>)"

definition coap_publish ::
  "(int \<Rightarrow> errcode + byte list) \<Rightarrow> errno option \<Rightarrow> buffer \<Rightarrow> string \<Rightarrow> byte list \<Rightarrow> 'm dtnetportal_coap_t \<Rightarrow> coap_world
     \<Rightarrow> pub_result \<times> 'm dtnetportal_coap_t \<times> coap_world" where
  "coap_publish create lock_rc b topic data self w =
     (case coap_publish_put create lock_rc b topic data self w of
        (r, self1, w1) \<Rightarrow> (r, self1, if r = PubQueued then coap_wake self1 w1 else w1))"

section \<open>The task\<close>

text \<open>
  What libcoap answers to one post; \<open>pe_room\<close>: the payload fits behind the options (the answer
  is not looked at).
\<close>

record post_env =
  pe_pdu :: bool
  pe_path :: bool
  pe_format :: bool
  pe_query :: bool
  pe_room :: bool
  pe_send :: bool

text \<open>
  The length of the topic is cast to 16 bits. \<open>coap_send\<close> releases the PDU whatever it answers, as
  libcoap documents; the last result is the change of the PDUs allocated.
\<close>

definition publish_one ::
  "post_env \<Rightarrow> 'm dtnetportal_coap_t \<Rightarrow> string \<Rightarrow> byte list \<Rightarrow> dterr \<times> coap_post list \<times> int" where
  "publish_one env self topic data =
     (if \<not> cp_context self \<or> \<not> cp_session self \<or> cp_publish_uri self = None then (Some DTERR_FAIL, [], 0)
      else if \<not> pe_pdu env then (Some DTERR_FAIL, [], 0)
      else if \<not> pe_path env then (Some DTERR_FAIL, [], 1)
      else if data \<noteq> [] \<and> \<not> pe_format env then (Some DTERR_FAIL, [], 1)
      else if \<not> pe_query env then (Some DTERR_FAIL, [], 1)
      else if \<not> pe_send env then (Some DTERR_FAIL, [], -1)
      else (None, [\<lparr>po_path = ''ingress'', po_octets = (data \<noteq> []),
                    po_query = take (length topic mod 65536) topic,
                    po_payload = (if pe_room env then data else [])\<rparr>], 0))"

datatype turn_result = TurnDone | TurnSent | TurnFailed errcode | TurnFault

text \<open>One turn of the loop of \<open>ioloop_publish_all\<close>: the buffer that was got, and the whole turn.\<close>

definition publish_buffer ::
  "post_env \<Rightarrow> buffer option \<Rightarrow> 'm dtnetportal_coap_t \<Rightarrow> coap_world \<Rightarrow> turn_result \<times> coap_world" where
  "publish_buffer env b self w =
     (case b of
        None \<Rightarrow> (TurnFailed DTERR_BADARG, w)
      | Some a \<Rightarrow>
          (case cw_heap w a of
             None \<Rightarrow> (TurnFault, w)
           | Some payload \<Rightarrow>
               (case pubwork_debuf (Some payload) of
                  None \<Rightarrow> (TurnFault, w)
                | Some (Inl e) \<Rightarrow> (TurnFailed e, w)
                | Some (Inr (topic, data)) \<Rightarrow>
                    (case publish_one env self topic data of
                       (e, posts, pdus) \<Rightarrow>
                         (case e of None \<Rightarrow> TurnSent | Some c \<Rightarrow> TurnFailed c,
                          w\<lparr>cw_heap := (cw_heap w)(a := None), cw_sent := cw_sent w @ posts,
                            cw_pdus := cw_pdus w + pdus\<rparr>)))))"

definition publish_next ::
  "errno option \<Rightarrow> post_env \<Rightarrow> 'm dtnetportal_coap_t \<Rightarrow> coap_world \<Rightarrow> turn_result \<times> 'm dtnetportal_coap_t \<times> coap_world" where
  "publish_next lock_rc env self w =
     (case cp_bufferqueue self of
        None \<Rightarrow> (TurnFailed DTERR_ASSERT, self, w)
      | Some q \<Rightarrow>
          (case dtbufferqueue_get lock_rc WaitNot True q of
             (r, q') \<Rightarrow>
               let self1 = self\<lparr>cp_bufferqueue := Some q'\<rparr> in
               (case r of
                  BqReturned (Some e) _ \<Rightarrow> (TurnFailed e, self1, w)
                | BqReturned None flag \<Rightarrow> (if flag = Some True then TurnDone else TurnFailed DTERR_BADARG, self1, w)
                | BqMoved _ b \<Rightarrow> (case publish_buffer env b self1 w of (t, w1) \<Rightarrow> (t, self1, w1))
                | BqAsleep \<Rightarrow> (TurnFault, self1, w)
                | BqFault \<Rightarrow> (TurnFault, self1, w))))"

text \<open>The loop, with libcoap's answers for each turn. \<open>None\<close>: it still runs when they run out.\<close>

fun publish_all ::
  "(errno option \<times> post_env) list \<Rightarrow> 'm dtnetportal_coap_t \<Rightarrow> coap_world
     \<Rightarrow> (turn_result \<times> 'm dtnetportal_coap_t \<times> coap_world) option" where
  "publish_all [] self w = None"
| "publish_all ((lock_rc, env) # envs) self w =
     (case publish_next lock_rc env self w of
        (TurnSent, self1, w1) \<Rightarrow> publish_all envs self1 w1
      | (r, self1, w1) \<Rightarrow> Some (r, self1, w1))"

text \<open>
  \<open>drain_pipe\<close>: the bytes left unread. Each answer says whether a signal interrupted the read; the
  descriptor does not block, so that a read of an empty pipe ends the loop.
\<close>

fun drain_pipe :: "bool list \<Rightarrow> nat \<Rightarrow> nat option" where
  "drain_pipe [] n = None"
| "drain_pipe (interrupted # ks) n =
     (if interrupted then drain_pipe ks n
      else if n = 0 then Some 0
      else drain_pipe ks (n - 256))"

section \<open>The callbacks\<close>

datatype coap_event = SessionConnected | DtlsConnected | TcpConnected | SessionClosed | DtlsClosed | TcpClosed | DtlsError | OtherEvent

text \<open>
  The cases are compiled only for the events that are macros: \<open>defined\<close>.
\<close>

definition coap_on_event :: "(coap_event \<Rightarrow> bool) \<Rightarrow> coap_event \<Rightarrow> 'm dtnetportal_coap_t \<Rightarrow> 'm dtnetportal_coap_t" where
  "coap_on_event macro ev self =
     (if \<not> macro ev then self
      else if ev \<in> {SessionConnected, DtlsConnected, TcpConnected} then self\<lparr>cp_is_connected := True\<rparr>
      else if ev \<in> {SessionClosed, DtlsClosed, TcpClosed, DtlsError} then self\<lparr>cp_is_connected := False\<rparr>
      else self)"

definition coap_on_response :: "'m dtnetportal_coap_t \<Rightarrow> 'm dtnetportal_coap_t" where
  "coap_on_response self = self\<lparr>cp_is_connected := True\<rparr>"

text \<open>
  A post for the ingress resource: the code of the response, 204 or 500. \<open>None\<close>: the query is NULL, or
  does not fit the 256 bytes of the topic, which the copy then overruns. \<open>wrap\<close> is \<open>dtbuffer_wrap\<close>.
\<close>

definition coap_on_post_topic ::
  "'m manifold \<Rightarrow> dterr \<Rightarrow> bool \<Rightarrow> string option \<Rightarrow> byte list \<Rightarrow> 'm dtnetportal_coap_t \<Rightarrow> (int \<times> 'm dtnetportal_coap_t) option" where
  "coap_on_post_topic mf wrap args_ok query data self =
     (if \<not> cp_manifold_set self \<or> \<not> args_ok then Some (500, self)
      else (case query of
              None \<Rightarrow> None
            | Some q \<Rightarrow>
                if 256 \<le> length q then None
                else if wrap \<noteq> None then Some (500, self)
                else (case mf_publish mf (cstr q) data (cp_manifold self) of
                        (e, m) \<Rightarrow> Some (if e = None then 204 else 500, self\<lparr>cp_manifold := m\<rparr>))))"

datatype coap_callback = CbResponse | CbEvent coap_event | CbPost dterr bool "string option" "byte list"

definition run_callback ::
  "'m manifold \<Rightarrow> (coap_event \<Rightarrow> bool) \<Rightarrow> coap_callback \<Rightarrow> 'm dtnetportal_coap_t \<Rightarrow> 'm dtnetportal_coap_t option" where
  "run_callback mf macro cb self =
     (case cb of
        CbResponse \<Rightarrow> Some (coap_on_response self)
      | CbEvent ev \<Rightarrow> Some (coap_on_event macro ev self)
      | CbPost wrap ok q d \<Rightarrow> map_option snd (coap_on_post_topic mf wrap ok q d self))"

fun run_callbacks ::
  "'m manifold \<Rightarrow> (coap_event \<Rightarrow> bool) \<Rightarrow> coap_callback list \<Rightarrow> 'm dtnetportal_coap_t \<Rightarrow> 'm dtnetportal_coap_t option" where
  "run_callbacks mf macro [] self = Some self"
| "run_callbacks mf macro (cb # cbs) self = Option.bind (run_callback mf macro cb self) (run_callbacks mf macro cbs)"

section \<open>The loop of the task\<close>

text \<open>
  What a round meets: the answer of \<open>select\<close> (which descriptors are ready), whether the stop was
  requested meanwhile, the reads of the pipe, the callbacks run by \<open>coap_io_process\<close> and its result,
  and the answers to the posts. A failed \<open>select\<close> leaves both descriptors in the set.
\<close>

datatype select_answer = SelReady bool bool | SelError errno

record round_env =
  re_select :: select_answer
  re_stop :: bool
  re_reads :: "bool list"
  re_callbacks :: "coap_callback list"
  re_io :: int
  re_posts :: "(errno option \<times> post_env) list"

datatype loop_result = LoopAgain | LoopExit dterr | LoopFault

definition ready_flags :: "select_answer \<Rightarrow> bool \<times> bool" where
  "ready_flags s = (case s of SelReady wake coap \<Rightarrow> (wake, coap) | SelError _ \<Rightarrow> (True, True))"

definition drain_wake :: "round_env \<Rightarrow> 'm dtnetportal_coap_t \<Rightarrow> coap_world \<Rightarrow> coap_world option" where
  "drain_wake env self w =
     (let fd = snd (cp_wake_pipe self) in
      if fst (ready_flags (re_select env))
      then map_option (\<lambda>n. w\<lparr>cw_unread := (cw_unread w)(fd := n)\<rparr>) (drain_pipe (re_reads env) (cw_unread w fd))
      else Some w)"

text \<open>A round; \<open>None\<close>: it still runs when the answers run out.\<close>

definition ioloop_round ::
  "'m manifold \<Rightarrow> (coap_event \<Rightarrow> bool) \<Rightarrow> round_env \<Rightarrow> 'm dtnetportal_coap_t \<Rightarrow> coap_world
     \<Rightarrow> (loop_result \<times> 'm dtnetportal_coap_t \<times> coap_world) option" where
  "ioloop_round mf macro env self0 w =
     (let self = (if re_stop env then self0\<lparr>cp_ioloop_should_stop := 2\<rparr> else self0) in
      if (case re_select env of SelError e \<Rightarrow> e \<noteq> EAGAIN | _ \<Rightarrow> False) then Some (LoopExit (Some DTERR_FAIL), self, w)
      else if cp_ioloop_should_stop self \<noteq> 0 then Some (LoopExit None, self, w)
      else (case drain_wake env self w of
              None \<Rightarrow> None
            | Some w1 \<Rightarrow>
                (case (if snd (ready_flags (re_select env)) then run_callbacks mf macro (re_callbacks env) self else Some self) of
                   None \<Rightarrow> Some (LoopFault, self, w1)
                 | Some self1 \<Rightarrow>
                     if snd (ready_flags (re_select env)) \<and> re_io env < 0
                     then Some (LoopExit (Some DTERR_FAIL), self1, w1)
                     else map_option
                            (\<lambda>(t, s, w2). (case t of TurnFailed e \<Rightarrow> LoopExit (Some e) | TurnFault \<Rightarrow> LoopFault
                                              | TurnDone \<Rightarrow> LoopAgain | TurnSent \<Rightarrow> LoopAgain, s, w2))
                            (publish_all (re_posts env) self1 w1))))"

fun ioloop_rounds ::
  "'m manifold \<Rightarrow> (coap_event \<Rightarrow> bool) \<Rightarrow> round_env list \<Rightarrow> 'm dtnetportal_coap_t \<Rightarrow> coap_world
     \<Rightarrow> (loop_result \<times> 'm dtnetportal_coap_t \<times> coap_world) option" where
  "ioloop_rounds mf macro [] self w = (if cp_ioloop_should_stop self \<noteq> 0 then Some (LoopExit None, self, w) else None)"
| "ioloop_rounds mf macro (env # envs) self w =
     (if cp_ioloop_should_stop self \<noteq> 0 then Some (LoopExit None, self, w)
      else (case ioloop_round mf macro env self w of
              None \<Rightarrow> None
            | Some (LoopAgain, self1, w1) \<Rightarrow> ioloop_rounds mf macro envs self1 w1
            | Some r \<Rightarrow> Some r))"

text \<open>The entry point; \<open>ready\<close> is the answer of \<open>dttasker_ready\<close>.\<close>

definition ioloop_entrypoint ::
  "'m manifold \<Rightarrow> (coap_event \<Rightarrow> bool) \<Rightarrow> int \<Rightarrow> dterr \<Rightarrow> round_env list \<Rightarrow> 'm dtnetportal_coap_t \<Rightarrow> coap_world
     \<Rightarrow> (loop_result \<times> 'm dtnetportal_coap_t \<times> coap_world) option" where
  "ioloop_entrypoint mf macro coap_fd ready envs self w =
     (if coap_fd = -1 then Some (LoopExit (Some DTERR_FAIL), self, w)
      else if ready \<noteq> None then Some (LoopExit ready, self, w)
      else ioloop_rounds mf macro envs self w)"

section \<open>Disposal\<close>

text \<open>
  What \<open>dispose\<close> does, in order, and what is left of the object. \<open>RelStopTask\<close> sets the stop flag,
  wakes the task and sleeps for a millisecond; it does not wait for the task to end.
\<close>

datatype coap_release =
    RelStopTask | RelClosePipe | RelTasker | RelResource | RelPath | RelUri | RelSession
  | RelManifold | RelSemaphore | RelQueue | RelMemory

definition coap_dispose ::
  "'m \<Rightarrow> 'm dtnetportal_coap_t option \<Rightarrow> coap_release list \<times> 'm dtnetportal_coap_t option" where
  "coap_dispose m0 self =
     (case self of
        None \<Rightarrow> ([], None)
      | Some s \<Rightarrow>
          ((if cp_context s \<and> cp_ioloop_tasker s \<noteq> None then [RelStopTask] else []) @
           (if cp_wake_pipe_ok s then [RelClosePipe] else []) @ [RelTasker] @
           (if cp_resource s then [RelResource] else []) @ (if cp_resource_path s then [RelPath] else []) @
           (if cp_publish_uri s \<noteq> None then [RelUri] else []) @ (if cp_session s then [RelSession] else []) @
           [RelManifold, RelSemaphore, RelQueue] @ (if cp_is_malloced s then [RelMemory] else []),
           if cp_is_malloced s then None else Some (coap_zero m0 0)))"

end
