(* ===== verification/CoapSystem.thy ===== *)
theory CoapSystem
  imports Coap "HOL-Library.Multiset"
begin

text \<open>
  The publishers and the task of the CoAP portal: packing and unpacking, the order of what is
  posted, the wakeups, and what a post is to the portal that receives it.
\<close>

section \<open>Packing\<close>

definition packed :: "string \<Rightarrow> byte list \<Rightarrow> byte list" where
  "packed topic data = bytes_of topic @ [0] @ data"

text \<open>\<open>dtbuffer_create\<close> answers an error or a payload of the size asked for.\<close>

definition create_ok :: "(int \<Rightarrow> errcode + byte list) \<Rightarrow> bool" where
  "create_ok create \<longleftrightarrow> (\<forall>n p. create (int n) = Inr p \<longrightarrow> length p = n)"

definition sample_create :: "int \<Rightarrow> errcode + byte list" where
  "sample_create n = Inr (replicate (nat n) 0)"

lemma sample_create_ok: "create_ok sample_create"
  by (simp add: create_ok_def sample_create_def)

lemma enbuf_packed:
  assumes "create_ok create" "pubwork_enbuf create topic data = Inr buf"
  shows "buf = packed topic data"
proof -
  let ?n = "length topic + 1 + length data"
  from assms(2) obtain p where p: "create (int ?n) = Inr p"
      "buf = overwrite (length topic + 1) data (overwrite 0 (bytes_of topic @ [0]) p)"
    by (auto simp: pubwork_enbuf_def Let_def simp del: of_nat_add of_nat_Suc split: sum.splits)
  have "length p = ?n" using assms(1) p(1) unfolding create_ok_def by blast
  then show ?thesis using p(2) by (simp add: packed_def overwrite_def)
qed

lemma of_char_nat_less: "of_char c < (256 :: nat)"
  by (rule nat_of_char_less_256)

lemma unat_of_char [simp]: "unat (of_char c :: byte) = of_char c"
proof -
  have "(of_char c :: byte) = word_of_nat (of_char c)" by (simp add: of_nat_of_char)
  then show ?thesis using of_char_nat_less [of c] by (simp add: unat_of_nat)
qed

lemma of_char_zero: "(of_char c :: byte) = 0 \<longleftrightarrow> c = NUL"
proof
  assume "(of_char c :: byte) = 0"
  then have "of_char c = (of_char NUL :: nat)" using unat_of_char [of c] by simp
  then show "c = NUL" unfolding of_char_eq_iff .
qed simp

lemma debuf_packed:
  assumes "NUL \<notin> set topic"
  shows "pubwork_debuf (Some (packed topic data)) =
    Some (if topic = [] \<and> data = [] then Inl DTERR_BADARG else Inr (topic, data))"
proof -
  have "\<forall>x \<in> set (bytes_of topic). x \<noteq> 0" using assms by (auto simp: bytes_of_def of_char_zero)
  then have "takeWhile (\<lambda>x. x \<noteq> 0) (packed topic data) = bytes_of topic"
    by (simp add: packed_def takeWhile_append)
  then show ?thesis
    by (auto simp: pubwork_debuf_def packed_def Let_def bytes_of_def comp_def)
qed


text \<open>
  What the task takes out of a buffer is what the publisher packed into it, for every topic
  and all data but the empty publication on the empty topic, which is packed and then refused.
\<close>

theorem coap_pubwork_roundtrip:
  assumes "create_ok create" "NUL \<notin> set topic" "pubwork_enbuf create topic data = Inr buf"
  shows "pubwork_debuf (Some buf) = Some (if topic = [] \<and> data = [] then Inl DTERR_BADARG else Inr (topic, data))"
  unfolding enbuf_packed [OF assms(1,3)] by (rule debuf_packed [OF assms(2)])

theorem coap_pubwork_roundtrip_witness:
  "pubwork_debuf (Some [116, 0, 7, 0]) = Some (Inr (''t'', [7, 0]))"
proof -
  have "pubwork_enbuf sample_create ''t'' [7, 0] = Inr [116, 0, 7, 0]"
    by (simp add: pubwork_enbuf_def sample_create_def overwrite_def bytes_of_def numeral_eq_Suc)
  with coap_pubwork_roundtrip [OF sample_create_ok, of "''t''" "[7, 0]"] show ?thesis by simp
qed

section \<open>The queue of the portal\<close>

lemma pub_put_cases:
  assumes "bq_valid q" "pub_queued (dtbufferqueue_put lock_rc WaitForever False (Some b) q) self = (r, self')"
  obtains q' where "self' = self\<lparr>cp_bufferqueue := Some q'\<rparr>" "bq_valid q'"
    "if r = PubQueued then bq_items q' = bq_items q @ [Some b] else q' = q \<and> r \<noteq> PubFault"
proof (cases "lock_rc = None \<and> \<not> bq_full q")
  case True
  then have "length (bq_items q) < nat (bq_max_count q)"
    using assms(1) bq_full_iff [OF assms(1)] by (auto simp: bq_valid_def)
  from bq_enqueue_valid [OF assms(1) this, of "Some b"] obtain q'
    where "bq_enqueue (Some b) q = Some q'" "bq_valid q'" "bq_items q' = bq_items q @ [Some b]" by blast
  with True assms(2) show ?thesis
    by (intro that [of q']) (auto simp: pub_queued_def dtbufferqueue_put_def bq_do_put_def)
next
  case False
  with assms show ?thesis
    by (intro that [of q]) (auto simp: pub_queued_def dtbufferqueue_put_def split: if_splits)
qed

lemma pub_woken_cases:
  assumes "bq_valid q" "pub_queued (dtbufferqueue_put_resume rc WaitForever False b q) self = (r, self')"
  obtains q' where "self' = self\<lparr>cp_bufferqueue := Some q'\<rparr>" "bq_valid q'"
    "if r = PubQueued then bq_items q' = bq_items q @ [Some b] else q' = q \<and> r \<noteq> PubFault"
proof (cases "rc = None")
  case True
  then have "dtbufferqueue_put_resume rc WaitForever False b q = dtbufferqueue_put None WaitForever False (Some b) q"
    by (simp add: dtbufferqueue_put_resume_def dtbufferqueue_put_def)
  with assms show ?thesis by (auto intro: that elim: pub_put_cases)
next
  case False
  with assms show ?thesis
    by (intro that [of q]) (auto simp: pub_queued_def dtbufferqueue_put_resume_def split: if_splits)
qed

lemma get_cases:
  assumes "bq_valid q" "dtbufferqueue_get lock_rc WaitNot True q = (r, q')"
  obtains (failed) e f where "r = BqReturned (Some e) f" "q' = q"
  | (empty) "r = BqReturned None (Some True)" "q' = q" "bq_items q = []"
  | (moved) f b where "r = BqMoved f b" "bq_valid q'" "bq_items q = b # bq_items q'"
proof (cases "bq_items q = []")
  case True
  then have "bq_count q = 0" by (simp add: bq_items_empty)
  with assms True show ?thesis
    by (auto simp: dtbufferqueue_get_def set_flag_def split: if_splits intro: failed empty)
next
  case False
  then have pos: "0 < bq_count q" by (simp add: bq_items_empty word_gt_0)
  from bq_dequeue_valid [OF assms(1) False] obtain q1
    where q1: "bq_dequeue q = Some (hd (bq_items q), q1)" "bq_valid q1" "bq_items q1 = tl (bq_items q)" by blast
  show ?thesis
  proof (cases "lock_rc = None")
    case True
    with assms(2) pos q1(1) have "r = BqMoved (set_flag True False) (hd (bq_items q))" "q' = q1"
      by (auto simp: dtbufferqueue_get_def bq_do_get_def)
    with q1 False show ?thesis by (auto intro: moved)
  next
    case False
    with assms(2) show ?thesis by (auto simp: dtbufferqueue_get_def intro: failed)
  qed
qed


section \<open>The publishers and the task\<close>

text \<open>
  Where the task is: in or before \<open>select\<close>, behind it (with what it said of the pipe), in the loop
  that posts what is queued, or gone.
\<close>

datatype loop_phase = Selecting | Woken bool | Publishing | Ended

text \<open>
  The portal and the world with the task's phase, the publishers asleep in a put (with their
  buffers, topics and data), the number of publishers between their put and their byte, and all
  publications that were queued.
\<close>

record 'm coap_system =
  cy_portal :: "'m dtnetportal_coap_t"
  cy_world :: coap_world
  cy_loop :: loop_phase
  cy_asleep :: "(buffer \<times> string \<times> byte list) list"
  cy_writers :: nat
  cy_ins :: "(string \<times> byte list) list"

definition after_put ::
  "pub_result \<Rightarrow> (buffer \<times> string \<times> byte list) \<Rightarrow> 'm coap_system \<Rightarrow> 'm coap_system" where
  "after_put r e y =
     (case r of
        PubQueued \<Rightarrow> y\<lparr>cy_writers := Suc (cy_writers y), cy_ins := cy_ins y @ [snd e]\<rparr>
      | PubAsleep \<Rightarrow> y\<lparr>cy_asleep := e # cy_asleep y\<rparr>
      | _ \<Rightarrow> y)"

text \<open>
  A new buffer is at an address that is not in use. The pipe is ready when it has unread bytes; a
  \<open>select\<close> that is interrupted without an end of the task reports both descriptors. The callbacks
  run between \<open>select\<close> and the posts.
\<close>

inductive coap_step :: "'m manifold \<Rightarrow> (coap_event \<Rightarrow> bool) \<Rightarrow> 'm coap_system \<Rightarrow> 'm coap_system \<Rightarrow> bool"
  for mf :: "'m manifold" and macro :: "coap_event \<Rightarrow> bool" where
  put: "create_ok create \<Longrightarrow> NUL \<notin> set t \<Longrightarrow> cw_heap (cy_world y) b = None \<Longrightarrow>
     coap_publish_put create lock_rc b t d (cy_portal y) (cy_world y) = (r, p, w) \<Longrightarrow>
     coap_step mf macro y (after_put r (b, t, d) (y\<lparr>cy_portal := p, cy_world := w\<rparr>))"
| woken: "(b, t, d) \<in> set (cy_asleep y) \<Longrightarrow> coap_publish_woken rc b (cy_portal y) = (r, p) \<Longrightarrow>
     coap_step mf macro y (after_put r (b, t, d) (y\<lparr>cy_portal := p, cy_asleep := remove1 (b, t, d) (cy_asleep y)\<rparr>))"
| wake: "cy_writers y = Suc n \<Longrightarrow>
     coap_step mf macro y (y\<lparr>cy_world := coap_wake (cy_portal y) (cy_world y), cy_writers := n\<rparr>)"
| select: "cy_loop y = Selecting \<Longrightarrow> (wake \<longleftrightarrow> 0 < cw_unread (cy_world y) (snd (cp_wake_pipe (cy_portal y)))) \<Longrightarrow>
     wake \<or> coap \<Longrightarrow> coap_step mf macro y (y\<lparr>cy_loop := Woken (fst (ready_flags (SelReady wake coap)))\<rparr>)"
| interrupted: "cy_loop y = Selecting \<Longrightarrow>
     coap_step mf macro y (y\<lparr>cy_loop := Woken (fst (ready_flags (SelError EAGAIN)))\<rparr>)"
| drain: "cy_loop y = Woken wake \<Longrightarrow> fst (ready_flags (re_select env)) = wake \<Longrightarrow>
     drain_wake env (cy_portal y) (cy_world y) = Some w \<Longrightarrow>
     coap_step mf macro y (y\<lparr>cy_world := w, cy_loop := Publishing\<rparr>)"
| callback: "run_callback mf macro cb (cy_portal y) = Some p \<Longrightarrow> coap_step mf macro y (y\<lparr>cy_portal := p\<rparr>)"
| turn: "cy_loop y = Publishing \<Longrightarrow> publish_next lock_rc env (cy_portal y) (cy_world y) = (r, p, w) \<Longrightarrow>
     coap_step mf macro y (y\<lparr>cy_portal := p, cy_world := w,
       cy_loop := (case r of TurnDone \<Rightarrow> Selecting | TurnSent \<Rightarrow> Publishing | _ \<Rightarrow> Ended)\<rparr>)"
| ends: "coap_step mf macro y (y\<lparr>cy_loop := Ended\<rparr>)"

text \<open>An activated portal with an empty queue, whose task has just become ready.\<close>

definition coap_start :: "'m dtnetportal_coap_t \<Rightarrow> coap_world \<Rightarrow> 'm coap_system" where
  "coap_start self w = \<lparr>cy_portal = self, cy_world = w, cy_loop = Selecting, cy_asleep = [], cy_writers = 0, cy_ins = []\<rparr>"

definition start_ok :: "'m dtnetportal_coap_t \<Rightarrow> coap_world \<Rightarrow> bool" where
  "start_ok self w \<longleftrightarrow> (\<exists>q. cp_bufferqueue self = Some q \<and> bq_valid q \<and> bq_items q = []) \<and> cw_sent w = []"

section \<open>The order of the posts\<close>

text \<open>
  What a post has of a publication: the topic, its length cut to 16 bits, and the data, unless the
  PDU had no room for it.
\<close>

definition carries :: "coap_post \<Rightarrow> string \<times> byte list \<Rightarrow> bool" where
  "carries post td \<longleftrightarrow> po_query post = take (length (fst td) mod 65536) (fst td) \<and>
     (po_payload post = snd td \<or> po_payload post = [])"

definition holds :: "(buffer \<Rightarrow> byte list option) \<Rightarrow> buffer \<Rightarrow> string \<times> byte list \<Rightarrow> bool" where
  "holds heap b td \<longleftrightarrow> heap b = Some (packed (fst td) (snd td)) \<and> NUL \<notin> set (fst td)"

text \<open>
  The invariant, over the buffers \<open>bs\<close> that are queued: they and those of the sleepers are distinct
  and hold publications; the first \<open>k\<close> publications were posted in their order, those from \<open>j\<close> on are
  queued, and while the task runs \<open>j = k\<close>.
\<close>

definition coap_inv :: "'m coap_system \<Rightarrow> dtbufferqueue_t \<Rightarrow> buffer list \<Rightarrow> nat \<Rightarrow> nat \<Rightarrow> bool" where
  "coap_inv y q bs k j \<longleftrightarrow>
     cp_bufferqueue (cy_portal y) = Some q \<and> bq_valid q \<and> bq_items q = map Some bs \<and>
     distinct (bs @ map fst (cy_asleep y)) \<and>
     k \<le> j \<and> j \<le> length (cy_ins y) \<and> (cy_loop y \<noteq> Ended \<longrightarrow> j = k) \<and>
     list_all2 carries (cw_sent (cy_world y)) (take k (cy_ins y)) \<and>
     list_all2 (holds (cw_heap (cy_world y))) bs (drop j (cy_ins y)) \<and>
     list_all (\<lambda>(b, td). holds (cw_heap (cy_world y)) b td) (cy_asleep y)"

lemma holds_upd: "heap b = None \<or> b \<noteq> a \<Longrightarrow> holds heap a td \<Longrightarrow> holds (heap(b := x)) a td"
  by (auto simp: holds_def)

lemma coap_inv_loop: "coap_inv y q bs k j \<Longrightarrow> l = Ended \<or> cy_loop y \<noteq> Ended \<Longrightarrow> coap_inv (y\<lparr>cy_loop := l\<rparr>) q bs k j"
  by (auto simp: coap_inv_def)

lemma coap_inv_world:
  "coap_inv y q bs k j \<Longrightarrow> cw_heap w = cw_heap (cy_world y) \<Longrightarrow> cw_sent w = cw_sent (cy_world y) \<Longrightarrow>
     coap_inv (y\<lparr>cy_world := w\<rparr>) q bs k j"
  by (simp add: coap_inv_def)

lemma coap_inv_portal:
  "coap_inv y q bs k j \<Longrightarrow> cp_bufferqueue p = cp_bufferqueue (cy_portal y) \<Longrightarrow> coap_inv (y\<lparr>cy_portal := p\<rparr>) q bs k j"
  by (simp add: coap_inv_def)


lemma inv_parts:
  assumes "coap_inv y q bs k j"
  shows "cp_bufferqueue (cy_portal y) = Some q" "bq_valid q" "bq_items q = map Some bs"
    and "distinct (bs @ map fst (cy_asleep y))" "k \<le> j" "j \<le> length (cy_ins y)" "cy_loop y \<noteq> Ended \<Longrightarrow> j = k"
    and "list_all2 carries (cw_sent (cy_world y)) (take k (cy_ins y))"
    and "list_all2 (holds (cw_heap (cy_world y))) bs (drop j (cy_ins y))"
    and "list_all (\<lambda>(b, td). holds (cw_heap (cy_world y)) b td) (cy_asleep y)"
  using assms unfolding coap_inv_def by blast+

lemma inv_holds:
  assumes "coap_inv y q bs k j" "b \<in> set (bs @ map fst (cy_asleep y))"
  shows "\<exists>td. holds (cw_heap (cy_world y)) b td"
proof (cases "b \<in> set bs")
  case True
  with inv_parts(9) [OF assms(1)] show ?thesis unfolding list_all2_conv_all_nth in_set_conv_nth by blast
next
  case False
  with assms(2) obtain td where "(b, td) \<in> set (cy_asleep y)" by auto
  with inv_parts(10) [OF assms(1)] have "holds (cw_heap (cy_world y)) b td" unfolding list_all_iff by blast
  then show ?thesis ..
qed

lemma inv_put:
  assumes inv: "coap_inv y q bs k j"
    and q': "if r = PubQueued then bq_items q' = bq_items q @ [Some b] else q' = q"
    and new: "bq_valid q'" "cp_bufferqueue p = Some q'" "cw_sent w = cw_sent (cy_world y)"
    and heap: "\<And>a td. holds (cw_heap (cy_world y)) a td \<Longrightarrow> holds (cw_heap w) a td"
    and b: "holds (cw_heap w) b td" "b \<notin> set (bs @ map fst (cy_asleep y))"
  shows "\<exists>bs'. coap_inv (after_put r (b, td) (y\<lparr>cy_portal := p, cy_world := w\<rparr>)) q' bs' k j"
proof -
  let ?y = "y\<lparr>cy_portal := p, cy_world := w\<rparr>"
  have bs: "list_all2 (holds (cw_heap w)) bs (drop j (cy_ins y))"
    by (rule list_all2_mono [OF inv_parts(9) [OF inv] heap])
  have sl: "list_all (\<lambda>(b, td). holds (cw_heap w) b td) (cy_asleep y)"
    using inv_parts(10) [OF inv] heap unfolding list_all_iff by blast
  show ?thesis
  proof (cases "r = PubQueued")
    case True
    then have "coap_inv (after_put r (b, td) ?y) q' (bs @ [b]) k j"
      using inv q' new b sl list_all2_appendI [OF bs, of "[b]" "[td]"]
      by (auto simp: coap_inv_def after_put_def)
    then show ?thesis ..
  next
    case False
    then have "coap_inv (after_put r (b, td) ?y) q' bs k j"
      using inv q' new b bs sl
      by (auto simp: coap_inv_def after_put_def split: pub_result.splits)
    then show ?thesis ..
  qed
qed

lemma inv_fresh:
  "coap_inv y q bs k j \<Longrightarrow> cw_heap (cy_world y) b = None \<Longrightarrow> b \<notin> set (bs @ map fst (cy_asleep y))"
  by (metis holds_def inv_holds option.distinct(1))

lemma inv_publish_put:
  assumes inv: "coap_inv y q bs k j" and ok: "create_ok create" "NUL \<notin> set t"
    and b: "cw_heap (cy_world y) b = None"
    and put: "coap_publish_put create lock_rc b t d (cy_portal y) (cy_world y) = (r, p, w)"
  shows "\<exists>q' bs'. coap_inv (after_put r (b, t, d) (y\<lparr>cy_portal := p, cy_world := w\<rparr>)) q' bs' k j"
proof (cases "pubwork_enbuf create t d")
  case (Inl e)
  with put have "after_put r (b, t, d) (y\<lparr>cy_portal := p, cy_world := w\<rparr>) = y"
    by (auto simp: coap_publish_put_def after_put_def)
  with inv show ?thesis by auto
next
  case (Inr buf)
  have buf: "buf = packed t d" using enbuf_packed [OF ok(1) Inr] .
  let ?w = "(cy_world y)\<lparr>cw_heap := (cw_heap (cy_world y))(b := Some buf)\<rparr>"
  have q: "cp_bufferqueue (cy_portal y) = Some q" "bq_valid q" using inv_parts(1,2) [OF inv] .
  from put Inr q(1) have w: "w = ?w"
    and pub: "pub_queued (dtbufferqueue_put lock_rc WaitForever False (Some b) q) (cy_portal y) = (r, p)"
    by (auto simp: coap_publish_put_def Let_def split: prod.splits)
  from pub_put_cases [OF q(2) pub] obtain q' where q': "p = (cy_portal y)\<lparr>cp_bufferqueue := Some q'\<rparr>" "bq_valid q'"
    "if r = PubQueued then bq_items q' = bq_items q @ [Some b] else q' = q"
    by (metis (full_types))
  have "\<exists>bs'. coap_inv (after_put r (b, t, d) (y\<lparr>cy_portal := p, cy_world := w\<rparr>)) q' bs' k j"
  proof (rule inv_put [OF inv q'(3,2)])
    show "holds (cw_heap w) a td" if "holds (cw_heap (cy_world y)) a td" for a td
      using holds_upd [OF _ that, of b "Some buf"] b by (simp add: w)
  qed (use inv_fresh [OF inv b] buf ok(2) in \<open>simp_all add: w q'(1) holds_def\<close>)
  then show ?thesis ..
qed

lemma inv_publish_woken:
  assumes inv: "coap_inv y q bs k j" and e: "(b, t, d) \<in> set (cy_asleep y)"
    and put: "coap_publish_woken rc b (cy_portal y) = (r, p)"
  shows "\<exists>q' bs'. coap_inv (after_put r (b, t, d) (y\<lparr>cy_portal := p, cy_asleep := remove1 (b, t, d) (cy_asleep y)\<rparr>)) q' bs' k j"
proof -
  let ?y = "y\<lparr>cy_asleep := remove1 (b, t, d) (cy_asleep y)\<rparr>"
  have q: "cp_bufferqueue (cy_portal y) = Some q" "bq_valid q" using inv_parts(1,2) [OF inv] .
  have dist: "distinct (map fst (cy_asleep y))" "set bs \<inter> set (map fst (cy_asleep y)) = {}" "distinct bs"
    using inv_parts(4) [OF inv] by auto
  have split: "mset (map fst (cy_asleep y)) = mset (b # map fst (cy_asleep ?y))"
    using e by simp (metis fst_conv image_mset_add_mset insert_DiffM set_mset_mset)
  then have dist': "distinct (b # map fst (cy_asleep ?y))" using dist(1) by (metis mset_eq_imp_distinct_iff)
  have sub: "set (cy_asleep ?y) \<subseteq> set (cy_asleep y)" by (simp add: set_remove1_subset)
  have disj: "set bs \<inter> set (map fst (cy_asleep ?y)) = {}" using dist(2) sub by auto
  have inv': "coap_inv ?y q bs k j"
    unfolding coap_inv_def
  proof (intro conjI)
    show "distinct (bs @ map fst (cy_asleep ?y))" using dist(3) dist' disj by simp
    show "list_all (\<lambda>(b, td). holds (cw_heap (cy_world ?y)) b td) (cy_asleep ?y)"
      using inv_parts(10) [OF inv] sub by (auto simp: list_all_iff)
  qed (use inv_parts [OF inv] in simp_all)
  have "b \<in> set (map fst (cy_asleep y))" using e by force
  then have b: "b \<notin> set (bs @ map fst (cy_asleep ?y))" using dist(2) dist' by auto
  from put q(1) have "pub_queued (dtbufferqueue_put_resume rc WaitForever False b q) (cy_portal y) = (r, p)"
    by (simp add: coap_publish_woken_def)
  from pub_woken_cases [OF q(2) this] obtain q' where q': "p = (cy_portal y)\<lparr>cp_bufferqueue := Some q'\<rparr>" "bq_valid q'"
    "if r = PubQueued then bq_items q' = bq_items q @ [Some b] else q' = q"
    by (metis (full_types))
  have h: "holds (cw_heap (cy_world y)) b (t, d)" using inv_parts(10) [OF inv] e unfolding list_all_iff by blast
  have y: "?y\<lparr>cy_portal := p, cy_world := cy_world ?y\<rparr> =
      y\<lparr>cy_portal := p, cy_asleep := remove1 (b, t, d) (cy_asleep y)\<rparr>" by simp
  have "\<exists>bs'. coap_inv (after_put r (b, t, d) (?y\<lparr>cy_portal := p, cy_world := cy_world ?y\<rparr>)) q' bs' k j"
    by (rule inv_put [OF inv' q'(3,2)]) (use h b q'(1) in simp_all)
  then show ?thesis unfolding y by blast
qed

lemma inv_got:
  assumes inv: "coap_inv y q bs k j" and run: "cy_loop y \<noteq> Ended"
    and q': "bq_valid q'" "bq_items q = b # bq_items q'"
  obtains a bs' t d where "b = Some a" "bs = a # bs'" "cw_heap (cy_world y) a = Some (packed t d)" "NUL \<notin> set t"
    "drop k (cy_ins y) = (t, d) # drop (Suc k) (cy_ins y)" "k < length (cy_ins y)" "j = k"
    "a \<notin> set (bs' @ map fst (cy_asleep y))"
proof -
  have j: "j = k" using inv_parts(7) [OF inv run] .
  from inv_parts(3) [OF inv] q'(2) obtain a bs' where a: "b = Some a" "bs = a # bs'" by (cases bs) auto
  from inv_parts(9) [OF inv] a(2) j obtain td where td: "drop k (cy_ins y) = td # drop (Suc k) (cy_ins y)"
      "holds (cw_heap (cy_world y)) a td"
    by (auto simp: list_all2_Cons1 drop_Suc tl_drop) (metis list.sel(3) tl_drop)
  have "k < length (cy_ins y)" using td(1) by (metis drop_eq_Nil linorder_not_le list.distinct(1))
  with a td j inv_parts(4) [OF inv] show ?thesis
    by (intro that [of a bs' "fst td" "snd td"]) (auto simp: holds_def)
qed

lemma publish_one_posts:
  "publish_one env self t d = (e, posts, n) \<Longrightarrow>
     (if e = None then \<exists>post. posts = [post] \<and> carries post (t, d) else posts = [])"
  by (auto simp: publish_one_def carries_def split: if_splits)

text \<open>A buffer that was got is gone from the queue; whatever is posted is the next publication.\<close>

lemma inv_taken:
  assumes inv: "coap_inv y q bs k j" and run: "cy_loop y \<noteq> Ended"
    and bs: "bs = a # bs'" "bq_valid q'" "bq_items q = Some a # bq_items q'"
    and ins: "drop k (cy_ins y) = td # drop (Suc k) (cy_ins y)" "k < length (cy_ins y)"
    and p: "cp_bufferqueue p = Some q'"
    and heap: "\<And>b. b \<noteq> a \<Longrightarrow> cw_heap w b = cw_heap (cy_world y) b"
    and sent: "cw_sent w = cw_sent (cy_world y) @ posts"
      "if l = Ended then posts = [] \<or> (\<exists>post. posts = [post] \<and> carries post td) else \<exists>post. posts = [post] \<and> carries post td"
  shows "\<exists>k j. coap_inv (y\<lparr>cy_portal := p, cy_world := w, cy_loop := l\<rparr>) q' bs' k j"
proof -
  let ?y = "y\<lparr>cy_portal := p, cy_world := w, cy_loop := l\<rparr>"
  have j: "j = k" using inv_parts(7) [OF inv run] .
  have dist: "a \<notin> set (bs' @ map fst (cy_asleep y))" "distinct (bs' @ map fst (cy_asleep y))"
    using inv_parts(4) [OF inv] bs(1) by auto
  have keep: "holds (cw_heap w) b x" if "holds (cw_heap (cy_world y)) b x" "b \<noteq> a" for b x
    using that heap [of b] by (simp add: holds_def)
  have bs'': "list_all2 (holds (cw_heap w)) bs' (drop (Suc k) (cy_ins y))"
  proof -
    have "list_all2 (holds (cw_heap (cy_world y))) bs' (drop (Suc k) (cy_ins y))"
      using inv_parts(9) [OF inv] unfolding j bs(1) ins(1) by simp
    then show ?thesis using dist(1) keep by (auto elim!: list.rel_mono_strong)
  qed
  have sl: "list_all (\<lambda>(b, td). holds (cw_heap w) b td) (cy_asleep y)"
    using inv_parts(10) [OF inv] dist(1) keep by (force simp: list_all_iff)
  have items: "bq_items q' = map Some bs'" using inv_parts(3) [OF inv] bs(1,3) by simp
  have take: "take (Suc k) (cy_ins y) = take k (cy_ins y) @ [td]"
    using ins by (metis hd_drop_conv_nth list.sel(1) take_Suc_conv_app_nth)
  have old: "list_all2 carries (cw_sent (cy_world y)) (take k (cy_ins y))" using inv_parts(8) [OF inv] .
  consider (posted) post where "posts = [post]" "carries post td" | (lost) "l = Ended" "posts = []"
    using sent(2) by (auto split: if_splits)
  then show ?thesis
  proof cases
    case posted
    have "list_all2 carries (cw_sent w) (take (Suc k) (cy_ins y))"
      unfolding take sent(1) posted(1) using old posted(2) by (intro list_all2_appendI) simp_all
    then have "coap_inv ?y q' bs' (Suc k) (Suc k)"
      using bs(2) p items dist(2) ins(2) bs'' sl by (simp add: coap_inv_def)
    then show ?thesis by blast
  next
    case lost
    then have "coap_inv ?y q' bs' k (Suc k)"
      using bs(2) p items dist(2) ins(2) bs'' sl old sent(1) by (simp add: coap_inv_def)
    then show ?thesis by blast
  qed
qed


lemma inv_turn:
  assumes inv: "coap_inv y q bs k j" and run: "cy_loop y \<noteq> Ended"
    and next_turn: "publish_next lock_rc env (cy_portal y) (cy_world y) = (r, p, w)"
  shows "r \<noteq> TurnFault"
    and "\<exists>q bs k j. coap_inv (y\<lparr>cy_portal := p, cy_world := w,
      cy_loop := (case r of TurnDone \<Rightarrow> Selecting | TurnSent \<Rightarrow> Publishing | _ \<Rightarrow> Ended)\<rparr>) q bs k j"
proof -
  let ?l = "case r of TurnDone \<Rightarrow> Selecting | TurnSent \<Rightarrow> Publishing | _ \<Rightarrow> Ended"
  have q: "cp_bufferqueue (cy_portal y) = Some q" "bq_valid q" using inv_parts(1,2) [OF inv] .
  obtain rq q' where get: "dtbufferqueue_get lock_rc WaitNot True q = (rq, q')" by force
  let ?p = "(cy_portal y)\<lparr>cp_bufferqueue := Some q'\<rparr>"
  have "r \<noteq> TurnFault \<and> (\<exists>q bs k j. coap_inv (y\<lparr>cy_portal := p, cy_world := w, cy_loop := ?l\<rparr>) q bs k j)"
    using q(2) get
  proof (cases rule: get_cases)
    case (failed e f)
    with next_turn q(1) get have "p = cy_portal y" "w = cy_world y" "r = TurnFailed e"
      by (auto simp: publish_next_def)
    with coap_inv_loop [OF inv, of Ended] show ?thesis by auto
  next
    case empty
    with next_turn q(1) get have "p = cy_portal y" "w = cy_world y" "r = TurnDone"
      by (auto simp: publish_next_def)
    with coap_inv_loop [OF inv, of Selecting] run show ?thesis by auto
  next
    case (moved f b)
    from inv_got [OF inv run moved(2,3)] obtain a bs' t d where a: "b = Some a" "bs = a # bs'"
      "cw_heap (cy_world y) a = Some (packed t d)" "NUL \<notin> set t"
      "drop k (cy_ins y) = (t, d) # drop (Suc k) (cy_ins y)" "k < length (cy_ins y)"
      by metis
    note got = inv_taken [OF inv run a(2) moved(2) _ a(5,6), of ?p]
    have it: "bq_items q = Some a # bq_items q'" using moved(3) a(1) by simp
    from next_turn q(1) get moved(1) a(1) have buf: "p = ?p" "publish_buffer env (Some a) ?p (cy_world y) = (r, w)"
      by (auto simp: publish_next_def Let_def split: prod.splits)
    show ?thesis
    proof (cases "t = [] \<and> d = []")
      case True
      with buf(2) a(3) debuf_packed [OF a(4)] have r: "r = TurnFailed DTERR_BADARG" "w = cy_world y"
        by (auto simp: publish_buffer_def)
      have "\<exists>k j. coap_inv (y\<lparr>cy_portal := ?p, cy_world := w, cy_loop := Ended\<rparr>) q' bs' k j"
        by (rule got [OF it, of w "[]" Ended]) (simp_all add: r(2))
      then show ?thesis using r(1) buf(1) by auto
    next
      case False
      obtain e posts n where one: "publish_one env ?p t d = (e, posts, n)" by (cases "publish_one env ?p t d")
      from buf(2) a(3) debuf_packed [OF a(4)] False one
      have w: "w = (cy_world y)\<lparr>cw_heap := (cw_heap (cy_world y))(a := None), cw_sent := cw_sent (cy_world y) @ posts,
            cw_pdus := cw_pdus (cy_world y) + n\<rparr>"
        and r: "r = (case e of None \<Rightarrow> TurnSent | Some c \<Rightarrow> TurnFailed c)"
        by (auto simp: publish_buffer_def)
      have "\<exists>k j. coap_inv (y\<lparr>cy_portal := ?p, cy_world := w, cy_loop := ?l\<rparr>) q' bs' k j"
        by (rule got [OF it]) (use publish_one_posts [OF one] in \<open>auto simp: w r split: option.splits if_splits\<close>)
      then show ?thesis using r buf(1) by (auto split: option.splits)
    qed
  qed
  then show "r \<noteq> TurnFault" "\<exists>q bs k j. coap_inv (y\<lparr>cy_portal := p, cy_world := w, cy_loop := ?l\<rparr>) q bs k j"
    by blast+
qed

lemma run_callback_queue: "run_callback mf macro cb p = Some p' \<Longrightarrow> cp_bufferqueue p' = cp_bufferqueue p \<and> cp_wake_pipe p' = cp_wake_pipe p"
  by (auto simp: run_callback_def coap_on_response_def coap_on_event_def coap_on_post_topic_def
      split: coap_callback.splits if_splits option.splits prod.splits)

lemma coap_step_inv:
  assumes "coap_step mf macro y y'" "\<exists>q bs k j. coap_inv y q bs k j"
  shows "\<exists>q bs k j. coap_inv y' q bs k j"
  using assms(1)
proof cases
  case (put create t b lock_rc d r p w)
  from assms(2) obtain q bs k j where inv: "coap_inv y q bs k j" by blast
  from inv_publish_put [OF inv put(2-5)] put(1) show ?thesis by blast
next
  case (woken b t d rc r p)
  from assms(2) obtain q bs k j where inv: "coap_inv y q bs k j" by blast
  from inv_publish_woken [OF inv woken(2,3)] woken(1) show ?thesis by blast
next
  case (wake n)
  with assms(2) show ?thesis by (auto simp: coap_inv_def coap_wake_def Let_def)
next
  case (drain w env v)
  then have "cw_heap v = cw_heap (cy_world y)" "cw_sent v = cw_sent (cy_world y)"
    by (auto simp: drain_wake_def Let_def split: if_splits)
  with drain assms(2) show ?thesis by (auto simp: coap_inv_def)
next
  case (callback cb p)
  from assms(2) obtain q bs k j where "coap_inv y q bs k j" by blast
  from coap_inv_portal [OF this] run_callback_queue [OF callback(2)] callback(1) show ?thesis by blast
next
  case (turn lock_rc env r p w)
  from assms(2) obtain q bs k j where inv: "coap_inv y q bs k j" by blast
  from inv_turn(2) [OF inv _ turn(3)] turn(1,2) show ?thesis by simp
qed (use assms(2) coap_inv_loop in \<open>auto simp: coap_inv_def\<close>)

lemma coap_start_inv: "start_ok self w \<Longrightarrow> \<exists>q bs k j. coap_inv (coap_start self w) q bs k j"
  by (auto simp: start_ok_def coap_inv_def coap_start_def intro!: exI [of _ "[]"])

lemma coap_reach_inv:
  "(coap_step mf macro)\<^sup>*\<^sup>* (coap_start self w) y \<Longrightarrow> start_ok self w \<Longrightarrow> \<exists>q bs k j. coap_inv y q bs k j"
proof (induction rule: rtranclp_induct)
  case base
  then show ?case by (rule coap_start_inv)
next
  case (step y z)
  from coap_step_inv [OF step.hyps(2) step.IH [OF step.prems]] show ?case .
qed


definition calm_post :: post_env where
  "calm_post = \<lparr>pe_pdu = True, pe_path = True, pe_format = True, pe_query = True, pe_room = True, pe_send = True\<rparr>"

text \<open>
  What the next turn of the task does. When something is queued, libcoap takes what it is given and
  the portal has its session, the turn posts the oldest publication that has not been posted,
  with its data, unless topic and data are empty: that ends the task.
\<close>

lemma next_posted:
  assumes "(coap_step mf macro)\<^sup>*\<^sup>* (coap_start self w) y" "start_ok self w" "cy_loop y \<noteq> Ended"
    and "cp_bufferqueue (cy_portal y) = Some q" "bq_items q \<noteq> []"
    and "cp_context (cy_portal y)" "cp_session (cy_portal y)" "cp_publish_uri (cy_portal y) \<noteq> None"
    and "cy_ins y ! length (cw_sent (cy_world y)) = (t, d)"
    and "publish_next None calm_post (cy_portal y) (cy_world y) = (r, p, w')"
  shows "if t = [] \<and> d = [] then r = TurnFailed DTERR_BADARG
    else r = TurnSent \<and> cw_sent w' = cw_sent (cy_world y) @
      [\<lparr>po_path = ''ingress'', po_octets = (d \<noteq> []), po_query = take (length t mod 65536) t, po_payload = d\<rparr>]"
proof -
  from coap_reach_inv [OF assms(1,2)] obtain q1 bs k j where inv: "coap_inv y q1 bs k j" by blast
  have q: "q1 = q" "bq_valid q" using inv_parts(1,2) [OF inv] assms(4) by simp_all
  obtain rq q' where get: "dtbufferqueue_get None WaitNot True q = (rq, q')" by force
  have "bq_count q \<noteq> 0" using assms(5) by (simp add: bq_items_empty)
  with get have mv: "\<And>e f. rq \<noteq> BqReturned e f"
    by (auto simp: dtbufferqueue_get_def bq_do_get_def word_gt_0 split: option.splits)
  from q(2) get show ?thesis
  proof (cases rule: get_cases)
    case (moved f b)
    from inv_got [OF inv assms(3) moved(2)] moved(3) q(1) obtain a bs' t1 d1 where a: "b = Some a"
      "cw_heap (cy_world y) a = Some (packed t1 d1)" "NUL \<notin> set t1"
      "drop k (cy_ins y) = (t1, d1) # drop (Suc k) (cy_ins y)" "k < length (cy_ins y)"
      by metis
    have "length (cw_sent (cy_world y)) = k"
      using list_all2_lengthD [OF inv_parts(8) [OF inv]] a(5) by simp
    with assms(9) a(4) have td: "t1 = t" "d1 = d" by (metis Cons_nth_drop_Suc a(5) list.inject prod.inject)+
    let ?p = "(cy_portal y)\<lparr>cp_bufferqueue := Some q'\<rparr>"
    from assms(4,10) get moved(1) a(1) have buf: "p = ?p" "publish_buffer calm_post (Some a) ?p (cy_world y) = (r, w')"
      by (auto simp: publish_next_def Let_def split: prod.splits)
    show ?thesis
      using buf(2) a(2) debuf_packed [OF a(3)] td assms(6-8)
      by (auto simp: publish_buffer_def publish_one_def calm_post_def)
  qed (use mv in blast)+
qed

section \<open>The wakeups\<close>

definition wake_inv :: "'m coap_system \<Rightarrow> bool" where
  "wake_inv y \<longleftrightarrow> (cy_loop y = Publishing \<or> cy_loop y = Ended \<or> 0 < cy_writers y \<or>
     0 < cw_unread (cy_world y) (snd (cp_wake_pipe (cy_portal y))) \<or>
     (\<exists>q. cp_bufferqueue (cy_portal y) = Some q \<and> bq_items q = []))"

lemma publish_put_wake:
  assumes "cp_bufferqueue self = Some q" "bq_valid q" "coap_publish_put create lock_rc b t d self w = (r, p, w')"
  shows "cp_wake_pipe p = cp_wake_pipe self \<and> cw_unread w' = cw_unread w \<and>
    (r \<noteq> PubQueued \<longrightarrow> cp_bufferqueue p = cp_bufferqueue self)"
proof (cases "pubwork_enbuf create t d")
  case (Inl e)
  with assms show ?thesis by (auto simp: coap_publish_put_def)
next
  case (Inr buf)
  with assms obtain r' p' where pub: "pub_queued (dtbufferqueue_put lock_rc WaitForever False (Some b) q) self = (r', p')"
      "r = r'" "p = p'" "cw_unread w' = cw_unread w"
    by (auto simp: coap_publish_put_def Let_def split: prod.splits)
  from pub_put_cases [OF assms(2) pub(1)] obtain q' where "p' = self\<lparr>cp_bufferqueue := Some q'\<rparr>"
    "r' \<noteq> PubQueued \<longrightarrow> q' = q" by (metis (full_types))
  with pub(2-4) assms(1) show ?thesis by simp
qed

lemma publish_woken_wake:
  assumes "cp_bufferqueue self = Some q" "bq_valid q" "coap_publish_woken rc b self = (r, p)"
  shows "cp_wake_pipe p = cp_wake_pipe self \<and> (r \<noteq> PubQueued \<longrightarrow> cp_bufferqueue p = cp_bufferqueue self)"
proof -
  from assms have pub: "pub_queued (dtbufferqueue_put_resume rc WaitForever False b q) self = (r, p)"
    by (simp add: coap_publish_woken_def)
  from pub_woken_cases [OF assms(2) pub] obtain q' where "p = self\<lparr>cp_bufferqueue := Some q'\<rparr>"
    "r \<noteq> PubQueued \<longrightarrow> q' = q" by (metis (full_types))
  with assms(1) show ?thesis by simp
qed

lemma after_put_wake:
  assumes "wake_inv y" "cp_wake_pipe p = cp_wake_pipe (cy_portal y)" "cw_unread w = cw_unread (cy_world y)"
    "r \<noteq> PubQueued \<longrightarrow> cp_bufferqueue p = cp_bufferqueue (cy_portal y)"
  shows "wake_inv (after_put r e (y\<lparr>cy_portal := p, cy_world := w, cy_asleep := sl\<rparr>))"
  using assms by (cases r) (auto simp: wake_inv_def after_put_def)

text \<open>The loop goes back to \<open>select\<close> only when it has found the queue empty.\<close>

lemma turn_wake:
  assumes "cp_bufferqueue self = Some q" "bq_valid q" "publish_next lock_rc env self w = (TurnDone, p, w')"
  shows "\<exists>q. cp_bufferqueue p = Some q \<and> bq_items q = []"
proof -
  obtain rq q' where get: "dtbufferqueue_get lock_rc WaitNot True q = (rq, q')" by force
  from assms(2) get show ?thesis
  proof (cases rule: get_cases)
    case (moved f b)
    with assms(1,3) get obtain w1 where "publish_buffer env b p w = (TurnDone, w1)"
      by (auto simp: publish_next_def Let_def split: prod.splits)
    then have False by (auto simp: publish_buffer_def split: option.splits sum.splits prod.splits)
    then show ?thesis ..
  qed (use assms(1,3) get in \<open>auto simp: publish_next_def Let_def\<close>)
qed

lemma coap_step_wake:
  assumes "coap_step mf macro y y'" "coap_inv y q bs k j" "wake_inv y"
  shows "wake_inv y'"
  using assms(1)
proof cases
  case (put create t b lock_rc d r p w)
  from publish_put_wake [OF inv_parts(1,2) [OF assms(2)] put(5)]
    after_put_wake [OF assms(3), of p w r "(b, t, d)" "cy_asleep y"] put(1) show ?thesis by simp
next
  case (woken b t d rc r p)
  have y: "y\<lparr>cy_portal := p, cy_world := cy_world y, cy_asleep := remove1 (b, t, d) (cy_asleep y)\<rparr> =
      y\<lparr>cy_portal := p, cy_asleep := remove1 (b, t, d) (cy_asleep y)\<rparr>" by simp
  from publish_woken_wake [OF inv_parts(1,2) [OF assms(2)] woken(3)]
    after_put_wake [OF assms(3), of p "cy_world y" r "(b, t, d)" "remove1 (b, t, d) (cy_asleep y)"]
  show ?thesis unfolding y woken(1) by simp
next
  case (turn lock_rc env r p w)
  from turn_wake [OF inv_parts(1,2) [OF assms(2)]] turn show ?thesis
    by (cases r) (auto simp: wake_inv_def)
next
  case (callback cb p)
  with assms(3) run_callback_queue [OF callback(2)] show ?thesis by (simp add: wake_inv_def)
qed (use assms(3) in \<open>auto simp: wake_inv_def coap_wake_def Let_def\<close>)

text \<open>
  C25: no publication waits for a wakeup that was lost. Over every interleaving, when the task is at
  its \<open>select\<close> and something is queued, the pipe has a byte to read, or a publisher has put and is
  about to write it: the drain of the pipe comes before the look at the queue.
\<close>

theorem coap_no_lost_wakeup:
  assumes "(coap_step mf macro)\<^sup>*\<^sup>* (coap_start self w) y" "start_ok self w"
    and "cy_loop y = Selecting" "cy_writers y = 0"
    and "cp_bufferqueue (cy_portal y) = Some q" "bq_items q \<noteq> []"
  shows "0 < cw_unread (cy_world y) (snd (cp_wake_pipe (cy_portal y)))"
proof -
  have "wake_inv y"
    using assms(1,2)
  proof (induction rule: rtranclp_induct)
    case base
    then show ?case by (auto simp: wake_inv_def start_ok_def coap_start_def)
  next
    case (step y z)
    with coap_reach_inv [OF step.hyps(1)] coap_step_wake show ?case by blast
  qed
  with assms(3-6) show ?thesis by (simp add: wake_inv_def)
qed


section \<open>From portal to portal\<close>

text \<open>
  What a post is to the portal that receives it. With a topic of less than 256 characters the
  recipients of the topic get the data, and the answer says whether they did. A longer topic is
  sent all the same, and overruns the buffer of the receiver.
\<close>

theorem coap_topic_delivered:
  assumes "publish_one env self t d = (None, posts, n)" "pe_room env" "length t < 65536" "NUL \<notin> set t"
    and "cp_manifold_set other"
  shows "\<exists>post. posts = [post] \<and>
    coap_on_post_topic mf None True (Some (po_query post)) (po_payload post) other =
      (if length t < 256
       then Some (if fst (mf_publish mf t d (cp_manifold other)) = None then 204 else 500,
              other\<lparr>cp_manifold := snd (mf_publish mf t d (cp_manifold other))\<rparr>)
       else None)"
proof -
  from assms(1-3) obtain post where "posts = [post]" "po_query post = t" "po_payload post = d"
    by (auto simp: publish_one_def split: if_splits)
  with assms(4,5) cstr_id [OF assms(4)] show ?thesis
    by (auto simp: coap_on_post_topic_def split: prod.splits)
qed

text \<open>The posts of one portal, handed in their order to the handler of another.\<close>

fun deliver_posts :: "'m manifold \<Rightarrow> coap_post list \<Rightarrow> 'm dtnetportal_coap_t \<Rightarrow> 'm dtnetportal_coap_t option" where
  "deliver_posts mf [] other = Some other"
| "deliver_posts mf (post # posts) other =
     (case coap_on_post_topic mf None True (Some (po_query post)) (po_payload post) other of
        None \<Rightarrow> None
      | Some (_, other1) \<Rightarrow> deliver_posts mf posts other1)"

definition publish_fold :: "'m manifold \<Rightarrow> (string \<times> byte list) list \<Rightarrow> 'm \<Rightarrow> 'm" where
  "publish_fold mf = fold (\<lambda>(t, d) m. snd (mf_publish mf t d m))"

lemma after_put_ins: "cy_ins (after_put r (b, td) y) = (if r = PubQueued then cy_ins y @ [td] else cy_ins y)"
  by (cases r) (simp_all add: after_put_def)

lemma coap_topics_ok:
  assumes "(coap_step mf macro)\<^sup>*\<^sup>* (coap_start self w) y" "start_ok self w"
  shows "\<forall>td \<in> set (cy_ins y). NUL \<notin> set (fst td)"
  using assms
proof (induction rule: rtranclp_induct)
  case base
  then show ?case by (simp add: coap_start_def)
next
  case (step y z)
  from coap_reach_inv [OF step.hyps(1) step.prems] obtain q bs k j where inv: "coap_inv y q bs k j" by blast
  from step.hyps(2) show ?case
  proof cases
    case (put create t b lock_rc d r p w)
    with step show ?thesis by (auto simp: after_put_ins)
  next
    case (woken b t d rc r p)
    from woken(2) inv_parts(10) [OF inv] have "NUL \<notin> set t" by (auto simp: list_all_iff holds_def)
    with woken step show ?thesis by (auto simp: after_put_ins)
  qed (use step in auto)
qed

lemma deliver_posts_result:
  assumes "list_all2 carries posts tds" "\<forall>td \<in> set tds. length (fst td) < 256 \<and> NUL \<notin> set (fst td)"
    and "cp_manifold_set other"
  shows "\<exists>ds. list_all2 (\<lambda>td td'. fst td' = fst td \<and> (snd td' = snd td \<or> snd td' = [])) tds ds \<and>
    deliver_posts mf posts other = Some (other\<lparr>cp_manifold := publish_fold mf ds (cp_manifold other)\<rparr>)"
  using assms
proof (induction posts tds arbitrary: other rule: list_all2_induct)
  case Nil
  show ?case by (intro exI [of _ "[]"]) (simp add: publish_fold_def)
next
  case (Cons post posts td tds)
  let ?d = "po_payload post"
  from Cons.hyps(1) Cons.prems have post: "po_query post = fst td" "?d = snd td \<or> ?d = []" "length (fst td) < 256"
    "cstr (fst td) = fst td" by (auto simp: carries_def cstr_id)
  define m where "m = snd (mf_publish mf (fst td) ?d (cp_manifold other))"
  let ?o = "other\<lparr>cp_manifold := m\<rparr>"
  from Cons.IH [of ?o] Cons.prems obtain ds
    where ds: "list_all2 (\<lambda>td td'. fst td' = fst td \<and> (snd td' = snd td \<or> snd td' = [])) tds ds"
      "deliver_posts mf posts ?o = Some (?o\<lparr>cp_manifold := publish_fold mf ds (cp_manifold ?o)\<rparr>)" by auto
  have "deliver_posts mf (post # posts) other = deliver_posts mf posts ?o"
    using post Cons.prems(2) by (simp add: coap_on_post_topic_def m_def split: prod.splits)
  with ds post(2) show ?case
    by (intro exI [of _ "(fst td, ?d) # ds"]) (auto simp: publish_fold_def m_def)
qed


text \<open>
  A publication before the activation. It is queued and reported as a success, and the byte
  that should wake the task goes to descriptor 0. When the portal is then activated, its task
  finds nothing to read on the pipe: the publication waits for the next event.
\<close>

theorem coap_early_publication_waits:
  assumes "coap_publish create lock_rc b t d self w = (PubQueued, self1, w1)" "cp_wake_pipe self = (0, 0)"
    and "cp_bufferqueue self = Some q" "bq_valid q" "cw_unread w 0 < 65536"
    and "ca_pipe env = Some (rfd, wfd)" "wfd \<noteq> 0" "cw_unread w wfd = 0"
    and "start_ioloop env self1 = (e, self2)"
  shows "cw_unread w1 0 = cw_unread w 0 + 1 \<and> cw_unread w1 (snd (cp_wake_pipe self2)) = 0 \<and>
    (\<exists>q2. cp_bufferqueue self2 = Some q2 \<and> bq_items q2 = bq_items q @ [Some b])"
proof -
  obtain r p w0 where put: "coap_publish_put create lock_rc b t d self w = (r, p, w0)"
    by (cases "coap_publish_put create lock_rc b t d self w")
  with assms(1) have w1: "r = PubQueued" "p = self1" "w1 = coap_wake self1 w0"
    by (auto simp: coap_publish_def split: if_splits)
  from publish_put_wake [OF assms(3,4) put] have k: "cp_wake_pipe self1 = (0, 0)" "cw_unread w0 = cw_unread w"
    using w1(2) assms(2) by simp_all
  from put assms(3) w1(1,2) have "pub_queued (dtbufferqueue_put lock_rc WaitForever False (Some b) q) self = (PubQueued, self1)"
    by (auto simp: coap_publish_put_def Let_def split: sum.splits prod.splits)
  from pub_put_cases [OF assms(4) this] obtain q' where "cp_bufferqueue self1 = Some q'" "bq_items q' = bq_items q @ [Some b]"
    by force
  moreover have "cp_wake_pipe self2 = (rfd, wfd)" "cp_bufferqueue self2 = cp_bufferqueue self1"
    using assms(6,9) by (auto simp: start_ioloop_def Let_def split: if_splits option.splits prod.splits)
  ultimately show ?thesis using k assms(5,7,8) by (simp add: w1(3) coap_wake_def Let_def)
qed

section \<open>Witnesses\<close>

definition sample_queue :: "buffer option list \<Rightarrow> u32 \<Rightarrow> dtbufferqueue_t" where
  "sample_queue xs n = \<lparr>bq_max_count = 10, bq_should_overwrite = False, bq_ring = xs @ replicate (10 - length xs) None,
     bq_count = n, bq_head = 0, bq_tail = n\<rparr>"

definition coap_sample :: "unit dtnetportal_coap_t" where
  "coap_sample = (coap_zero () 1)\<lparr>cp_bufferqueue := Some (sample_queue [] 0), cp_context := True, cp_session := True,
     cp_publish_uri := Some ''coap://[h]:5683'', cp_manifold_set := True, cp_wake_pipe := (3, 4)\<rparr>"

definition coap_queued :: "unit dtnetportal_coap_t" where
  "coap_queued = coap_sample\<lparr>cp_bufferqueue := Some (sample_queue [Some 0] 1)\<rparr>"

definition empty_world :: coap_world where
  "empty_world = \<lparr>cw_heap = (\<lambda>_. None), cw_unread = (\<lambda>_. 0), cw_sent = [], cw_pdus = 0\<rparr>"

lemma sample_queue_create:
  "dtbufferqueue_create \<lparr>be_alloc = None, be_alloc_ring = None, be_mutex_init = None, be_attr_init = None,
     be_setclock = None, be_not_empty_init = None, be_not_full_init = None\<rparr> 10 False = (None, Some (sample_queue [] 0))"
  by (simp add: dtbufferqueue_create_def sample_queue_def storage_size_def to_int32_def)

lemma sample_queue_valid: "bq_valid (sample_queue [] 0)" "bq_items (sample_queue [] 0) = []"
  by (simp_all add: bq_valid_def bq_items_def sample_queue_def INT32_MAX_def)

lemma sample_enqueue: "bq_enqueue (Some 0) (sample_queue [] 0) = Some (sample_queue [Some 0] 1)"
proof -
  have "replicate 10 (None :: buffer option) = None # replicate 9 None" by (simp add: numeral_eq_Suc)
  then show ?thesis by (simp add: bq_enqueue_def sample_queue_def bq_cap_def)
qed

lemma sample_packed: "pubwork_enbuf sample_create ''t'' [7] = Inr [116, 0, 7]"
  by (simp add: pubwork_enbuf_def sample_create_def overwrite_def bytes_of_def numeral_eq_Suc)

definition queued_world :: coap_world where
  "queued_world = empty_world\<lparr>cw_heap := [0 \<mapsto> [116, 0, 7]]\<rparr>"

lemma sample_put:
  "coap_publish_put sample_create None 0 ''t'' [7] coap_sample empty_world = (PubQueued, coap_queued, queued_world)"
  by (simp add: coap_publish_put_def sample_packed coap_sample_def dtbufferqueue_put_def bq_full_def bq_cap_def
      bq_do_put_def sample_enqueue pub_queued_def coap_queued_def queued_world_def empty_world_def)
    (simp add: sample_queue_def)

definition queued_system :: "unit coap_system" where
  "queued_system = \<lparr>cy_portal = coap_queued, cy_world = coap_wake coap_queued queued_world, cy_loop = Selecting,
     cy_asleep = [], cy_writers = 0, cy_ins = [(''t'', [7])]\<rparr>"

definition unit_manifold :: "unit manifold" where
  "unit_manifold = \<lparr>mf_init = (None, ()), mf_set_semaphore = (\<lambda>m. (None, m)), mf_subscribe = (\<lambda>t m. (None, m)),
     mf_count = (\<lambda>t m. Inr 0), mf_publish = (\<lambda>t p m. (None, m)), mf_foreach = (\<lambda>m. [])\<rparr>"

lemma sample_reach:
  "(coap_step unit_manifold (\<lambda>_. False))\<^sup>*\<^sup>* (coap_start coap_sample empty_world) queued_system"
proof -
  let ?y0 = "coap_start coap_sample empty_world"
  let ?y1 = "after_put PubQueued (0, ''t'', [7]) (?y0\<lparr>cy_portal := coap_queued, cy_world := queued_world\<rparr>)"
  have "coap_step unit_manifold (\<lambda>_. False) ?y0 ?y1"
    by (rule coap_step.put [OF sample_create_ok, where lock_rc = None]) (simp_all add: coap_start_def sample_put, simp add: empty_world_def)
  moreover have "coap_step unit_manifold (\<lambda>_. False) ?y1
      (?y1\<lparr>cy_world := coap_wake (cy_portal ?y1) (cy_world ?y1), cy_writers := 0\<rparr>)"
    by (rule coap_step.wake) (simp add: after_put_def coap_start_def)
  moreover have "?y1\<lparr>cy_world := coap_wake (cy_portal ?y1) (cy_world ?y1), cy_writers := 0\<rparr> = queued_system"
    by (simp add: after_put_def coap_start_def queued_system_def)
  ultimately show ?thesis by simp
qed

lemma sample_start: "start_ok coap_sample empty_world"
  using sample_queue_valid by (simp add: start_ok_def coap_sample_def empty_world_def)

lemma queued_fields:
  "cy_loop queued_system = Selecting" "cy_writers queued_system = 0" "cw_sent (cy_world queued_system) = []"
  "cp_bufferqueue (cy_portal queued_system) = Some (sample_queue [Some 0] 1)" "cp_wake_pipe (cy_portal queued_system) = (3, 4)"
  "bq_items (sample_queue [Some 0] 1) \<noteq> []" "cy_ins queued_system = [(''t'', [7])]"
  "cp_context (cy_portal queued_system)" "cp_session (cy_portal queued_system)" "cp_publish_uri (cy_portal queued_system) \<noteq> None"
  by (simp_all add: queued_system_def coap_queued_def coap_sample_def queued_world_def empty_world_def coap_wake_def
      Let_def bq_items_empty) (simp add: sample_queue_def)


theorem coap_no_lost_wakeup_witness: "0 < cw_unread (cy_world queued_system) 4"
  using coap_no_lost_wakeup [OF sample_reach sample_start queued_fields(1,2,4,6)] by (simp add: queued_fields(5))

lemma sample_next_posted:
  "\<exists>p w. publish_next None calm_post (cy_portal queued_system) (cy_world queued_system) = (TurnSent, p, w) \<and>
     cw_sent w = [\<lparr>po_path = ''ingress'', po_octets = True, po_query = ''t'', po_payload = [7]\<rparr>]"
proof -
  obtain r p w where n: "publish_next None calm_post (cy_portal queued_system) (cy_world queued_system) = (r, p, w)"
    by (cases "publish_next None calm_post (cy_portal queued_system) (cy_world queued_system)")
  have "cy_loop queued_system \<noteq> Ended" "cy_ins queued_system ! length (cw_sent (cy_world queued_system)) = (''t'', [7])"
    by (simp_all add: queued_fields)
  from next_posted [OF sample_reach sample_start this(1) queued_fields(4,6,8-10) this(2) n] n
  show ?thesis by (simp add: queued_fields(3))
qed

theorem coap_topic_delivered_witness:
  "coap_on_post_topic unit_manifold None True (Some ''t'') [7] coap_sample = Some (204, coap_sample)"
proof -
  have "publish_one calm_post coap_sample ''t'' [7] =
      (None, [\<lparr>po_path = ''ingress'', po_octets = True, po_query = ''t'', po_payload = [7]\<rparr>], 0)"
    by (simp add: publish_one_def calm_post_def coap_sample_def)
  moreover have "cp_manifold_set coap_sample" "mf_publish unit_manifold t d m = (None, m)" for t d m
    by (simp_all add: coap_sample_def unit_manifold_def)
  ultimately show ?thesis
    using coap_topic_delivered [of calm_post coap_sample "''t''" "[7]" _ 0 coap_sample unit_manifold]
    by (simp add: calm_post_def)
qed

text \<open>One more step of the sample: the task has posted what was queued.\<close>

lemma sample_posted:
  "\<exists>y. (coap_step unit_manifold (\<lambda>_. False))\<^sup>*\<^sup>* (coap_start coap_sample empty_world) y \<and> cy_ins y = [(''t'', [7])] \<and>
     cw_sent (cy_world y) = [\<lparr>po_path = ''ingress'', po_octets = True, po_query = ''t'', po_payload = [7]\<rparr>]"
proof -
  let ?step = "coap_step unit_manifold (\<lambda>_. False)"
  define y1 where "y1 = queued_system\<lparr>cy_loop := Woken True\<rparr>"
  define w2 where "w2 = (cy_world y1)\<lparr>cw_unread := (cw_unread (cy_world y1))(4 := 0)\<rparr>"
  define y2 where "y2 = y1\<lparr>cy_world := w2, cy_loop := Publishing\<rparr>"
  let ?env = "\<lparr>re_select = SelReady True False, re_stop = False, re_reads = [False, False], re_callbacks = [], re_io = 0,
    re_posts = []\<rparr>"
  have unread: "cw_unread (cy_world queued_system) 4 = 1"
    by (simp add: queued_system_def coap_wake_def coap_queued_def coap_sample_def queued_world_def empty_world_def)
  have "?step queued_system (queued_system\<lparr>cy_loop := Woken (fst (ready_flags (SelReady True False)))\<rparr>)"
    using unread by (intro coap_step.select) (simp_all add: queued_fields)
  then have 1: "?step queued_system y1" by (simp add: y1_def ready_flags_def)
  have f1: "cy_loop y1 = Woken True" "cy_portal y1 = cy_portal queued_system" "cy_world y1 = cy_world queued_system"
    by (simp_all add: y1_def)
  have "drain_wake ?env (cy_portal y1) (cy_world y1) = Some w2"
    using unread by (simp add: drain_wake_def ready_flags_def f1 queued_fields w2_def)
  then have 2: "?step y1 y2" unfolding y2_def by (intro coap_step.drain [where env = ?env]) (simp_all add: f1 ready_flags_def)
  have reach: "?step\<^sup>*\<^sup>* (coap_start coap_sample empty_world) y2"
    using sample_reach 1 2 by (meson rtranclp.rtrancl_into_rtrancl)
  obtain r p w where n: "publish_next None calm_post (cy_portal y2) (cy_world y2) = (r, p, w)"
    by (cases "publish_next None calm_post (cy_portal y2) (cy_world y2)")
  have f2: "cy_loop y2 = Publishing" "cy_portal y2 = cy_portal queued_system" "cw_sent (cy_world y2) = []" "cy_ins y2 = [(''t'', [7])]"
    by (simp_all add: y2_def f1 w2_def queued_fields) (simp add: y1_def queued_fields)
  from f2 have f3: "cy_loop y2 \<noteq> Ended" "cp_bufferqueue (cy_portal y2) = Some (sample_queue [Some 0] 1)" "cp_context (cy_portal y2)"
    "cp_session (cy_portal y2)" "cp_publish_uri (cy_portal y2) \<noteq> None" "cy_ins y2 ! length (cw_sent (cy_world y2)) = (''t'', [7])"
    by (simp_all add: queued_fields)
  from next_posted [OF reach sample_start f3(1,2) queued_fields(6) f3(3-6) n] have posted: "r = TurnSent"
    "cw_sent w = [\<lparr>po_path = ''ingress'', po_octets = True, po_query = ''t'', po_payload = [7]\<rparr>]"
    using f2 by auto
  from coap_step.turn [OF f2(1) n] reach have "?step\<^sup>*\<^sup>* (coap_start coap_sample empty_world)
      (y2\<lparr>cy_portal := p, cy_world := w, cy_loop := Publishing\<rparr>)"
    unfolding posted(1) by (auto intro: rtranclp.rtrancl_into_rtrancl)
  with posted f2(4) show ?thesis by (intro exI [of _ "y2\<lparr>cy_portal := p, cy_world := w, cy_loop := Publishing\<rparr>"]) simp
qed

text \<open>A manifold that keeps what was published, in order.\<close>

definition log_manifold :: "(string \<times> byte list) list manifold" where
  "log_manifold = \<lparr>mf_init = (None, []), mf_set_semaphore = (\<lambda>m. (None, m)), mf_subscribe = (\<lambda>t m. (None, m)),
     mf_count = (\<lambda>t m. Inr 0), mf_publish = (\<lambda>t p m. (None, m @ [(t, p)])), mf_foreach = (\<lambda>m. [])\<rparr>"


theorem coap_early_publication_waits_witness:
  "\<exists>self1 w1. coap_publish sample_create None 0 ''t'' [7] (coap_sample\<lparr>cp_wake_pipe := (0, 0)\<rparr>) empty_world = (PubQueued, self1, w1) \<and>
     cw_unread w1 0 = 1"
proof -
  let ?s = "coap_sample\<lparr>cp_wake_pipe := (0, 0)\<rparr>"
  let ?t = "coap_queued\<lparr>cp_wake_pipe := (0, 0)\<rparr>"
  have "coap_publish_put sample_create None 0 ''t'' [7] ?s empty_world = (PubQueued, ?t, queued_world)"
    by (simp add: coap_publish_put_def sample_packed coap_sample_def dtbufferqueue_put_def bq_full_def bq_cap_def
        bq_do_put_def sample_enqueue pub_queued_def coap_queued_def queued_world_def empty_world_def)
      (simp add: sample_queue_def)
  then have pub: "coap_publish sample_create None 0 ''t'' [7] ?s empty_world = (PubQueued, ?t, coap_wake ?t queued_world)"
    by (simp add: coap_publish_def)
  obtain env :: coap_env where env: "ca_pipe env = Some (3, 4)" by (metis coap_env.select_convs(9))
  obtain e self2 where st: "start_ioloop env ?t = (e, self2)" by force
  have q: "cp_bufferqueue ?s = Some (sample_queue [] 0)" by (simp add: coap_sample_def)
  have "cw_unread (coap_wake ?t queued_world) 0 = cw_unread empty_world 0 + 1"
    using coap_early_publication_waits [OF pub _ q sample_queue_valid(1) _ env _ _ st] by (simp add: empty_world_def)
  then show ?thesis using pub by (auto simp: empty_world_def)
qed

end
