(* ===== verification/HttpClient.thy ===== *)
theory HttpClient
  imports Cstring Condvar
begin

text \<open>
  \<open>dtmc_linux_library/src/dthttpclient_linux.c\<close>: blocking GET and POST over libcurl. libcurl and the
  encoding of the query parameters (dtcore) are parameters: their answers are arguments.
\<close>

section \<open>The body\<close>

text \<open>
  The accumulator: the \<open>length\<close> bytes that are valid, the allocated capacity and the failure mark.
\<close>

record dthttpclient_accumulator_t =
  ac_bytes :: "byte list"
  ac_capacity :: int
  ac_failed :: bool

definition ac_length :: "dthttpclient_accumulator_t \<Rightarrow> int" where
  "ac_length acc = int (length (ac_bytes acc))"

definition acc_zero :: dthttpclient_accumulator_t where
  "acc_zero = \<lparr>ac_bytes = [], ac_capacity = 0, ac_failed = False\<rparr>"

text \<open>The doubling; it would not end for a capacity that is not positive.\<close>

partial_function (option) grow_capacity :: "int \<Rightarrow> int \<Rightarrow> int option" where
  "grow_capacity new_capacity required =
     (if new_capacity < required
      then if INT32_MAX div 2 < new_capacity then Some required else grow_capacity (new_capacity * 2) required
      else Some new_capacity)"

text \<open>
  \<open>realloc_ok n\<close>: the allocation of \<open>n\<close> bytes succeeds. The result \<open>None\<close> of the whole would be a loop
  that does not end.
\<close>

definition accumulate ::
  "(int \<Rightarrow> bool) \<Rightarrow> dthttpclient_accumulator_t \<Rightarrow> byte list option \<Rightarrow> int \<Rightarrow> (bool \<times> dthttpclient_accumulator_t) option" where
  "accumulate realloc_ok acc bytes len =
     (case bytes of
        None \<Rightarrow> Some (False, acc)
      | Some data \<Rightarrow>
          if len < 0 then Some (False, acc)
          else if len = 0 then Some (True, acc)
          else if INT32_MAX - len < ac_length acc then Some (False, acc)
          else
            let required = ac_length acc + len;
                copy = (\<lambda>a. (True, a\<lparr>ac_bytes := ac_bytes a @ take (nat len) data\<rparr>)) in
            if ac_capacity acc < required
            then (case grow_capacity (if ac_capacity acc = 0 then 4096 else ac_capacity acc) required of
                    None \<Rightarrow> None
                  | Some c \<Rightarrow> if realloc_ok c then Some (copy (acc\<lparr>ac_capacity := c\<rparr>)) else Some (False, acc))
            else Some (copy acc))"

definition SIZE_MAX :: int where "SIZE_MAX = 18446744073709551615"

text \<open>The callback of libcurl: what it returns, the number of bytes it took. \<open>size\<close> and \<open>nmemb\<close> are \<open>szt\<close>.\<close>

definition write_body ::
  "(int \<Rightarrow> bool) \<Rightarrow> dthttpclient_accumulator_t option \<Rightarrow> byte list option \<Rightarrow> int \<Rightarrow> int
     \<Rightarrow> (int \<times> dthttpclient_accumulator_t option) option" where
  "write_body realloc_ok userp contents sz nmemb =
     (case userp of
        None \<Rightarrow> Some (0, None)
      | Some acc \<Rightarrow>
          let fail = (\<lambda>a. Some (0, Some (a\<lparr>ac_failed := True\<rparr>))) in
          if sz \<noteq> 0 \<and> SIZE_MAX div sz < nmemb then fail acc
          else let byte_count = sz * nmemb in
            if INT32_MAX < byte_count then fail acc
            else (case accumulate realloc_ok acc contents byte_count of
                    None \<Rightarrow> None
                  | Some (ok, acc1) \<Rightarrow> if \<not> ok then fail acc1 else Some (byte_count, Some acc1)))"

text \<open>
  The calls of the callback during a transfer, one for each piece of the body, whose size libcurl
  gives as \<open>1 * n\<close>, up to the first that is refused: the accumulator, and whether all were taken.
\<close>

fun receive_body ::
  "(int \<Rightarrow> bool) \<Rightarrow> byte list list \<Rightarrow> dthttpclient_accumulator_t \<Rightarrow> (bool \<times> dthttpclient_accumulator_t) option" where
  "receive_body realloc_ok [] acc = Some (True, acc)"
| "receive_body realloc_ok (p # ps) acc =
     (case write_body realloc_ok (Some acc) (Some p) 1 (int (length p)) of
        Some (n, Some acc1) \<Rightarrow>
          if n = int (length p) then receive_body realloc_ok ps acc1 else Some (False, acc1)
      | _ \<Rightarrow> None)"

section \<open>The URL\<close>

text \<open>\<open>encoded\<close> is what \<open>dtkvp_list_urlencode\<close> gives when there are parameters.\<close>

definition build_url ::
  "string option \<Rightarrow> (errcode + string option) option \<Rightarrow> bool \<Rightarrow> errcode + string" where
  "build_url url encoded alloc_ok =
     (case url of
        None \<Rightarrow> Inl DTERR_ASSERT
      | Some u \<Rightarrow>
          (case (case encoded of None \<Rightarrow> Inr None | Some r \<Rightarrow> r) of
             Inl e \<Rightarrow> Inl e
           | Inr enc \<Rightarrow>
               if enc = None \<or> enc = Some [] then (if alloc_ok then Inr u else Inl DTERR_NOMEM)
               else
                 let s = (if CHR ''?'' \<notin> set u then ''?'' else ''&''); e = the enc in
                 if SIZE_MAX - int (length s) < int (length u) \<or>
                    SIZE_MAX - int (length e) < int (length u + length s) \<or>
                    SIZE_MAX - 1 < int (length u + length s + length e)
                 then Inl DTERR_OVERFLOW
                 else if \<not> alloc_ok then Inl DTERR_NOMEM
                 else Inr (u @ s @ e)))"

section \<open>A request\<close>

record dthttpclient_response_t =
  hr_status_code :: int
  hr_content_type :: string
  hr_body :: "byte list option"

definition response_zero :: dthttpclient_response_t where
  "response_zero = \<lparr>hr_status_code = 0, hr_content_type = [], hr_body = None\<rparr>"

text \<open>What the options of the handle ask for; a timeout of 0 is none.\<close>

record curl_request =
  cr_url :: string
  cr_timeout_ms :: int
  cr_post :: "byte list option"
  cr_header :: "string option"

datatype curl_code = CurlOk | CurlTimedOut | CurlWriteError | CurlOther

text \<open>
  What the transfer brings: its result, the pieces of the body, the status and the content type of
  the response. \<open>he_max\<close> is \<open>DTHTTPCLIENT_MAX_CONTENT_TYPE_BYTES\<close>, \<open>he_alloc\<close> and \<open>he_slist\<close> the memory
  for the URL and the header, \<open>he_buffer\<close> the answer of \<open>dtbuffer_create\<close>.
\<close>

record http_env =
  he_max :: nat
  he_alloc :: bool
  he_slist :: bool
  he_realloc :: "int \<Rightarrow> bool"
  he_rc :: curl_code
  he_pieces :: "byte list list"
  he_status :: int
  he_content_type :: "string option"
  he_buffer :: dterr

definition content_type_header :: "http_env \<Rightarrow> string option \<Rightarrow> errcode + string option" where
  "content_type_header env content_type =
     (case content_type of
        None \<Rightarrow> Inr None
      | Some t \<Rightarrow>
          if t = [] then Inr None
          else let h = ''Content-Type: '' @ t in
            if he_max env + 16 \<le> length h then Inl DTERR_OVERFLOW
            else if \<not> he_slist env then Inl DTERR_NOMEM
            else Inr (Some h))"

definition fill_response_info :: "http_env \<Rightarrow> dthttpclient_response_t \<Rightarrow> dthttpclient_response_t" where
  "fill_response_info env r =
     (let r1 = r\<lparr>hr_status_code := to_int32 (he_status env)\<rparr> in
      case he_content_type env of
        None \<Rightarrow> r1
      | Some t \<Rightarrow> r1\<lparr>hr_content_type := take (he_max env - 1) t\<rparr>)"

definition make_response_body ::
  "dterr \<Rightarrow> dthttpclient_accumulator_t \<Rightarrow> dthttpclient_response_t \<Rightarrow> dterr \<times> dthttpclient_response_t" where
  "make_response_body buffer acc r =
     (if buffer \<noteq> None then (buffer, r) else (None, r\<lparr>hr_body := Some (ac_bytes acc)\<rparr>))"

text \<open>
  The caller's response: NULL, memory it has not initialised, or a response. An error after which
  the response is cleared disposes the body it refers to; in memory that is not initialised
  that is a pointer of any value.
\<close>

datatype out_response = OutNull | OutRaw | OutResponse dthttpclient_response_t

definition http_fail :: "errcode \<Rightarrow> out_response \<Rightarrow> (dterr \<times> out_response) option" where
  "http_fail e out =
     (case out of
        OutNull \<Rightarrow> Some (Some e, OutNull)
      | OutRaw \<Rightarrow> None
      | OutResponse r \<Rightarrow> Some (Some e, OutResponse response_zero))"

text \<open>The transfer and what is made of it. \<open>None\<close>: the cleanup frees an arbitrary pointer.\<close>

definition http_transfer :: "http_env \<Rightarrow> (dterr \<times> out_response) option" where
  "http_transfer env =
     (case receive_body (he_realloc env) (he_pieces env) acc_zero of
        None \<Rightarrow> None
      | Some (_, acc) \<Rightarrow>
          if he_rc env \<noteq> CurlOk
          then http_fail (if he_rc env = CurlTimedOut then DTERR_TIMEOUT else DTERR_IO) (OutResponse response_zero)
          else if ac_failed acc then http_fail DTERR_NOMEM (OutResponse response_zero)
          else (case make_response_body (he_buffer env) acc (fill_response_info env response_zero) of
                  (Some e, r) \<Rightarrow> http_fail e (OutResponse r)
                | (None, r) \<Rightarrow> Some (None, OutResponse r)))"

definition http_request ::
  "bool \<Rightarrow> string \<Rightarrow> int \<Rightarrow> byte list option \<Rightarrow> string option \<Rightarrow> curl_request" where
  "http_request post url timeout payload header =
     \<lparr>cr_url = url, cr_timeout_ms = timeout,
      cr_post = (if post then Some (case payload of None \<Rightarrow> [] | Some p \<Rightarrow> p) else None),
      cr_header = (if post then header else None)\<rparr>"

text \<open>\<open>perform\<close>: the error and the response, with the request that was made.\<close>

definition http_perform ::
  "http_env \<Rightarrow> bool \<Rightarrow> string option \<Rightarrow> (errcode + string option) option \<Rightarrow> byte list option \<Rightarrow> string option
     \<Rightarrow> wait_mode \<Rightarrow> out_response \<Rightarrow> (dterr \<times> out_response) option \<times> curl_request option" where
  "http_perform env post url encoded payload content_type timeout out =
     (if url = None \<or> out = OutNull then (http_fail DTERR_ASSERT out, None)
      else if timeout = WaitNot then (http_fail DTERR_BADARG out, None)
      else
        let ms = (case timeout of WaitMillis n \<Rightarrow> n | _ \<Rightarrow> 0);
            clear = OutResponse response_zero in
        (case build_url url encoded (he_alloc env) of
           Inl e \<Rightarrow> (http_fail e clear, None)
         | Inr final_url \<Rightarrow>
             (case (if post then content_type_header env content_type else Inr None) of
                Inl e \<Rightarrow> (http_fail e clear, None)
              | Inr header \<Rightarrow> (http_transfer env, Some (http_request post final_url ms payload header)))))"

definition http_get ::
  "http_env \<Rightarrow> bool \<Rightarrow> string option \<Rightarrow> (errcode + string option) option \<Rightarrow> wait_mode \<Rightarrow> out_response
     \<Rightarrow> (dterr \<times> out_response) option \<times> curl_request option" where
  "http_get env self_ok url encoded timeout out =
     (if \<not> self_ok then (Some (Some DTERR_ASSERT, out), None)
      else http_perform env False url encoded None None timeout out)"

definition http_post ::
  "http_env \<Rightarrow> bool \<Rightarrow> string option \<Rightarrow> (errcode + string option) option \<Rightarrow> byte list option \<Rightarrow> string option \<Rightarrow> wait_mode \<Rightarrow> out_response
     \<Rightarrow> (dterr \<times> out_response) option \<times> curl_request option" where
  "http_post env self_ok url encoded payload content_type timeout out =
     (if \<not> self_ok then (Some (Some DTERR_ASSERT, out), None)
      else http_perform env True url encoded payload content_type timeout out)"

text \<open>
  \<open>create\<close>, with the process-wide initialisation of libcurl: the error, the mark that it was done, and
  whether a client was created.
\<close>

definition http_create :: "bool \<Rightarrow> bool \<Rightarrow> dterr \<Rightarrow> bool \<Rightarrow> dterr \<times> bool \<times> bool" where
  "http_create initialized global_init alloc easy_init =
     (if \<not> initialized \<and> \<not> global_init then (Some DTERR_INFRASTRUCTURE, False, False)
      else if alloc \<noteq> None then (alloc, True, False)
      else if \<not> easy_init then (Some DTERR_INFRASTRUCTURE, True, False)
      else (None, True, True))"

section \<open>The body is received whole\<close>

text \<open>What the accumulator keeps: what is stored fits the allocation, which fits \<open>int32_t\<close>.\<close>

definition acc_ok :: "dthttpclient_accumulator_t \<Rightarrow> bool" where
  "acc_ok acc \<longleftrightarrow> ac_length acc \<le> ac_capacity acc \<and> ac_capacity acc \<le> INT32_MAX"

lemma grow_capacity_bounds:
  "0 < c \<Longrightarrow> c \<le> INT32_MAX \<Longrightarrow> required \<le> INT32_MAX \<Longrightarrow>
     \<exists>n. grow_capacity c required = Some n \<and> required \<le> n \<and> n \<le> INT32_MAX \<and> n < max (c + 1) (2 * required)"
proof (induction "nat (required - c)" arbitrary: c rule: less_induct)
  case less
  consider (fits) "required \<le> c" | (last) "c < required" "INT32_MAX div 2 < c" | (double) "c < required" "c \<le> INT32_MAX div 2"
    by linarith
  then show ?case
  proof cases
    case fits
    then show ?thesis using less.prems by (subst grow_capacity.simps) simp
  next
    case last
    then show ?thesis using less.prems by (subst grow_capacity.simps) simp
  next
    case double
    then have c2: "c * 2 \<le> INT32_MAX" by (simp add: INT32_MAX_def)
    have dec: "nat (required - c * 2) < nat (required - c)" using double(1) less.prems(1) by linarith
    have pos: "0 < c * 2" using less.prems(1) by simp
    from less.hyps [OF dec pos c2 less.prems(3)] obtain n
      where n: "grow_capacity (c * 2) required = Some n" "required \<le> n" "n \<le> INT32_MAX" "n < max (c * 2 + 1) (2 * required)"
      by blast
    have "grow_capacity c required = grow_capacity (c * 2) required"
      using double by (subst grow_capacity.simps) simp
    moreover have "n < max (c + 1) (2 * required)" using n(4) double(1) by linarith
    ultimately show ?thesis using n(1-3) by auto
  qed
qed

text \<open>Every call returns; it takes all bytes or none, and keeps the invariant.\<close>

lemma accumulate_result:
  assumes "acc_ok acc" "len = int (length data)"
  shows "\<exists>ok acc1. accumulate realloc_ok acc (Some data) len = Some (ok, acc1) \<and> acc_ok acc1 \<and>
    ac_failed acc1 = ac_failed acc \<and> (if ok then ac_bytes acc1 = ac_bytes acc @ data else acc1 = acc) \<and>
    (ac_length acc + len \<le> INT32_MAX \<and> (\<forall>n. realloc_ok n) \<longrightarrow> ok)"
proof -
  let ?r = "ac_length acc + len"
  have len0: "0 \<le> len" "0 \<le> ac_length acc" using assms(2) by (simp_all add: ac_length_def)
  consider "len = 0" | (over) "0 < len" "INT32_MAX < ?r" | (fit) "0 < len" "?r \<le> INT32_MAX" "?r \<le> ac_capacity acc"
    | (grow) "0 < len" "?r \<le> INT32_MAX" "ac_capacity acc < ?r" using len0(1) by linarith
  then show ?thesis
  proof cases
    case 1
    with assms show ?thesis by (intro exI [of _ True] exI [of _ acc]) (simp add: accumulate_def)
  next
    case over
    with assms show ?thesis by (intro exI [of _ False] exI [of _ acc]) (simp add: accumulate_def)
  next
    case fit
    with assms show ?thesis by (auto simp: accumulate_def acc_ok_def ac_length_def)
  next
    case grow
    let ?c = "if ac_capacity acc = 0 then 4096 else ac_capacity acc"
    have c: "0 < ?c" "?c \<le> INT32_MAX" using assms(1) len0(2) by (auto simp: acc_ok_def INT32_MAX_def)
    from grow_capacity_bounds [OF c grow(2)] obtain n where "grow_capacity ?c ?r = Some n" "?r \<le> n" "n \<le> INT32_MAX" by blast
    with grow assms show ?thesis by (auto simp: accumulate_def acc_ok_def ac_length_def)
  qed
qed

lemma write_body_result:
  assumes "acc_ok acc"
  shows "\<exists>n acc1. write_body realloc_ok (Some acc) (Some p) 1 (int (length p)) = Some (n, Some acc1) \<and> acc_ok acc1 \<and>
    (n = int (length p) \<and> ac_bytes acc1 = ac_bytes acc @ p \<and> ac_failed acc1 = ac_failed acc \<or>
     n = 0 \<and> p \<noteq> [] \<and> ac_failed acc1) \<and>
    (ac_length acc + int (length p) \<le> INT32_MAX \<and> (\<forall>n. realloc_ok n) \<longrightarrow> n = int (length p))"
proof (cases "INT32_MAX < int (length p)")
  case True
  then have "write_body realloc_ok (Some acc) (Some p) 1 (int (length p)) = Some (0, Some (acc\<lparr>ac_failed := True\<rparr>))"
    by (simp add: write_body_def Let_def)
  then show ?thesis using assms True by (auto simp: acc_ok_def ac_length_def INT32_MAX_def)
next
  case False
  from accumulate_result [OF assms refl, of realloc_ok p] obtain ok acc1
    where a: "accumulate realloc_ok acc (Some p) (int (length p)) = Some (ok, acc1)" "acc_ok acc1"
      "ac_failed acc1 = ac_failed acc" "if ok then ac_bytes acc1 = ac_bytes acc @ p else acc1 = acc"
      "ac_length acc + int (length p) \<le> INT32_MAX \<and> (\<forall>n. realloc_ok n) \<longrightarrow> ok"
    by blast
  have "accumulate realloc_ok acc (Some []) 0 = Some (True, acc)" by (simp add: accumulate_def)
  then have ne: "\<not> ok \<Longrightarrow> p \<noteq> []" using a(1) by auto
  from False a(1) have w: "write_body realloc_ok (Some acc) (Some p) 1 (int (length p)) =
      Some (if ok then (int (length p), Some acc1) else (0, Some (acc1\<lparr>ac_failed := True\<rparr>)))"
    by (simp add: write_body_def Let_def SIZE_MAX_def INT32_MAX_def)
  show ?thesis
  proof (cases ok)
    case True
    with a w show ?thesis by (intro exI [of _ "int (length p)"] exI [of _ acc1]) simp
  next
    case False
    with a w ne show ?thesis
      by (intro exI [of _ 0] exI [of _ "acc1\<lparr>ac_failed := True\<rparr>"]) (auto simp: acc_ok_def ac_length_def)
  qed
qed

lemma receive_body_result:
  "acc_ok acc \<Longrightarrow>
     \<exists>ok acc1. receive_body realloc_ok ps acc = Some (ok, acc1) \<and> acc_ok acc1 \<and>
       (if ok then ac_bytes acc1 = ac_bytes acc @ concat ps \<and> ac_failed acc1 = ac_failed acc else ac_failed acc1) \<and>
       (ac_length acc + int (length (concat ps)) \<le> INT32_MAX \<and> (\<forall>n. realloc_ok n) \<longrightarrow> ok)"
proof (induction ps arbitrary: acc)
  case Nil
  then show ?case by (intro exI [of _ True] exI [of _ acc]) simp
next
  case (Cons p ps)
  from write_body_result [OF Cons.prems, of realloc_ok p] obtain n acc1
    where w: "write_body realloc_ok (Some acc) (Some p) 1 (int (length p)) = Some (n, Some acc1)" "acc_ok acc1"
      "n = int (length p) \<and> ac_bytes acc1 = ac_bytes acc @ p \<and> ac_failed acc1 = ac_failed acc \<or> n = 0 \<and> p \<noteq> [] \<and> ac_failed acc1"
      "ac_length acc + int (length p) \<le> INT32_MAX \<and> (\<forall>n. realloc_ok n) \<longrightarrow> n = int (length p)"
    by blast
  show ?case
  proof (cases "n = int (length p)")
    case True
    with w(3) have a1: "ac_bytes acc1 = ac_bytes acc @ p" "ac_failed acc1 = ac_failed acc" by auto
    from Cons.IH [OF w(2)] obtain ok acc2
      where r: "receive_body realloc_ok ps acc1 = Some (ok, acc2)" "acc_ok acc2"
        "if ok then ac_bytes acc2 = ac_bytes acc1 @ concat ps \<and> ac_failed acc2 = ac_failed acc1 else ac_failed acc2"
        "ac_length acc1 + int (length (concat ps)) \<le> INT32_MAX \<and> (\<forall>n. realloc_ok n) \<longrightarrow> ok" by blast
    have len: "ac_length acc1 + int (length (concat ps)) = ac_length acc + int (length (concat (p # ps)))"
      using a1 by (simp add: ac_length_def)
    show ?thesis
      using w(1) True r(1,2,3) r(4) [unfolded len] a1 by (intro exI [of _ ok] exI [of _ acc2]) (simp split: if_splits)
  next
    case False
    with w(3,4) have "ac_failed acc1" "\<not> (ac_length acc + int (length p) \<le> INT32_MAX \<and> (\<forall>n. realloc_ok n))" by auto
    then show ?thesis
      using w(1,2) False by (intro exI [of _ False] exI [of _ acc1]) auto
  qed
qed

lemma acc_zero_ok: "acc_ok acc_zero"
  by (simp add: acc_ok_def acc_zero_def ac_length_def INT32_MAX_def)


section \<open>What a request returns\<close>

text \<open>
  What the client relies on: libcurl ends a transfer with a write error when the callback has not
  taken a piece.
\<close>

definition curl_contract :: "http_env \<Rightarrow> bool" where
  "curl_contract env \<longleftrightarrow>
     (\<forall>acc. receive_body (he_realloc env) (he_pieces env) acc_zero = Some (False, acc) \<longrightarrow> he_rc env = CurlWriteError)"

text \<open>
  C35: what a request returns, once it has been made: the status and the whole body of the response, or
  an error and a cleared response, with a timeout reported as such and everything else,
  memory that ran out during the transfer included, as a failed transfer. It never returns part of a
  body as a success.
\<close>

theorem http_response_whole:
  assumes "curl_contract env" "http_perform env post url encoded payload content_type timeout out = (res, Some req)"
  shows "res = Some
    (if he_rc env = CurlOk \<and> he_buffer env = None
     then (None, OutResponse \<lparr>hr_status_code = to_int32 (he_status env),
             hr_content_type = (case he_content_type env of None \<Rightarrow> [] | Some t \<Rightarrow> take (he_max env - 1) t),
             hr_body = Some (concat (he_pieces env))\<rparr>)
     else (if he_rc env = CurlOk then he_buffer env else Some (if he_rc env = CurlTimedOut then DTERR_TIMEOUT else DTERR_IO),
           OutResponse response_zero))"
proof -
  from receive_body_result [OF acc_zero_ok, of "he_realloc env" "he_pieces env"] obtain ok acc
    where r: "receive_body (he_realloc env) (he_pieces env) acc_zero = Some (ok, acc)"
      "ok \<longrightarrow> ac_bytes acc = concat (he_pieces env) \<and> \<not> ac_failed acc"
    by (auto simp: acc_zero_def split: if_splits)
  have ok: "he_rc env = CurlOk \<longrightarrow> ok" using assms(1) r(1) by (cases ok) (auto simp: curl_contract_def)
  have "res = http_transfer env" using assms(2) by (auto simp: http_perform_def Let_def split: if_splits sum.splits)
  with r ok show ?thesis
    by (auto simp: http_transfer_def http_fail_def make_response_body_def fill_response_info_def response_zero_def
        split: option.splits)
qed

text \<open>
  The request that is made: the URL with the encoded parameters behind a question mark, or
  behind an ampersand when it has one already, and for a POST the payload and the content type.
\<close>

theorem http_request_made:
  assumes "he_alloc env" "he_slist env" "timeout \<noteq> WaitNot" "out \<noteq> OutNull"
    and "e = [] \<or> length u + 1 + length e < 2 ^ 63" "length t < he_max env + 2"
  shows "snd (http_perform env post (Some u) (Some (Inr (Some e))) (Some d) (Some t) timeout out) =
    Some \<lparr>cr_url = (if e = [] then u else u @ (if CHR ''?'' \<in> set u then ''&'' else ''?'') @ e),
          cr_timeout_ms = (case timeout of WaitMillis n \<Rightarrow> n | _ \<Rightarrow> 0),
          cr_post = (if post then Some d else None),
          cr_header = (if post \<and> t \<noteq> [] then Some (''Content-Type: '' @ t) else None)\<rparr>"
  using assms by (auto simp: http_perform_def build_url_def content_type_header_def http_request_def SIZE_MAX_def Let_def)

text \<open>
  A request that is not to wait is refused before the response is cleared: the cleanup then frees
  the body that the caller's uninitialised memory seems to have.
\<close>

lemma http_nowait_frees: "fst (http_get env True (Some u) encoded WaitNot OutRaw) = None"
  by (simp add: http_get_def http_perform_def http_fail_def)

section \<open>Witnesses\<close>

definition sample_http :: http_env where
  "sample_http = \<lparr>he_max = 64, he_alloc = True, he_slist = True, he_realloc = (\<lambda>_. True), he_rc = CurlOk,
     he_pieces = [[1, 2], [3]], he_status = 200, he_content_type = Some ''text/plain'', he_buffer = None\<rparr>"


lemma sample_contract: "curl_contract sample_http"
  using receive_body_result [OF acc_zero_ok, of "\<lambda>_. True" "[[1, 2], [3]]"]
  by (auto simp: curl_contract_def sample_http_def acc_zero_def ac_length_def INT32_MAX_def)

theorem http_request_made_witness:
  "snd (http_perform sample_http True (Some ''http://h/p'') (Some (Inr (Some ''a=1''))) (Some [7]) (Some ''x/y'')
      (WaitMillis 50) OutRaw) =
    Some \<lparr>cr_url = ''http://h/p?a=1'', cr_timeout_ms = 50, cr_post = Some [7], cr_header = Some ''Content-Type: x/y''\<rparr>"
  by (subst http_request_made) (simp_all add: sample_http_def)

theorem http_response_whole_witness:
  "fst (http_perform sample_http False (Some ''http://h/p'') None None None WaitForever OutRaw) =
    Some (None, OutResponse \<lparr>hr_status_code = 200, hr_content_type = ''text/plain'', hr_body = Some [1, 2, 3]\<rparr>)"
proof -
  obtain res req where p: "http_perform sample_http False (Some ''http://h/p'') None None None WaitForever OutRaw = (res, Some req)"
    by (simp add: http_perform_def build_url_def sample_http_def Let_def)
  show ?thesis
    unfolding p by (simp add: http_response_whole [OF sample_contract p])
      (simp add: sample_http_def to_int32_def)
qed

end
