(* ===== verification/CommandLine.thy ===== *)
theory CommandLine
  imports HttpdRequest
begin

text \<open>
  What the command line parsers of the applications share: \<open>parse_int_strict\<close>, which they have in the
  same words, and their loop over the options. \<open>getopt_long\<close> is the C library's: what its successive
  calls deliver, the option and its argument, is a list.
\<close>

section \<open>Numbers\<close>

definition LONG_MAX :: int where "LONG_MAX = 9223372036854775807"

text \<open>\<open>strtol\<close> in base 10: the value, saturated, and the rest; the rest is the whole string without digits.\<close>

definition strtol10 :: "string \<Rightarrow> int \<times> string" where
  "strtol10 s =
     (let s1 = dropWhile is_space s;
          neg = (s1 \<noteq> [] \<and> hd s1 = CHR ''-'');
          s2 = (if s1 \<noteq> [] \<and> (hd s1 = CHR ''-'' \<or> hd s1 = CHR ''+'') then tl s1 else s1);
          ds = takeWhile is_digit s2;
          v = (if neg then - digits_value ds else digits_value ds)
      in if ds = [] then (0, s) else (max (- LONG_MAX - 1) (min LONG_MAX v), drop (length ds) s2))"

definition parse_int_strict :: "string option \<Rightarrow> int option" where
  "parse_int_strict s =
     (case s of
        None \<Rightarrow> None
      | Some t \<Rightarrow>
          if t = [] then None
          else (case strtol10 t of
                  (v, end_ptr) \<Rightarrow>
                    if end_ptr = t \<or> end_ptr \<noteq> [] then None
                    else if v < -2147483648 \<or> 2147483647 < v then None
                    else Some v))"

lemma parse_int_range: "parse_int_strict s = Some v \<Longrightarrow> is_int32 v"
  by (auto simp: parse_int_strict_def is_int32_def split: option.splits prod.splits if_splits)

lemma digit_not_sign: "is_digit c \<Longrightarrow> \<not> is_space c \<and> c \<noteq> CHR ''-'' \<and> c \<noteq> CHR ''+''"
  by (auto simp: is_digit_def is_space_def)

definition saturate :: "int \<Rightarrow> int" where
  "saturate v = max (- LONG_MAX - 1) (min LONG_MAX v)"

lemma strtol10_digits:
  assumes "list_all is_digit ds" "ds \<noteq> []"
  shows "strtol10 ds = (saturate (digits_value ds), [])" "strtol10 (CHR ''-'' # ds) = (saturate (- digits_value ds), [])"
proof -
  from assms(2) obtain c r where c: "ds = c # r" by (cases ds) auto
  with assms(1) digit_not_sign [of c] have h: "\<not> is_space c" "c \<noteq> CHR ''-''" "c \<noteq> CHR ''+''" by auto
  have "takeWhile is_digit ds = ds" using assms(1) by (simp add: takeWhile_eq_all_conv list_all_iff)
  moreover have "dropWhile is_space ds = ds" using h c by simp
  moreover have "\<not> is_space (CHR ''-'')" by (simp add: is_space_def)
  ultimately show "strtol10 ds = (saturate (digits_value ds), [])" "strtol10 (CHR ''-'' # ds) = (saturate (- digits_value ds), [])"
    using h c by (simp_all add: strtol10_def saturate_def Let_def)
qed

lemma saturate_small: "(saturate x < -2147483648 \<or> 2147483647 < saturate x) = (\<not> is_int32 x)" "is_int32 x \<Longrightarrow> saturate x = x"
  by (auto simp: saturate_def is_int32_def LONG_MAX_def)

text \<open>
  The number reader of the command lines and \<open>printf\<close>: what is printed for an \<open>int\<close> is read back
  as that number, and the digits of any other number are refused.
\<close>

theorem parse_int_roundtrip: "parse_int_strict (Some (show_int x)) = (if is_int32 x then Some x else None)"
proof -
  note d = show_nat_digits [of "nat \<bar>x\<bar>"] digits_value_show_nat [of "nat \<bar>x\<bar>"]
  have "strtol10 (show_int x) = (saturate x, [])"
    using d strtol10_digits [of "show_nat (nat \<bar>x\<bar>)"] by (auto simp: show_int_def split: if_splits)
  moreover have "show_int x \<noteq> []" using d by (auto simp: show_int_def)
  ultimately show ?thesis using saturate_small [of x] by (auto simp: parse_int_strict_def)
qed

section \<open>The loop over the options\<close>

text \<open>
  An option: the character that \<open>getopt_long\<close> returns, its argument, and the argument that follows
  it on the command line. A handler goes on with the next option or leaves the loop.
\<close>

record cmd_option =
  co_opt :: char
  co_arg :: "string option"
  co_next :: "string option"

datatype 'c option_result = OptionNext 'c | OptionLeave dterr 'c

fun option_loop :: "(cmd_option \<Rightarrow> 'c \<Rightarrow> 'c option_result) \<Rightarrow> cmd_option list \<Rightarrow> 'c \<Rightarrow> 'c option_result" where
  "option_loop handle [] cfg = OptionNext cfg"
| "option_loop handle (ev # evs) cfg =
     (case handle ev cfg of
        OptionNext cfg1 \<Rightarrow> option_loop handle evs cfg1
      | OptionLeave e cfg1 \<Rightarrow> OptionLeave e cfg1)"

text \<open>The loop, the test for arguments that are left over, and the validation.\<close>

definition parse_with ::
  "(cmd_option \<Rightarrow> 'c \<Rightarrow> 'c option_result) \<Rightarrow> ('c \<Rightarrow> dterr) \<Rightarrow> 'c \<Rightarrow> cmd_option list \<Rightarrow> bool \<Rightarrow> dterr \<times> 'c" where
  "parse_with handle validate init evs left_over =
     (case option_loop handle evs init of
        OptionLeave e cfg \<Rightarrow> (e, cfg)
      | OptionNext cfg \<Rightarrow> if left_over then (Some DTERR_BADARG, cfg) else (validate cfg, cfg))"

text \<open>\<open>n\<close> is stored by \<open>set\<close> when the argument is a number.\<close>

definition int_option :: "string option \<Rightarrow> (int \<Rightarrow> 'c) \<Rightarrow> 'c \<Rightarrow> 'c option_result" where
  "int_option arg set_value cfg =
     (case parse_int_strict arg of
        None \<Rightarrow> OptionLeave (Some DTERR_BADARG) cfg
      | Some v \<Rightarrow> OptionNext (set_value v))"

text \<open>As \<open>int_option\<close>, for a number that must not be negative.\<close>

definition count_option :: "string option \<Rightarrow> (int \<Rightarrow> 'c) \<Rightarrow> 'c \<Rightarrow> 'c option_result" where
  "count_option arg set_value cfg =
     (case parse_int_strict arg of
        None \<Rightarrow> OptionLeave (Some DTERR_BADARG) cfg
      | Some v \<Rightarrow> if v < 0 then OptionLeave (Some DTERR_RANGE) cfg else OptionNext (set_value v))"

text \<open>What every handler keeps holds at the end, whichever way the loop ends.\<close>

primrec final_config :: "'c option_result \<Rightarrow> 'c" where
  "final_config (OptionNext c) = c"
| "final_config (OptionLeave e c) = c"

lemma option_loop_keeps:
  assumes "\<And>ev c. P c \<Longrightarrow> P (final_config (handle ev c))"
  shows "P c \<Longrightarrow> P (final_config (option_loop handle evs c))"
proof (induction evs arbitrary: c)
  case (Cons ev evs)
  from assms [OF Cons.prems, of ev] Cons.IH show ?case by (cases "handle ev c") auto
qed simp

lemma parse_with_keeps:
  assumes "\<And>ev c. P c \<Longrightarrow> P (final_config (handle ev c))" "P init"
    "parse_with handle validate init evs left_over = (e, cfg)"
  shows "P cfg"
  using option_loop_keeps [of P handle init evs, OF assms(1,2)] assms(3)
  by (auto simp: parse_with_def split: option_result.splits if_splits)

text \<open>A parse without an error was validated, or left by an option that is no error.\<close>

lemma parse_with_ok:
  assumes "parse_with handle validate init evs left_over = (None, cfg)"
  shows "validate cfg = None \<or> option_loop handle evs init = OptionLeave None cfg"
  using assms by (auto simp: parse_with_def split: option_result.splits if_splits)

lemma option_loop_leave:
  assumes "option_loop handle evs init = OptionLeave e cfg"
  shows "\<exists>ev c. ev \<in> set evs \<and> handle ev c = OptionLeave e cfg"
  using assms
proof (induction evs arbitrary: init)
  case (Cons ev evs)
  show ?case
  proof (cases "handle ev init")
    case (OptionNext c)
    with Cons show ?thesis by force
  next
    case (OptionLeave e1 c)
    with Cons.prems show ?thesis by force
  qed
qed simp

end
