(* ===== verification/DemoTcp.thy ===== *)
theory DemoTcp
  imports CommandLine Tcp
begin

text \<open>
  The command line of \<open>apps/demo_iox_tcp\<close>: \<open>src/parser.c\<close> and the part of \<open>src/main.c\<close> that makes the TCP
  device from it.
\<close>

datatype tcpdemo_mode_t = MAIN_MODE_NONE | MAIN_MODE_TCP_MASTER | MAIN_MODE_TCP_SLAVE

record tcpdemo_config_t =
  td_mode :: tcpdemo_mode_t
  td_host :: "string option"
  td_port :: int
  td_tcp_nodelay :: bool
  td_keepalive :: bool
  td_rx_fifo_capacity :: int
  td_connect_timeout_ms :: int
  td_accept_timeout_ms :: int
  td_message_count :: int
  td_payload_size :: int
  td_help_requested :: bool

definition tcpdemo_config_init :: tcpdemo_config_t where
  "tcpdemo_config_init = \<lparr>td_mode = MAIN_MODE_NONE, td_host = None, td_port = 1502, td_tcp_nodelay = False,
     td_keepalive = False, td_rx_fifo_capacity = 4096, td_connect_timeout_ms = 0, td_accept_timeout_ms = 0,
     td_message_count = 1000, td_payload_size = 16, td_help_requested = False\<rparr>"

definition set_mode_once :: "tcpdemo_mode_t \<Rightarrow> tcpdemo_config_t \<Rightarrow> tcpdemo_config_t option_result" where
  "set_mode_once mode cfg =
     (if td_mode cfg \<noteq> MAIN_MODE_NONE then OptionLeave (Some DTERR_BADARG) cfg
      else OptionNext (cfg\<lparr>td_mode := mode\<rparr>))"

definition tcpdemo_validate_cfg :: "tcpdemo_config_t \<Rightarrow> dterr" where
  "tcpdemo_validate_cfg cfg =
     (if td_help_requested cfg then None
      else if td_mode cfg = MAIN_MODE_NONE then Some DTERR_BADARG
      else if td_port cfg \<le> 0 \<or> 65535 < td_port cfg then Some DTERR_RANGE
      else if td_mode cfg = MAIN_MODE_TCP_MASTER \<and> (td_host cfg = None \<or> td_host cfg = Some []) then Some DTERR_BADARG
      else if td_rx_fifo_capacity cfg \<le> 0 then Some DTERR_RANGE
      else if td_connect_timeout_ms cfg < 0 then Some DTERR_RANGE
      else if td_accept_timeout_ms cfg < 0 then Some DTERR_RANGE
      else if td_message_count cfg < 0 then Some DTERR_RANGE
      else if td_payload_size cfg < 0 then Some DTERR_RANGE
      else None)"

text \<open>The cases of the loop over the options.\<close>

definition tcpdemo_option :: "cmd_option \<Rightarrow> tcpdemo_config_t \<Rightarrow> tcpdemo_config_t option_result" where
  "tcpdemo_option ev cfg =
     (let c = co_opt ev; arg = co_arg ev in
      if c = CHR ''m'' then set_mode_once MAIN_MODE_TCP_MASTER cfg
      else if c = CHR ''s'' then set_mode_once MAIN_MODE_TCP_SLAVE cfg
      else if c = CHR ''H'' \<or> c = CHR ''i'' then OptionNext (cfg\<lparr>td_host := arg\<rparr>)
      else if c = CHR ''p'' then int_option arg (\<lambda>v. cfg\<lparr>td_port := v\<rparr>) cfg
      else if c = CHR ''n'' then OptionNext (cfg\<lparr>td_tcp_nodelay := True\<rparr>)
      else if c = CHR ''k'' then OptionNext (cfg\<lparr>td_keepalive := True\<rparr>)
      else if c = CHR ''f'' then int_option arg (\<lambda>v. cfg\<lparr>td_rx_fifo_capacity := v\<rparr>) cfg
      else if c = CHR ''x'' then int_option arg (\<lambda>v. cfg\<lparr>td_connect_timeout_ms := v\<rparr>) cfg
      else if c = CHR ''a'' then int_option arg (\<lambda>v. cfg\<lparr>td_accept_timeout_ms := v\<rparr>) cfg
      else if c = CHR ''c'' then count_option arg (\<lambda>v. cfg\<lparr>td_message_count := v\<rparr>) cfg
      else if c = CHR ''b'' then count_option arg (\<lambda>v. cfg\<lparr>td_payload_size := v\<rparr>) cfg
      else if c = CHR ''h'' then OptionLeave None (cfg\<lparr>td_help_requested := True\<rparr>)
      else OptionLeave (Some DTERR_BADARG) cfg)"

definition tcpdemo_parse_args :: "cmd_option list \<Rightarrow> bool \<Rightarrow> dterr \<times> tcpdemo_config_t" where
  "tcpdemo_parse_args evs left_over =
     parse_with tcpdemo_option tcpdemo_validate_cfg tcpdemo_config_init evs left_over"

text \<open>\<open>main_build_tcp_config\<close>; the timeouts, which the device never uses, are left out of its configuration.\<close>

definition build_tcp_config :: "tcpdemo_config_t \<Rightarrow> dterr \<times> tcp_config" where
  "build_tcp_config cfg =
     (let t = zero_tcp_config\<lparr>pc_rx_fifo_capacity := td_rx_fifo_capacity cfg, pc_tcp_nodelay := td_tcp_nodelay cfg,
            pc_keepalive := td_keepalive cfg\<rparr> in
      case td_mode cfg of
        MAIN_MODE_TCP_MASTER \<Rightarrow>
          (None, t\<lparr>pc_mode := DTIOX_LINUX_TCP_MODE_CLIENT, pc_remote_host := td_host cfg, pc_remote_port := td_port cfg\<rparr>)
      | MAIN_MODE_TCP_SLAVE \<Rightarrow>
          (None, t\<lparr>pc_mode := DTIOX_LINUX_TCP_MODE_SERVER, pc_local_bind_host := td_host cfg, pc_local_bind_port := td_port cfg\<rparr>)
      | MAIN_MODE_NONE \<Rightarrow> (Some DTERR_BADARG, t))"

text \<open>The name of the node, in a buffer of 128 bytes.\<close>

definition tcpdemo_node_name :: "tcpdemo_config_t \<Rightarrow> string" where
  "tcpdemo_node_name cfg =
     fit 128 (if td_mode cfg = MAIN_MODE_TCP_MASTER
              then ''dtmc_linux:tcp-client:'' @ (case td_host cfg of None \<Rightarrow> ''?'' | Some h \<Rightarrow> h) @ '':'' @ show_int (td_port cfg)
              else ''dtmc_linux:tcp-server:'' @ (case td_host cfg of None \<Rightarrow> ''0.0.0.0'' | Some h \<Rightarrow> h) @ '':'' @ show_int (td_port cfg))"

section \<open>What the parser promises the device\<close>

lemma tcpdemo_help_leaves: "tcpdemo_option ev c = OptionLeave None cfg \<Longrightarrow> td_help_requested cfg"
  by (auto simp: tcpdemo_option_def set_mode_once_def int_option_def count_option_def Let_def
      split: if_splits option.splits)

lemma tcpdemo_validated:
  assumes "tcpdemo_parse_args evs left_over = (None, cfg)" "\<not> td_help_requested cfg"
  shows "tcpdemo_validate_cfg cfg = None"
  using parse_with_ok [OF assms(1) [unfolded tcpdemo_parse_args_def]] assms(2) tcpdemo_help_leaves
  by (auto dest: option_loop_leave)

text \<open>
  C39: what the device does with the configuration of an accepted command line that does not
  ask for help: it takes it, with the ring of the size asked for, but for one case. The usage text
  and the validation let a server leave out the host, and the device refuses a server without one.
\<close>

theorem tcpdemo_configures_device:
  assumes "tcpdemo_parse_args evs left_over = (None, cfg)" "\<not> td_help_requested cfg"
  shows "\<exists>t. build_tcp_config cfg = (None, t) \<and>
    fst (tcp_configure rf None self t) =
      (if td_mode cfg = MAIN_MODE_TCP_SLAVE \<and> td_host cfg = None then Some DTERR_ASSERT
       else fst (rf_configure rf (td_rx_fifo_capacity cfg) (tcp_rx_fifo self)))"
proof -
  have v: "tcpdemo_validate_cfg cfg = None" using tcpdemo_validated [OF assms] .
  then show ?thesis
    using assms(2)
    by (cases "td_mode cfg")
      (auto simp: tcpdemo_validate_cfg_def build_tcp_config_def tcp_configure_def tcp_check_config_def Let_def
        split: if_splits option.splits prod.splits)
qed

theorem tcpdemo_configures_device_witness:
  "fst (tcp_configure list_fifo None sample_tcp (snd (build_tcp_config
     (tcpdemo_config_init\<lparr>td_mode := MAIN_MODE_TCP_SLAVE\<rparr>)))) = Some DTERR_ASSERT"
proof -
  let ?cfg = "tcpdemo_config_init\<lparr>td_mode := MAIN_MODE_TCP_SLAVE\<rparr>"
  have "tcpdemo_parse_args [\<lparr>co_opt = CHR ''s'', co_arg = None, co_next = None\<rparr>] False = (None, ?cfg)"
    by (simp add: tcpdemo_parse_args_def parse_with_def tcpdemo_option_def set_mode_once_def tcpdemo_config_init_def
        tcpdemo_validate_cfg_def)
  from tcpdemo_configures_device [OF this, of list_fifo sample_tcp] show ?thesis by (auto simp: tcpdemo_config_init_def)
qed

end
