(* ===== verification/DeviceTexts.thy ===== *)
theory DeviceTexts
  imports Tcp Tty Canbus Websocket HttpdServer ModbusMaster ModbusSlave
begin

text \<open>
  How the objects are written as text: the \<open>concat_format\<close> and \<open>to_string\<close> functions of the devices and
  of the HTTP server, and the names of their classes and interfaces. \<open>dtstr_concat_format\<close> of dtcore is
  the parameter \<open>join\<close>, from the text so far, the separator and the new text to the joined text; the
  texts of a line setting (dtmc_base) and of a task status are parameters as well.
\<close>

type_synonym joiner = "string option \<Rightarrow> string option \<Rightarrow> string \<Rightarrow> string"

definition show_bool :: "bool \<Rightarrow> string" where
  "show_bool b = (if b then ''true'' else ''false'')"

definition show_flag :: "bool \<Rightarrow> string" where
  "show_flag b = (if b then ''1'' else ''0'')"

definition quoted :: "string \<Rightarrow> string" where
  "quoted s = CHR 0x22 # s @ [CHR 0x22]"

text \<open>\<open>"%X"\<close>.\<close>

definition hex_digit :: "nat \<Rightarrow> char" where
  "hex_digit d = char_of (if d < 10 then 48 + d else 55 + d)"

fun show_hex :: "nat \<Rightarrow> string" where
  "show_hex n = (if n < 16 then [hex_digit n] else show_hex (n div 16) @ [hex_digit (n mod 16)])"

declare show_hex.simps [simp del]

section \<open>The texts\<close>

text \<open>The mode, host and port of a TCP device, the same in both of its texts.\<close>

definition tcp_endpoint :: "tcp_config \<Rightarrow> string \<times> string \<times> int" where
  "tcp_endpoint c =
     (if pc_mode c = DTIOX_LINUX_TCP_MODE_CLIENT
      then (''client'', case_option ''?'' id (pc_remote_host c), pc_remote_port c)
      else if pc_mode c = DTIOX_LINUX_TCP_MODE_SERVER
      then (''server'', case_option ''0.0.0.0'' id (pc_local_bind_host c), pc_local_bind_port c)
      else (''invalid'', ''?'', 0))"

definition tcp_concat_format :: "joiner \<Rightarrow> string option \<Rightarrow> string option \<Rightarrow> 'f dtiox_linux_tcp_t option \<Rightarrow> errcode + string" where
  "tcp_concat_format join in_str sep self =
     (case self of
        None \<Rightarrow> Inl DTERR_ASSERT
      | Some s \<Rightarrow>
          (case tcp_endpoint (tcp_config s) of
             (mode, host, port) \<Rightarrow>
               Inr (join in_str sep (''linux_tcp ('' @ show_int (tcp_model_number s) @ '') mode='' @ mode @ '' endpoint='' @
                 quoted (host @ '':'' @ show_int port) @ '' connected='' @ show_bool (tcp_is_connected s) @
                 '' fifo_capacity='' @ show_int (pc_rx_fifo_capacity (tcp_config s)) @
                 '' dropped='' @ show_int (tcp_fifo_dropped_bytes s) @ '' rx_enabled='' @ show_bool (tcp_rx_enabled s)))))"

definition tcp_to_string :: "nat \<Rightarrow> 'f dtiox_linux_tcp_t \<Rightarrow> string" where
  "tcp_to_string n self =
     (case tcp_endpoint (tcp_config self) of
        (mode, host, port) \<Rightarrow> fit n ((if mode = ''invalid'' then ''unknown'' else mode) @ '' '' @ host @ '':'' @ show_int port))"

text \<open>The TTY device does not check its arguments; its line setting is cut to 31 characters.\<close>

definition tty_concat_format ::
  "joiner \<Rightarrow> (dtuart_helper_config_t \<Rightarrow> string) \<Rightarrow> string option \<Rightarrow> string option \<Rightarrow> 'f dtiox_linux_tty_t \<Rightarrow> string" where
  "tty_concat_format join uart in_str sep self =
     join in_str sep (''linux_uart ('' @ show_int (tty_model_number self) @ '') dev='' @
       quoted (show_text (tc_device_path (tty_config self))) @ '' '' @ fit 32 (uart (tc_uart_config (tty_config self))) @
       '' rx_bytes='' @ show_int (tty_rx_byte_count self) @ '' tx_bytes='' @ show_int (tty_tx_byte_count self) @
       '' rx_calls='' @ show_int (tty_rx_read_calls self) @ '' tx_calls='' @ show_int (tty_tx_write_calls self) @
       '' dropped='' @ show_int (tty_fifo_dropped_bytes self) @ '' rx_enabled='' @ show_bool (tty_rx_enabled self))"

definition tty_to_string :: "(dtuart_helper_config_t \<Rightarrow> string) \<Rightarrow> nat \<Rightarrow> 'f dtiox_linux_tty_t \<Rightarrow> string" where
  "tty_to_string uart n self =
     fit n (show_text (tc_device_path (tty_config self)) @ '' '' @ fit 32 (uart (tc_uart_config (tty_config self))))"

text \<open>\<open>info\<close> is the answer of \<open>dttasker_get_info\<close>, which is asked when there is a task.\<close>

definition task_status_text :: "(task_status \<Rightarrow> string) \<Rightarrow> dterr \<Rightarrow> dttasker_t option \<Rightarrow> errcode + string" where
  "task_status_text status info tasker =
     (case tasker of
        None \<Rightarrow> Inr (status TASK_UNSET)
      | Some t \<Rightarrow> (case info of Some e \<Rightarrow> Inl e | None \<Rightarrow> Inr (status (tk_status t))))"

definition can_concat_format ::
  "joiner \<Rightarrow> (task_status \<Rightarrow> string) \<Rightarrow> dterr \<Rightarrow> string option \<Rightarrow> string option \<Rightarrow> 'f dtiox_linux_canbus_t option \<Rightarrow> errcode + string" where
  "can_concat_format join status info in_str sep self =
     (case self of
        None \<Rightarrow> Inl DTERR_ASSERT
      | Some s \<Rightarrow>
          (case task_status_text status info (can_rx_tasker s) of
             Inl e \<Rightarrow> Inl e
           | Inr st \<Rightarrow>
               Inr (join in_str sep (''linux_can ('' @ show_int (can_model_number s) @ '') iface='' @
                 quoted (show_text (cc_interface_name (can_config s))) @ '' tx_id=0x'' @ show_hex (unat (cc_txid (can_config s))) @
                 '' rx_ring_capacity='' @ show_int (rx_fifo_capacity_from_config s) @
                 '' frames='' @ show_int (can_rx_frame_count s) @ '' bytes='' @ show_int (can_rx_byte_count s) @
                 '' dropped='' @ show_int (can_fifo_dropped_bytes s) @ '' rx_enabled='' @ show_bool (can_rx_enabled s) @
                 '' rx_task_status='' @ st))))"

definition can_to_string :: "nat \<Rightarrow> 'f dtiox_linux_canbus_t \<Rightarrow> string" where
  "can_to_string n self =
     fit n (show_text (cc_interface_name (can_config self)) @ ''@'' @ show_int (sint (cc_txid (can_config self))))"

definition ws_concat_format :: "joiner \<Rightarrow> string option \<Rightarrow> string option \<Rightarrow> dtiox_linux_websocket_t option \<Rightarrow> errcode + string" where
  "ws_concat_format join in_str sep self =
     (case self of
        None \<Rightarrow> Inl DTERR_ASSERT
      | Some s \<Rightarrow>
          Inr (join in_str sep (''linux_websocket ('' @ show_int (ws_model_number s) @ '') mode=server endpoint='' @
            quoted (case_option ''0.0.0.0'' id (wc_local_bind_host (ws_cfg s)) @ '':'' @
                    show_int (wc_local_bind_port (ws_cfg s))) @
            '' connected='' @ show_bool (ws_is_connected s) @ '' write_enabled='' @ show_bool (ws_write_enabled s))))"

definition ws_to_string :: "nat \<Rightarrow> dtiox_linux_websocket_t \<Rightarrow> string" where
  "ws_to_string n self =
     fit n (''server '' @ case_option ''0.0.0.0'' id (wc_local_bind_host (ws_cfg self)) @ '':'' @
            show_int (wc_local_bind_port (ws_cfg self)))"

text \<open>The address of a server, and its roots as \<open>real\<close> (\<open>realpath\<close>) resolves them.\<close>

definition httpd_concat_format ::
  "joiner \<Rightarrow> (string \<Rightarrow> string option) \<Rightarrow> string list \<Rightarrow> string option \<Rightarrow> string option \<Rightarrow> dthttpd_t option
     \<Rightarrow> dterr \<times> string option" where
  "httpd_concat_format join real roots in_str sep self =
     (case self of
        None \<Rightarrow> (Some DTERR_ASSERT, in_str)
      | Some s \<Rightarrow>
          let host = case_option ''0.0.0.0'' id (hc_bind_host (hs_config s));
              shown = (if host = ''0.0.0.0'' \<or> host = ''::'' then ''localhost'' else host);
              first = join in_str sep (''http://'' @ shown @ '':'' @ show_int (hc_bind_port (hs_config s)))
          in (None, Some (fold (\<lambda>path t. join (Some t) sep (''webroot {'' @ case_option path id (real path) @ ''}'')) roots first)))"

section \<open>The Modbus devices\<close>

text \<open>
  The TCP devices join the texts themselves, in a buffer of 256 bytes that also takes the text so
  far. The lock is held while the text is made; \<open>malloc_ok\<close> is the memory for the result.
\<close>

definition exact_string :: "bool \<Rightarrow> string \<Rightarrow> errcode + string" where
  "exact_string malloc_ok s = (if malloc_ok then Inr (fit 256 s) else Inl DTERR_NOMEM)"

definition base_text :: "string option \<Rightarrow> string option \<Rightarrow> string" where
  "base_text in_str sep = case_option [] id in_str @ case_option [] id sep"

definition mtcp_concat_format ::
  "thread \<Rightarrow> bool \<Rightarrow> string option \<Rightarrow> string option \<Rightarrow> 'f dtiox_linux_modbus_tcp_master_t
     \<Rightarrow> ((errcode + string) \<times> 'f dtiox_linux_modbus_tcp_master_t) option" where
  "mtcp_concat_format t malloc_ok in_str sep self =
     (case dtlock_acquire t (mm_lock self) of
        None \<Rightarrow> None
      | Some (Some e, l) \<Rightarrow> Some (Inl e, self\<lparr>mm_lock := l\<rparr>)
      | Some (None, l) \<Rightarrow>
          let s1 = self\<lparr>mm_lock := l\<rparr>;
              text = base_text in_str sep @ ''master=libmodbus_tcp ip='' @ show_text (mt_ip s1) @ '' port='' @ show_int (mt_port s1) @
                '' unit='' @ show_int (mt_unit_id s1) @ '' enabled='' @ show_flag (mm_enabled s1) @
                '' rx_ring_capacity='' @ show_int (mm_rx_ring_capacity s1)
          in (case dtlock_release t l of
                None \<Rightarrow> None
              | Some (Some e, l1) \<Rightarrow> Some (Inl e, s1\<lparr>mm_lock := l1\<rparr>)
              | Some (None, l1) \<Rightarrow> Some (exact_string malloc_ok text, s1\<lparr>mm_lock := l1\<rparr>)))"

text \<open>An error of \<open>dttasker_get_info\<close> jumps behind the release of the lock.\<close>

definition slv_concat_format ::
  "(task_status \<Rightarrow> string) \<Rightarrow> dterr \<Rightarrow> thread \<Rightarrow> bool \<Rightarrow> string option \<Rightarrow> string option \<Rightarrow> 'f dtiox_linux_modbus_tcp_slave_t
     \<Rightarrow> ((errcode + string) \<times> 'f dtiox_linux_modbus_tcp_slave_t) option" where
  "slv_concat_format status info t malloc_ok in_str sep self =
     (case dtlock_acquire t (sl_lock self) of
        None \<Rightarrow> None
      | Some (Some e, l) \<Rightarrow> Some (Inl e, self\<lparr>sl_lock := l\<rparr>)
      | Some (None, l) \<Rightarrow>
          let s1 = self\<lparr>sl_lock := l\<rparr> in
          (case task_status_text status info (sl_rxtasker s1) of
             Inl e \<Rightarrow> Some (Inl e, s1)
           | Inr st \<Rightarrow>
               let text = base_text in_str sep @ ''slave=libmodbus_tcp port='' @ show_int (sl_port s1) @
                     '' enabled='' @ show_flag (sl_enabled s1) @ '' rx_ring_capacity='' @ show_int (sl_rx_ring_capacity s1) @
                     '' tx_pending='' @ show_flag (sl_tx_pending s1) @ '',  rxtask_status='' @ st
               in (case dtlock_release t l of
                     None \<Rightarrow> None
                   | Some (Some e, l1) \<Rightarrow> Some (Inl e, s1\<lparr>sl_lock := l1\<rparr>)
                   | Some (None, l1) \<Rightarrow> Some (exact_string malloc_ok text, s1\<lparr>sl_lock := l1\<rparr>))))"

text \<open>The RTU master; an error leaves the text as it was. Its separator is never NULL.\<close>

definition mrtu_concat_format ::
  "joiner \<Rightarrow> (dtuart_helper_config_t \<Rightarrow> string) \<Rightarrow> thread \<Rightarrow> string option \<Rightarrow> string option \<Rightarrow> 'f dtiox_linux_modbus_rtu_master_t
     \<Rightarrow> (dterr \<times> string option \<times> 'f dtiox_linux_modbus_rtu_master_t) option" where
  "mrtu_concat_format join uart t in_str sep self =
     (case dtlock_acquire t (mm_lock self) of
        None \<Rightarrow> None
      | Some (Some e, l) \<Rightarrow> Some (Some e, in_str, self\<lparr>mm_lock := l\<rparr>)
      | Some (None, l) \<Rightarrow>
          let s1 = self\<lparr>mm_lock := l\<rparr> in
          (case dtlock_release t l of
             None \<Rightarrow> None
           | Some (Some e, l1) \<Rightarrow> Some (Some e, in_str, s1\<lparr>mm_lock := l1\<rparr>)
           | Some (None, l1) \<Rightarrow>
               Some (None, Some (join in_str (Some (case_option [] id sep))
                 (''libmodbus_rtu '' @ show_text (mr_device s1) @ '':'' @ show_int (mr_slave_id s1) @ '' '' @
                  fit 256 (uart (mr_uart_config s1)) @ '' enabled='' @ show_flag (mm_enabled s1) @
                  '' rx_ring_capacity='' @ show_int (mm_rx_ring_capacity s1))), s1\<lparr>mm_lock := l1\<rparr>)))"

definition mtcp_to_string :: "nat \<Rightarrow> 'f dtiox_linux_modbus_tcp_master_t \<Rightarrow> string" where
  "mtcp_to_string n self = fit n (show_text (mt_ip self) @ '':'' @ show_int (mt_port self))"

definition mrtu_to_string :: "(dtuart_helper_config_t \<Rightarrow> string) \<Rightarrow> nat \<Rightarrow> 'f dtiox_linux_modbus_rtu_master_t \<Rightarrow> string" where
  "mrtu_to_string uart n self =
     fit n (show_text (mr_device self) @ '':slave='' @ show_int (mr_slave_id self) @ '' '' @ fit 128 (uart (mr_uart_config self)))"

definition slv_to_string :: "nat \<Rightarrow> 'f dtiox_linux_modbus_tcp_slave_t \<Rightarrow> string" where
  "slv_to_string n self = fit n (''0.0.0.0:'' @ show_int (sl_port self))"

text \<open>\<open>iox_name\<close> is the name of the device interface in dtmc_base, for all devices.\<close>

definition is_iface :: "string \<Rightarrow> string \<Rightarrow> bool" where
  "is_iface iox_name iface_name \<longleftrightarrow> iface_name = iox_name \<or> iface_name = ''dtobject_iface''"

section \<open>Properties\<close>

lemma fit_short: "length s < n \<Longrightarrow> fit n s = s"
  by (simp add: fit_def)

lemma fit_length: "0 < n \<Longrightarrow> length (fit n s) < n"
  by (simp add: fit_def)

text \<open>The texts fit the caller's buffer, with the NUL behind them.\<close>

lemma texts_fit:
  assumes "0 < n"
  shows "length (tcp_to_string n tcp) < n" "length (tty_to_string uart n tty) < n" "length (can_to_string n can) < n"
    "length (mtcp_to_string n mt) < n" "length (mrtu_to_string uart n mr) < n" "length (slv_to_string n sl) < n"
    "length (ws_to_string n ws) < n"
  using assms by (auto simp: tcp_to_string_def tty_to_string_def can_to_string_def mtcp_to_string_def mrtu_to_string_def
      slv_to_string_def ws_to_string_def fit_length split: prod.splits)

text \<open>Configured TCP devices that are equal have the same text.\<close>

lemma tcp_equal_texts:
  assumes "tcp_equals (Some a) (Some b)"
    and "pc_remote_host (tcp_config a) \<noteq> None \<longleftrightarrow> pc_remote_host (tcp_config b) \<noteq> None"
    and "pc_local_bind_host (tcp_config a) \<noteq> None \<longleftrightarrow> pc_local_bind_host (tcp_config b) \<noteq> None"
  shows "tcp_to_string n a = tcp_to_string n b"
  using assms by (auto simp: tcp_equals_def tcp_to_string_def tcp_endpoint_def Let_def split: if_splits option.splits)

text \<open>
  The TCP Modbus devices keep the text they are given to append to only when it is short: whatever
  does not fit 255 characters is cut off, and of a text of 255 characters or more nothing is added.
\<close>

lemma mtcp_concat_cuts:
  assumes "mtcp_concat_format t malloc_ok (Some s) sep self = Some (Inr out, self1)"
  shows "length out \<le> 255" "prefix s out \<longleftrightarrow> length s \<le> 255" "255 \<le> length s \<Longrightarrow> out = take 255 s"
proof -
  from assms obtain rest where out: "out = fit 256 (s @ rest)"
    by (auto simp: mtcp_concat_format_def exact_string_def base_text_def Let_def split: option.splits prod.splits if_splits)
  show "length out \<le> 255" by (simp add: out fit_def)
  show "255 \<le> length s \<Longrightarrow> out = take 255 s" by (simp add: out fit_def)
  show "prefix s out \<longleftrightarrow> length s \<le> 255"
  proof
    assume "prefix s out"
    from prefix_length_le [OF this] show "length s \<le> 255" by (simp add: out fit_def)
  next
    assume "length s \<le> 255"
    then show "prefix s out" by (simp add: out fit_def)
  qed
qed

text \<open>An error of the task's lock leaves the slave locked.\<close>

lemma slv_concat_keeps_lock:
  assumes "dtlock_acquire t (sl_lock self) = Some (None, l)" "sl_rxtasker self = Some tk"
  shows "slv_concat_format status (Some e) t malloc_ok in_str sep self = Some (Inl e, self\<lparr>sl_lock := l\<rparr>)"
  using assms by (simp add: slv_concat_format_def task_status_text_def)

end
