(* ===== verification/SvcAdcws.thy ===== *)
theory SvcAdcws
  imports CommandLine Tcp Websocket BufferQueue DeviceTexts
begin

text \<open>
  \<open>apps/svc_adcws\<close>: the service that carries scans from a TCP device to a websocket. Its command line
  (\<open>src/parser.c\<close>), the wiring of its two devices (\<open>src/main.c\<close>), and the service with its tasks
  (\<open>src/svc_adcws.c\<close>). The services it runs (dtmc_services) are parameters.
\<close>

section \<open>The command line\<close>

record adcws_config_t =
  aw_rx_host :: "string option"
  aw_rx_port :: int
  aw_tx_host :: "string option"
  aw_tx_port :: int
  aw_verbose :: bool
  aw_help_requested :: bool

definition adcws_config_init :: adcws_config_t where
  "adcws_config_init = \<lparr>aw_rx_host = Some ''localhost'', aw_rx_port = 14040, aw_tx_host = Some ''0.0.0.0'',
     aw_tx_port = 14090, aw_verbose = False, aw_help_requested = False\<rparr>"

text \<open>
  An optional argument is also taken from the argument that follows, when that is not an option; it
  is then skipped.
\<close>

definition getopt_optional_arg :: "cmd_option \<Rightarrow> string option" where
  "getopt_optional_arg ev =
     (case co_arg ev of
        Some a \<Rightarrow> Some a
      | None \<Rightarrow> (case co_next ev of
                    Some n \<Rightarrow> if n \<noteq> [] \<and> hd n = CHR ''-'' then None else Some n
                  | None \<Rightarrow> None))"

definition adcws_validate_cfg :: "adcws_config_t \<Rightarrow> dterr" where
  "adcws_validate_cfg cfg =
     (if aw_help_requested cfg then None
      else if aw_rx_host cfg = None \<or> aw_rx_host cfg = Some [] then Some DTERR_BADARG
      else if aw_rx_port cfg \<le> 0 \<or> 65535 < aw_rx_port cfg then Some DTERR_BADARG
      else if aw_tx_host cfg = None \<or> aw_tx_host cfg = Some [] then Some DTERR_BADARG
      else if aw_tx_port cfg \<le> 0 \<or> 65535 < aw_tx_port cfg then Some DTERR_BADARG
      else None)"

definition adcws_option :: "cmd_option \<Rightarrow> adcws_config_t \<Rightarrow> adcws_config_t option_result" where
  "adcws_option ev cfg =
     (let c = co_opt ev; arg = getopt_optional_arg ev in
      if c = CHR ''r'' then OptionNext (if arg \<noteq> None then cfg\<lparr>aw_rx_host := arg\<rparr> else cfg)
      else if c = CHR ''p'' then (if arg \<noteq> None then int_option arg (\<lambda>v. cfg\<lparr>aw_rx_port := v\<rparr>) cfg else OptionNext cfg)
      else if c = CHR ''t'' then OptionNext (if arg \<noteq> None then cfg\<lparr>aw_tx_host := arg\<rparr> else cfg)
      else if c = CHR ''q'' then (if arg \<noteq> None then int_option arg (\<lambda>v. cfg\<lparr>aw_tx_port := v\<rparr>) cfg else OptionNext cfg)
      else if c = CHR ''v'' then OptionNext (cfg\<lparr>aw_verbose := True\<rparr>)
      else if c = CHR ''h'' then OptionLeave None (cfg\<lparr>aw_help_requested := True\<rparr>)
      else OptionLeave (Some DTERR_BADARG) cfg)"

definition adcws_parse_args :: "cmd_option list \<Rightarrow> bool \<Rightarrow> dterr \<times> adcws_config_t" where
  "adcws_parse_args evs left_over = parse_with adcws_option adcws_validate_cfg adcws_config_init evs left_over"

section \<open>The devices\<close>

definition adcws_rx_config :: "adcws_config_t \<Rightarrow> tcp_config" where
  "adcws_rx_config cfg =
     zero_tcp_config\<lparr>pc_mode := DTIOX_LINUX_TCP_MODE_SERVER, pc_local_bind_host := aw_rx_host cfg,
       pc_local_bind_port := aw_rx_port cfg\<rparr>"

definition adcws_tx_config :: "adcws_config_t \<Rightarrow> ws_config" where
  "adcws_tx_config cfg =
     \<lparr>wc_local_bind_host = aw_tx_host cfg, wc_local_bind_port = aw_tx_port cfg, wc_keepalive = False,
      wc_tcp_nodelay = False, wc_handshake_timeout_ms = 0\<rparr>"

lemma adcws_help_leaves: "adcws_option ev c = OptionLeave None cfg \<Longrightarrow> aw_help_requested cfg"
  by (auto simp: adcws_option_def int_option_def Let_def split: if_splits option.splits)

lemma adcws_validated:
  assumes "adcws_parse_args evs left_over = (None, cfg)" "\<not> aw_help_requested cfg"
  shows "adcws_validate_cfg cfg = None"
  using parse_with_ok [OF assms(1) [unfolded adcws_parse_args_def]] assms(2) adcws_help_leaves
  by (auto dest: option_loop_leave)

text \<open>
  What the devices do with the configuration of an accepted command line that does not ask
  for help: the TCP server and the websocket both take it, the server with a ring of 4096 bytes.
\<close>

theorem adcws_configures_devices:
  assumes "adcws_parse_args evs left_over = (None, cfg)" "\<not> aw_help_requested cfg"
  shows "fst (tcp_configure rf None tcp (adcws_rx_config cfg)) = fst (rf_configure rf 4096 (tcp_rx_fifo tcp)) \<and>
    (\<exists>ws'. ws_configure ws (adcws_tx_config cfg) = (None, ws') \<and> ws_cfg ws' = adcws_tx_config cfg)"
  using adcws_validated [OF assms] assms(2)
  by (auto simp: adcws_validate_cfg_def tcp_configure_def tcp_check_config_def adcws_rx_config_def adcws_tx_config_def
      ws_configure_def zero_tcp_config_def Let_def split: if_splits prod.splits)

section \<open>The service\<close>

text \<open>
  The handles of the services and of the tasks are flags; an error object is its address.
\<close>

record svc_config =
  sv_rx_service :: bool
  sv_tx_service :: bool
  sv_recover_cooldown_rx_ms :: int
  sv_recover_cooldown_tx_ms :: int
  sv_rx_flowmonitor_name :: "string option"
  sv_tx_flowmonitor_name :: "string option"
  sv_verbose :: bool

record svc_t =
  sv_config :: svc_config
  sv_rx_tasker :: bool
  sv_tx_tasker :: bool
  sv_zz_tasker :: bool

definition svc_zero :: svc_t where
  "svc_zero = \<lparr>sv_config = \<lparr>sv_rx_service = False, sv_tx_service = False, sv_recover_cooldown_rx_ms = 0,
     sv_recover_cooldown_tx_ms = 0, sv_rx_flowmonitor_name = None, sv_tx_flowmonitor_name = None, sv_verbose = False\<rparr>,
     sv_rx_tasker = False, sv_tx_tasker = False, sv_zz_tasker = False\<rparr>"

definition svc_create :: "dterr \<Rightarrow> dterr \<times> svc_t option" where
  "svc_create alloc = (if alloc \<noteq> None then (alloc, None) else (None, Some svc_zero))"

definition svc_configure :: "svc_t \<Rightarrow> svc_config option \<Rightarrow> dterr \<times> svc_t" where
  "svc_configure self config =
     (case config of
        None \<Rightarrow> (Some DTERR_ASSERT, self)
      | Some c \<Rightarrow>
          if \<not> sv_rx_service c \<or> \<not> sv_tx_service c then (Some DTERR_ASSERT, self)
          else (None, self\<lparr>sv_config :=
             c\<lparr>sv_recover_cooldown_rx_ms := (if 0 < sv_recover_cooldown_rx_ms c then sv_recover_cooldown_rx_ms c else 2000),
               sv_recover_cooldown_tx_ms := (if 0 < sv_recover_cooldown_tx_ms c then sv_recover_cooldown_tx_ms c else 100)\<rparr>\<rparr>))"

text \<open>
  The loop of the rx and the tx task. Each round has the answer of the happy loop of its service,
  which is dropped, and of its recovery, which ends the task when it fails.
\<close>

fun svc_entry_loop :: "(nat option \<times> nat option) list \<Rightarrow> nat option option" where
  "svc_entry_loop [] = None"
| "svc_entry_loop ((happy, recover) # rounds) = (if recover \<noteq> None then Some recover else svc_entry_loop rounds)"

definition svc_entrypoint :: "nat option \<Rightarrow> (nat option \<times> nat option) list \<Rightarrow> nat option option" where
  "svc_entrypoint ready rounds = (if ready \<noteq> None then Some ready else svc_entry_loop rounds)"

text \<open>
  The callback for a change of a task: it disposes the error it is told of. \<open>live\<close> are the error
  objects that are allocated.
\<close>

definition svc_task_info_callback :: "nat option \<Rightarrow> nat set \<Rightarrow> dterr \<times> nat set" where
  "svc_task_info_callback err live = (None, live - set_option err)"

text \<open>
  The monitoring loop of \<open>start\<close>: each round reads the stored errors of the rx, the tx and the monitor
  task, and the first that is there is returned. \<open>None\<close>: it still runs.
\<close>

fun svc_monitor :: "(nat option \<times> nat option \<times> nat option) list \<Rightarrow> nat option" where
  "svc_monitor [] = None"
| "svc_monitor ((rx, tx, zz) # rounds) =
     (if rx \<noteq> None then rx else if tx \<noteq> None then tx else if zz \<noteq> None then zz else svc_monitor rounds)"

text \<open>
  \<open>start\<close>: the tasks are created and then started, and an error of a creation or a start is the
  result. \<open>assert_err\<close> is the error for a missing service.
\<close>

definition svc_start ::
  "svc_t \<Rightarrow> nat option \<times> nat option \<times> nat option \<Rightarrow> nat option list \<Rightarrow> (nat option \<times> nat option \<times> nat option) list \<Rightarrow> nat
     \<Rightarrow> nat option \<times> svc_t" where
  "svc_start self creates starts rounds assert_err =
     (if \<not> sv_rx_service (sv_config self) \<or> \<not> sv_tx_service (sv_config self) then (Some assert_err, self)
      else (case creates of
              (c_rx, c_tx, c_zz) \<Rightarrow>
                if c_rx \<noteq> None then (c_rx, self)
                else let s1 = self\<lparr>sv_rx_tasker := True\<rparr> in
                if c_tx \<noteq> None then (c_tx, s1)
                else let s2 = s1\<lparr>sv_tx_tasker := True\<rparr> in
                if c_zz \<noteq> None then (c_zz, s2)
                else let s3 = s2\<lparr>sv_zz_tasker := True\<rparr> in
                (case find (\<lambda>e. e \<noteq> None) starts of
                   Some e \<Rightarrow> (e, s3)
                 | None \<Rightarrow> (svc_monitor rounds, s3))))"

text \<open>
  What the end of a task with error \<open>err\<close> leaves: \<open>dttasker_set_info\<close> stores the error and gives the
  callback a copy of the record, which refers to the same error object.
\<close>

definition task_ended :: "nat option \<Rightarrow> nat set \<Rightarrow> nat option \<times> nat set" where
  "task_ended err live = (err, snd (svc_task_info_callback err live))"


text \<open>
  What \<open>dispose\<close> disposes, in order: two of the tasks, and the memory of the service. It stops none,
  and leaves the monitor task, which goes on with the freed service.
\<close>

datatype svc_release = ReleaseTxTask | ReleaseRxTask | ReleaseService

definition svc_dispose :: "svc_t option \<Rightarrow> svc_release list" where
  "svc_dispose self =
     (case self of
        None \<Rightarrow> []
      | Some s \<Rightarrow> (if sv_tx_tasker s then [ReleaseTxTask] else []) @ (if sv_rx_tasker s then [ReleaseRxTask] else []) @
                  [ReleaseService])"

section \<open>The description and the monitor\<close>

text \<open>\<open>rx\<close> and \<open>tx\<close> are the texts of the services, of which the first 255 characters are used.\<close>

definition svc_describe :: "joiner \<Rightarrow> string \<Rightarrow> string \<Rightarrow> svc_t \<Rightarrow> errcode + string" where
  "svc_describe join rx tx self =
     (if \<not> sv_rx_service (sv_config self) \<or> \<not> sv_tx_service (sv_config self) then Inl DTERR_ASSERT
      else
        let sep = Some (LF # ''    '');
            d1 = join None sep ''Description of the svc:'';
            d2 = join (Some d1) sep ''This service transfers data between from the rx to the tx service'';
            d3 = join (Some d2) sep (''The rx service object is '' @ fit 256 rx)
        in Inr (join (Some d3) sep (''The tx service object is '' @ fit 256 tx)))"

text \<open>
  A round of the monitor. \<open>rx\<close> and \<open>tx\<close> are the answers of the two flow monitors (dtmc_services), which
  add to the line they are given: an error object or the longer line.
\<close>

type_synonym flow_answer = "nat + (string option \<Rightarrow> string)"

definition svc_zz_line :: "joiner \<Rightarrow> svc_config \<Rightarrow> flow_answer \<Rightarrow> flow_answer \<Rightarrow> nat + string" where
  "svc_zz_line join c rx tx =
     (case (if sv_rx_service c then (case rx of Inl e \<Rightarrow> Inl e | Inr add \<Rightarrow> Inr (Some (add None))) else Inr None) of
        Inl e \<Rightarrow> Inl e
      | Inr s \<Rightarrow>
          let s1 = join s None '' || '' in
          if sv_tx_service c then (case tx of Inl e \<Rightarrow> Inl e | Inr add \<Rightarrow> Inr (add (Some s1))) else Inr s1)"

text \<open>The lines that are logged, and the error that ends the task, if it has ended.\<close>

fun svc_zz_loop :: "joiner \<Rightarrow> svc_config \<Rightarrow> (flow_answer \<times> flow_answer) list \<Rightarrow> nat option \<times> string list" where
  "svc_zz_loop join c [] = (None, [])"
| "svc_zz_loop join c ((rx, tx) # rounds) =
     (case svc_zz_line join c rx tx of
        Inl e \<Rightarrow> (Some e, [])
      | Inr line \<Rightarrow> (case svc_zz_loop join c rounds of (e, lines) \<Rightarrow> (e, line # lines)))"

text \<open>\<open>inits\<close> are the answers of the initialisation of the flow monitors.\<close>

definition svc_zz_entrypoint ::
  "joiner \<Rightarrow> nat option \<times> nat option \<Rightarrow> nat option \<Rightarrow> svc_config \<Rightarrow> (flow_answer \<times> flow_answer) list \<Rightarrow> nat option \<times> string list" where
  "svc_zz_entrypoint join inits ready c rounds =
     (if fst inits \<noteq> None then (fst inits, [])
      else if snd inits \<noteq> None then (snd inits, [])
      else if ready \<noteq> None then (ready, [])
      else svc_zz_loop join c rounds)"

definition flow_names :: "svc_config \<Rightarrow> string \<times> string" where
  "flow_names c = (case_option ''rx'' id (sv_rx_flowmonitor_name c), case_option ''tx'' id (sv_tx_flowmonitor_name c))"

lemma zz_lines_complete:
  "svc_zz_loop join c rounds = (None, lines) \<Longrightarrow>
     list_all2 (\<lambda>(rx, tx) line. svc_zz_line join c rx tx = Inr line) rounds lines"
  by (induction join c rounds arbitrary: lines rule: svc_zz_loop.induct) (auto split: sum.splits prod.splits)

section \<open>The pool of buffers\<close>

text \<open>
  The loop of \<open>main\<close> that makes the buffers and puts them into the queue of free ones: the answer of
  \<open>dtbuffer_create\<close> for each, the error, the queue, and whether a buffer was put aside silently.
  \<open>None\<close>: a memory fault.
\<close>

fun fill_pool :: "(errcode + buffer) list \<Rightarrow> dtbufferqueue_t \<Rightarrow> (dterr \<times> dtbufferqueue_t) option" where
  "fill_pool [] q = Some (None, q)"
| "fill_pool (Inl e # bs) q = Some (Some e, q)"
| "fill_pool (Inr b # bs) q =
     (case dtbufferqueue_put None WaitNot False (Some b) q of
        (BqReturned (Some e) _, q1) \<Rightarrow> Some (Some e, q1)
      | (BqFault, q1) \<Rightarrow> None
      | (_, q1) \<Rightarrow> fill_pool bs q1)"

lemma pool_put:
  assumes "bq_valid q" "length (bq_items q) < nat (bq_max_count q)"
  shows "\<exists>q1. dtbufferqueue_put None WaitNot False (Some b) q = (BqMoved None (Some b), q1) \<and> bq_valid q1 \<and>
    bq_items q1 = bq_items q @ [Some b] \<and> bq_max_count q1 = bq_max_count q"
proof -
  from bq_enqueue_valid [OF assms, of "Some b"] obtain q1 where q1: "bq_enqueue (Some b) q = Some q1" "bq_valid q1"
    "bq_items q1 = bq_items q @ [Some b]" by blast
  have "\<not> bq_full q" using assms by (simp add: bq_full_iff)
  moreover have "bq_max_count q1 = bq_max_count q" using q1(1) by (auto simp: bq_enqueue_def split: if_splits)
  ultimately show ?thesis using q1 by (intro exI [of _ q1]) (simp add: dtbufferqueue_put_def bq_do_put_def set_flag_def)
qed

lemma fill_pool_result:
  "bq_valid q \<Longrightarrow> length (bq_items q) + length bs \<le> nat (bq_max_count q) \<Longrightarrow>
     \<exists>q1. fill_pool (map Inr bs) q = Some (None, q1) \<and> bq_valid q1 \<and> bq_items q1 = bq_items q @ map Some bs \<and>
       bq_max_count q1 = bq_max_count q"
proof (induction bs arbitrary: q)
  case (Cons b bs)
  from pool_put [OF Cons.prems(1), of b] Cons.prems(2) obtain q1
    where q1: "dtbufferqueue_put None WaitNot False (Some b) q = (BqMoved None (Some b), q1)" "bq_valid q1"
      "bq_items q1 = bq_items q @ [Some b]" "bq_max_count q1 = bq_max_count q" by auto
  have "length (bq_items q1) = Suc (length (bq_items q))" by (simp only: q1(3) length_append) simp
  with Cons.prems(2) q1(4) have "length (bq_items q1) + length bs \<le> nat (bq_max_count q1)" by simp
  from Cons.IH [OF q1(2) this] obtain q2 where "fill_pool (map Inr bs) q1 = Some (None, q2)" "bq_valid q2"
    "bq_items q2 = bq_items q1 @ map Some bs" "bq_max_count q2 = bq_max_count q1" by blast
  with q1 show ?case by (intro exI [of _ q2]) simp
qed simp

text \<open>
  The four buffers of the program all fit the queue of free buffers: no put of the start-up is
  dropped, and the queue then holds exactly them, in their order, and is full.
\<close>

lemma adcws_pool_filled:
  assumes "dtbufferqueue_create env 4 ow = (None, Some q)" "length bs = 4"
  shows "\<exists>q1. fill_pool (map Inr bs) q = Some (None, q1) \<and> bq_items q1 = map Some bs \<and> bq_full q1"
proof -
  note q = bq_create_ok [OF assms(1)]
  have "length (bq_items q) + length bs \<le> nat (bq_max_count q)" using q assms(2) by (simp del: length_bq_items)
  from fill_pool_result [OF _ this] q obtain q1 where q1: "fill_pool (map Inr bs) q = Some (None, q1)" "bq_valid q1"
    "bq_items q1 = map Some bs" "bq_max_count q1 = 4" by (auto simp del: length_bq_items)
  have "unat (bq_count q1) = length (bq_items q1)" by simp
  also have "\<dots> = 4" by (simp only: q1(3) length_map assms(2))
  finally have "bq_full q1" using q1(4) bq_full_iff [OF q1(2)] by simp
  with q1 show ?thesis by blast
qed

section \<open>Witnesses\<close>


theorem adcws_configures_devices_witness:
  "\<exists>ws'. ws_configure (snd (ws_init 1 None None)) (adcws_tx_config adcws_config_init) = (None, ws') \<and>
     ws_cfg ws' = adcws_tx_config adcws_config_init"
proof -
  have "adcws_parse_args [] False = (None, adcws_config_init)"
    by (simp add: adcws_parse_args_def parse_with_def adcws_config_init_def adcws_validate_cfg_def)
  from adcws_configures_devices [OF this] show ?thesis by (auto simp: adcws_config_init_def)
qed

end
