(* ===== verification/BenchModbus.thy ===== *)
theory BenchModbus
  imports CommandLine ModbusMaster ModbusSlave
begin

text \<open>
  The command line of \<open>apps/benchmark_netportal_simplex_modbus\<close>: \<open>src/parser.c\<close> and the part of
  \<open>src/main.c\<close> that makes one of the three Modbus devices from it.
\<close>

datatype bench_mode_t = BENCH_MODE_NONE | BENCH_MODE_RTU_MASTER | BENCH_MODE_TCP_MASTER | BENCH_MODE_TCP_SLAVE

record bench_config_t =
  bm_mode :: bench_mode_t
  bm_port :: int
  bm_slave_id :: int
  bm_device :: "string option"
  bm_ip :: "string option"
  bm_message_count :: int
  bm_payload_size :: int

definition bench_config_init :: bench_config_t where
  "bench_config_init = \<lparr>bm_mode = BENCH_MODE_NONE, bm_port = 1502, bm_slave_id = 1, bm_device = None,
     bm_ip = None, bm_message_count = 1000, bm_payload_size = 16\<rparr>"

definition bench_validate_cfg :: "bench_config_t \<Rightarrow> dterr" where
  "bench_validate_cfg cfg =
     (if bm_mode cfg = BENCH_MODE_NONE then Some DTERR_BADARG
      else if bm_port cfg \<le> 0 \<or> 65535 < bm_port cfg then Some DTERR_RANGE
      else if bm_mode cfg = BENCH_MODE_RTU_MASTER \<and> (bm_device cfg = None \<or> bm_device cfg = Some []) then Some DTERR_BADARG
      else if bm_mode cfg = BENCH_MODE_RTU_MASTER \<and> (bm_slave_id cfg < 1 \<or> 247 < bm_slave_id cfg) then Some DTERR_RANGE
      else if bm_mode cfg = BENCH_MODE_TCP_MASTER \<and> (bm_ip cfg = None \<or> bm_ip cfg = Some []) then Some DTERR_BADARG
      else if bm_message_count cfg < 0 then Some DTERR_RANGE
      else if bm_payload_size cfg < 0 then Some DTERR_RANGE
      else None)"

definition bench_set_mode :: "bench_mode_t \<Rightarrow> bench_config_t \<Rightarrow> bench_config_t option_result" where
  "bench_set_mode mode cfg =
     (if bm_mode cfg \<noteq> BENCH_MODE_NONE then OptionLeave (Some DTERR_BADARG) cfg
      else OptionNext (cfg\<lparr>bm_mode := mode\<rparr>))"

definition bench_option :: "cmd_option \<Rightarrow> bench_config_t \<Rightarrow> bench_config_t option_result" where
  "bench_option ev cfg =
     (let c = co_opt ev; arg = co_arg ev in
      if c = CHR ''r'' then bench_set_mode BENCH_MODE_RTU_MASTER cfg
      else if c = CHR ''m'' then bench_set_mode BENCH_MODE_TCP_MASTER cfg
      else if c = CHR ''s'' then bench_set_mode BENCH_MODE_TCP_SLAVE cfg
      else if c = CHR ''d'' then OptionNext (cfg\<lparr>bm_device := arg\<rparr>)
      else if c = CHR ''i'' then OptionNext (cfg\<lparr>bm_ip := arg\<rparr>)
      else if c = CHR ''p'' then int_option arg (\<lambda>v. cfg\<lparr>bm_port := v\<rparr>) cfg
      else if c = CHR ''l'' then int_option arg (\<lambda>v. cfg\<lparr>bm_slave_id := v\<rparr>) cfg
      else if c = CHR ''h'' then OptionLeave None cfg
      else if c = CHR ''c'' then count_option arg (\<lambda>v. cfg\<lparr>bm_message_count := v\<rparr>) cfg
      else if c = CHR ''b'' then count_option arg (\<lambda>v. cfg\<lparr>bm_payload_size := v\<rparr>) cfg
      else OptionLeave (Some DTERR_BADARG) cfg)"

definition bench_parse_args :: "cmd_option list \<Rightarrow> bool \<Rightarrow> dterr \<times> bench_config_t" where
  "bench_parse_args evs left_over =
     parse_with bench_option bench_validate_cfg bench_config_init evs left_over"

text \<open>
  The device that \<open>main\<close> configures: the three configurations. \<open>uart\<close> is the default line setting of
  dtmc_base.
\<close>

datatype bench_device = BenchRtu rtu_master_config | BenchMaster tcp_master_config | BenchSlave slave_config

definition bench_device :: "dtuart_helper_config_t \<Rightarrow> bench_config_t \<Rightarrow> errcode + bench_device" where
  "bench_device uart cfg =
     (case bm_mode cfg of
        BENCH_MODE_RTU_MASTER \<Rightarrow>
          Inr (BenchRtu \<lparr>rm_device = bm_device cfg, rm_uart_config = uart, rm_slave_id = bm_slave_id cfg,
            rm_poll_interval_ms = 0, rm_response_timeout_ms = 0, rm_byte_timeout_ms = 0, rm_max_blob_bytes = 0,
            rm_permit_retry_partial_writes = False, rm_rx_ring_capacity = 0, rm_rs485_mode = False, rm_rts_toggle = False\<rparr>)
      | BENCH_MODE_TCP_SLAVE \<Rightarrow>
          Inr (BenchSlave \<lparr>sc_port = bm_port cfg, sc_max_blob_bytes = 0, sc_rx_ring_capacity = 0, sc_response_timeout_ms = 0\<rparr>)
      | BENCH_MODE_TCP_MASTER \<Rightarrow>
          Inr (BenchMaster \<lparr>tm_ip = bm_ip cfg, tm_port = bm_port cfg, tm_unit_id = 0, tm_poll_interval_ms = 0,
            tm_response_timeout_ms = 0, tm_max_blob_bytes = 0, tm_rx_ring_capacity = 0\<rparr>)
      | BENCH_MODE_NONE \<Rightarrow> Inl DTERR_BADARG)"

text \<open>\<open>main\<close> up to the device: it has no way to see that help was asked for.\<close>

definition bench_main :: "dtuart_helper_config_t \<Rightarrow> cmd_option list \<Rightarrow> bool \<Rightarrow> errcode + bench_device" where
  "bench_main uart evs left_over =
     (case bench_parse_args evs left_over of
        (Some e, _) \<Rightarrow> Inl e
      | (None, cfg) \<Rightarrow> bench_device uart cfg)"

lemma bench_help: "bench_option ev c = OptionLeave None cfg \<Longrightarrow> co_opt ev = CHR ''h'' \<and> c = cfg"
  by (auto simp: bench_option_def bench_set_mode_def int_option_def count_option_def Let_def split: if_splits option.splits)

lemma bench_validated:
  assumes "bench_parse_args evs left_over = (None, cfg)" "list_all (\<lambda>ev. co_opt ev \<noteq> CHR ''h'') evs"
  shows "bench_validate_cfg cfg = None"
  using parse_with_ok [OF assms(1) [unfolded bench_parse_args_def]] assms(2) bench_help
  by (auto dest!: option_loop_leave simp: list_all_iff)

lemma mm_resources_keep:
  "mt_port (snd (mm_configure_resources rf env tcp)) = mt_port tcp" "mt_ip (snd (mm_configure_resources rf env tcp)) = mt_ip tcp"
  "mr_device (snd (mm_configure_resources rf env rtu)) = mr_device rtu"
  "mr_slave_id (snd (mm_configure_resources rf env rtu)) = mr_slave_id rtu"
  by (simp_all add: mm_configure_resources_def Let_def split: prod.splits sum.splits)

lemma mm_defaults_keep:
  "mt_port (mm_config_defaults c tcp) = mt_port tcp" "mt_ip (mm_config_defaults c tcp) = mt_ip tcp"
  "mr_device (mm_config_defaults c rtu) = mr_device rtu" "mr_slave_id (mm_config_defaults c rtu) = mr_slave_id rtu"
  by (simp_all add: mm_config_defaults_def Let_def)

lemma slv_configure_port: "sl_port (snd (slv_configure c rf env slave cfg)) = (if sc_port cfg = 0 then mc_tcp_default_port c else sc_port cfg)"
  by (simp add: slv_configure_def Let_def split: prod.splits sum.splits)

text \<open>
  The device of an accepted command line that does not ask for help. What \<open>configure\<close>
  leaves in the object is what the command line says, defaults included: an RTU master has its device
  and a slave id from 1 to 247, a TCP master its host, and both ends of a TCP connection a
  port from 1 to 65535, none of them replaced by a default of the device.
\<close>

theorem bench_device_complete:
  assumes "bench_main uart evs left_over = Inr dev" "list_all (\<lambda>ev. co_opt ev \<noteq> CHR ''h'') evs"
    and "uart_error uart = None" "bench_parse_args evs left_over = (None, cfg)"
  shows "case dev of
      BenchRtu r \<Rightarrow> (let self = snd (mrtu_configure c rf uart_error env rtu r) in
        mr_device self = bm_device cfg \<and> bm_device cfg \<noteq> None \<and>
        mr_slave_id self = bm_slave_id cfg \<and> 1 \<le> bm_slave_id cfg \<and> bm_slave_id cfg \<le> 247)
    | BenchMaster m \<Rightarrow> (let self = snd (mtcp_configure c rf env tcp m) in
        mt_ip self = bm_ip cfg \<and> bm_ip cfg \<noteq> None \<and> mt_port self = bm_port cfg \<and> 0 < bm_port cfg \<and> bm_port cfg \<le> 65535)
    | BenchSlave s \<Rightarrow> sl_port (snd (slv_configure c rf env slave s)) = bm_port cfg \<and> 0 < bm_port cfg \<and> bm_port cfg \<le> 65535"
proof -
  have v: "bench_validate_cfg cfg = None" using bench_validated [OF assms(4,2)] .
  have d: "bench_device uart cfg = Inr dev" using assms(1,4) by (simp add: bench_main_def)
  show ?thesis
  proof (cases "bm_mode cfg")
    case BENCH_MODE_RTU_MASTER
    with v d assms(3) show ?thesis
      by (auto simp: bench_device_def bench_validate_cfg_def mrtu_configure_def Let_def mm_resources_keep mm_defaults_keep
          split: if_splits)
  next
    case BENCH_MODE_TCP_MASTER
    with v d show ?thesis
      by (auto simp: bench_device_def bench_validate_cfg_def mtcp_configure_def Let_def mm_resources_keep mm_defaults_keep
          split: if_splits)
  next
    case BENCH_MODE_TCP_SLAVE
    with v d show ?thesis by (auto simp: bench_device_def bench_validate_cfg_def slv_configure_port split: if_splits)
  qed (use v in \<open>simp add: bench_validate_cfg_def\<close>)
qed

lemma option_loop_append:
  "option_loop handle evs c = OptionNext c1 \<Longrightarrow> option_loop handle (evs @ rest) c = option_loop handle rest c1"
  by (induction evs arbitrary: c) (auto split: option_result.splits)

text \<open>
  What asking for help does. The parser prints the usage and returns no error, and the program
  goes on with the options before, which have not been validated: alone it is an error, behind the
  mode of a slave it starts the slave, behind that of an RTU master one without a device.
\<close>

theorem bench_help_goes_on:
  assumes "option_loop bench_option evs bench_config_init = OptionNext cfg" "co_opt h = CHR ''h''"
  shows "bench_main uart (evs @ h # rest) left_over = bench_device uart cfg"
  using option_loop_append [OF assms(1), of "h # rest"] assms(2)
  by (simp add: bench_main_def bench_parse_args_def parse_with_def bench_option_def)

section \<open>Witnesses\<close>

definition sample_config_env :: modbus_config_env where
  "sample_config_env = \<lparr>me_malloc_ok = True, me_task_create = Inr running_tasker,
     me_lock = \<lparr>le_malloc_ok = True, le_attr_init = None, le_settype = None, le_init = None\<rparr>\<rparr>"

theorem bench_help_goes_on_witness:
  "bench_main sample_uart ([\<lparr>co_opt = CHR ''s'', co_arg = None, co_next = None\<rparr>] @ [\<lparr>co_opt = CHR ''h'', co_arg = None, co_next = None\<rparr>]) False =
     Inr (BenchSlave \<lparr>sc_port = 1502, sc_max_blob_bytes = 0, sc_rx_ring_capacity = 0, sc_response_timeout_ms = 0\<rparr>)"
  by (subst bench_help_goes_on [where cfg = "bench_config_init\<lparr>bm_mode := BENCH_MODE_TCP_SLAVE\<rparr>"])
    (simp_all add: bench_option_def bench_set_mode_def bench_config_init_def bench_device_def)

theorem bench_device_complete_witness:
  "sl_port (snd (slv_configure byte_consts list_fifo sample_config_env sample_slave \<lparr>sc_port = 1502, sc_max_blob_bytes = 0, sc_rx_ring_capacity = 0,
     sc_response_timeout_ms = 0\<rparr>)) = 1502"
proof -
  let ?evs = "[\<lparr>co_opt = CHR ''s'', co_arg = None, co_next = None\<rparr>]"
  have p: "bench_parse_args ?evs False = (None, bench_config_init\<lparr>bm_mode := BENCH_MODE_TCP_SLAVE\<rparr>)"
    by (simp add: bench_parse_args_def parse_with_def bench_option_def bench_set_mode_def bench_config_init_def bench_validate_cfg_def)
  then have "bench_main sample_uart ?evs False = Inr (BenchSlave \<lparr>sc_port = 1502, sc_max_blob_bytes = 0,
      sc_rx_ring_capacity = 0, sc_response_timeout_ms = 0\<rparr>)"
    by (simp add: bench_main_def bench_device_def bench_config_init_def)
  from bench_device_complete [OF this _ _ p, of "\<lambda>_. None" byte_consts list_fifo sample_config_env _ _ sample_slave] show ?thesis by (simp add: bench_config_init_def)
qed

end
