(* ===== verification/Display.thy ===== *)
theory Display
  imports Tasker Dtiox Cstring
begin

text \<open>
  \<open>dtmc_linux_library/src/dtdisplay_linux_sdl.c\<close>: a window that shows a raster of pixels. The raster is
  dtcore's and the window SDL's; both are parameters.
\<close>

section \<open>The object\<close>

record display_config =
  dc_title :: string
  dc_window_width :: u32
  dc_window_height :: u32
  dc_join_semaphore :: "dtsemaphore_linux_t option"

text \<open>
  The backing buffer is its length. \<open>'r\<close> is the state of the backing raster.
\<close>

record 'r dtdisplay_linux_sdl_t =
  ds_model_number :: int
  ds_configuration :: display_config
  ds_backing_buffer :: "int option"
  ds_backing_raster :: "'r option"
  ds_dirty_event_type :: u32
  ds_sdl_window :: bool
  ds_sdl_renderer :: bool
  ds_sdl_texture :: bool
  ds_event_loop_tasker :: "dttasker_t option"
  ds_event_loop_poll_ms :: int
  ds_is_malloced :: bool
  ds_is_sdl_initialized :: bool
  ds_event_loop_should_quit :: bool

record 'r raster_api =
  ra_create :: "errcode + 'r"
  ra_config :: "u32 \<Rightarrow> u32 \<Rightarrow> u32 \<Rightarrow> 'r \<Rightarrow> dterr \<times> 'r"
  ra_use_buffer :: "'r \<Rightarrow> dterr \<times> 'r"
  ra_blit :: "'r \<Rightarrow> int \<Rightarrow> int \<Rightarrow> 'r \<Rightarrow> dterr \<times> 'r"

definition display_zero :: "int \<Rightarrow> 'r dtdisplay_linux_sdl_t" where
  "display_zero model = \<lparr>ds_model_number = model,
     ds_configuration = \<lparr>dc_title = [], dc_window_width = 0, dc_window_height = 0, dc_join_semaphore = None\<rparr>,
     ds_backing_buffer = None, ds_backing_raster = None, ds_dirty_event_type = 0, ds_sdl_window = False,
     ds_sdl_renderer = False, ds_sdl_texture = False, ds_event_loop_tasker = None, ds_event_loop_poll_ms = 0,
     ds_is_malloced = False, ds_is_sdl_initialized = False, ds_event_loop_should_quit = False\<rparr>"

text \<open>The registration, once in the process: the error and the mark that it was done.\<close>

definition register_vtables :: "bool \<Rightarrow> dterr \<Rightarrow> dterr \<Rightarrow> dterr \<times> bool" where
  "register_vtables registered reg1 reg2 =
     (if registered then (None, True)
      else if reg1 \<noteq> None then (reg1, False)
      else if reg2 \<noteq> None then (reg2, False)
      else (None, True))"

definition display_init :: "int \<Rightarrow> bool \<Rightarrow> dterr \<Rightarrow> dterr \<Rightarrow> dterr \<times> 'r dtdisplay_linux_sdl_t" where
  "display_init model registered reg1 reg2 = (fst (register_vtables registered reg1 reg2), display_zero model)"

text \<open>An error of \<open>init\<close> leaves the caller with the allocated object.\<close>

definition display_create ::
  "dterr \<Rightarrow> int \<Rightarrow> bool \<Rightarrow> dterr \<Rightarrow> dterr \<Rightarrow> dterr \<times> 'r dtdisplay_linux_sdl_t option" where
  "display_create alloc model registered reg1 reg2 =
     (if alloc \<noteq> None then (alloc, None)
      else (case display_init model registered reg1 reg2 of
              (Some e, self) \<Rightarrow> (Some e, Some self)
            | (None, self) \<Rightarrow> (None, Some (self\<lparr>ds_is_malloced := True\<rparr>))))"

text \<open>The size of the buffer: unsigned 32-bit arithmetic, passed as \<open>int32_t\<close>; a pixel has 4 bytes.\<close>

definition buffer_bytes :: "u32 \<Rightarrow> u32 \<Rightarrow> int" where
  "buffer_bytes width height = sint (height * width * 4)"

definition display_title :: "display_config \<Rightarrow> string" where
  "display_title c =
     (if dc_title c = []
      then fit 64 (''dtdisplay_linux_sdl ['' @ show_int (uint (dc_window_width c)) @ ''x'' @
                   show_int (uint (dc_window_height c)) @ '']'')
      else dc_title c)"

text \<open>
  \<open>buffer\<close> is the answer of \<open>dtbuffer_create\<close> for a size; the priority is the one of number 0.
\<close>

definition display_configure ::
  "'r raster_api \<Rightarrow> (int \<Rightarrow> dterr) \<Rightarrow> create_env \<Rightarrow> dttasker_priority_t
     \<Rightarrow> 'r dtdisplay_linux_sdl_t \<Rightarrow> display_config \<Rightarrow> dterr \<times> 'r dtdisplay_linux_sdl_t" where
  "display_configure ra buffer task zero_priority self cfg =
     (if ds_backing_buffer self \<noteq> None \<or> ds_backing_raster self \<noteq> None then (Some DTERR_BADCONFIG, self)
      else
        let w = dc_window_width cfg; h = dc_window_height cfg; self1 = self\<lparr>ds_configuration := cfg\<rparr> in
        if w = 0 \<or> h = 0 then (Some DTERR_BADCONFIG, self1)
        else
          let self2 = self1\<lparr>ds_configuration := cfg\<lparr>dc_title := display_title cfg\<rparr>\<rparr> in
          if buffer (buffer_bytes w h) \<noteq> None then (buffer (buffer_bytes w h), self2)
          else
            let self3 = self2\<lparr>ds_backing_buffer := Some (buffer_bytes w h)\<rparr> in
            (case ra_create ra of
               Inl e \<Rightarrow> (Some e, self3)
             | Inr r \<Rightarrow>
                 (case ra_config ra w h (w * 4) r of
                    (Some e, r1) \<Rightarrow> (Some e, self3\<lparr>ds_backing_raster := Some r1\<rparr>)
                  | (None, r1) \<Rightarrow>
                      (case ra_use_buffer ra r1 of
                         (Some e, r2) \<Rightarrow> (Some e, self3\<lparr>ds_backing_raster := Some r2\<rparr>)
                       | (None, r2) \<Rightarrow>
                           let self4 = self3\<lparr>ds_backing_raster := Some r2, ds_event_loop_poll_ms := 10\<rparr> in
                           (case dttasker_create task ''display'' zero_priority 0 of
                              (e, t) \<Rightarrow> (e, self4\<lparr>ds_event_loop_tasker := t\<rparr>))))))"

text \<open>A raster like the one of the display; \<open>like\<close> is \<open>dtraster_create_compatible_raster\<close>.\<close>

definition display_create_compatible_raster ::
  "('r option \<Rightarrow> int \<Rightarrow> int \<Rightarrow> errcode + 'r) \<Rightarrow> 'r dtdisplay_linux_sdl_t \<Rightarrow> int \<Rightarrow> int \<Rightarrow> errcode + 'r" where
  "display_create_compatible_raster like self w h = like (ds_backing_raster self) w h"

text \<open>\<open>start\<close> is \<open>dttasker_start\<close>.\<close>

definition display_attach ::
  "(dttasker_t option \<Rightarrow> dterr \<times> dttasker_t option) \<Rightarrow> 'r dtdisplay_linux_sdl_t \<Rightarrow> dterr \<times> 'r dtdisplay_linux_sdl_t" where
  "display_attach start self =
     (if ds_is_sdl_initialized self then (Some DTERR_BADCONFIG, self)
      else (case start (ds_event_loop_tasker self) of (e, t) \<Rightarrow> (e, self\<lparr>ds_event_loop_tasker := t\<rparr>)))"

text \<open>The time it then sleeps, in milliseconds, is the second result.\<close>

definition display_detach :: "'r dtdisplay_linux_sdl_t \<Rightarrow> 'r dtdisplay_linux_sdl_t \<times> int" where
  "display_detach self = (self\<lparr>ds_event_loop_should_quit := True\<rparr>, ds_event_loop_poll_ms self * 2)"

text \<open>A blit of \<open>src\<close>; the event that is then pushed, whose acceptance is not looked at.\<close>

definition display_blit ::
  "'r raster_api \<Rightarrow> 'r option \<Rightarrow> int \<Rightarrow> int \<Rightarrow> 'r dtdisplay_linux_sdl_t \<Rightarrow> dterr \<times> 'r dtdisplay_linux_sdl_t \<times> u32 option" where
  "display_blit ra src x y self =
     (case (ds_backing_raster self, src) of
        (Some r, Some s) \<Rightarrow>
          (case ra_blit ra s x y r of
             (e, r1) \<Rightarrow>
               let self1 = self\<lparr>ds_backing_raster := Some r1\<rparr> in
               if e \<noteq> None then (e, self1, None) else (None, self1, Some (ds_dirty_event_type self1)))
      | _ \<Rightarrow> (Some DTERR_ASSERT, self, None))"

text \<open>What is left: nothing of an allocated object, zeros of another. The task is not touched.\<close>

definition display_dispose :: "'r dtdisplay_linux_sdl_t option \<Rightarrow> 'r dtdisplay_linux_sdl_t option" where
  "display_dispose self =
     (case self of None \<Rightarrow> None | Some s \<Rightarrow> if ds_is_malloced s then None else Some (display_zero 0))"

definition display_equals :: "'r dtdisplay_linux_sdl_t \<Rightarrow> 'r dtdisplay_linux_sdl_t \<Rightarrow> bool" where
  "display_equals a b = False"

definition display_to_string :: "nat \<Rightarrow> 'r dtdisplay_linux_sdl_t \<Rightarrow> string" where
  "display_to_string n self =
     fit n (''dtdisplay_linux_sdl '' @ [CHR 0x22] @ dc_title (ds_configuration self) @ [CHR 0x22] @ '' ['' @
            show_int (uint (dc_window_width (ds_configuration self))) @ ''x'' @
            show_int (uint (dc_window_height (ds_configuration self))) @ '']'')"

section \<open>The task\<close>

text \<open>What SDL answers to the set-up; \<open>sd_events\<close> is the number of the event type, \<open>-1\<close> for none.\<close>

record sdl_setup =
  sd_events :: u32
  sd_window :: bool
  sd_renderer :: bool
  sd_texture :: bool

text \<open>The first test is of the constant \<open>SDL_INIT_VIDEO\<close>, which is not negative; nothing is initialised.\<close>

definition SDL_INIT_VIDEO :: int where "SDL_INIT_VIDEO = 32"

definition display_setup :: "sdl_setup \<Rightarrow> 'r dtdisplay_linux_sdl_t \<Rightarrow> dterr \<times> 'r dtdisplay_linux_sdl_t" where
  "display_setup sd self =
     (if ds_is_sdl_initialized self then (Some DTERR_BADCONFIG, self)
      else if SDL_INIT_VIDEO < 0 then (Some DTERR_FAIL, self)
      else
        let self1 = self\<lparr>ds_is_sdl_initialized := True, ds_dirty_event_type := sd_events sd\<rparr> in
        if sd_events sd = -1 then (Some DTERR_IO, self1)
        else let self2 = self1\<lparr>ds_sdl_window := sd_window sd\<rparr> in
        if \<not> sd_window sd then (Some DTERR_IO, self2)
        else let self3 = self2\<lparr>ds_sdl_renderer := sd_renderer sd\<rparr> in
        if \<not> sd_renderer sd then (Some DTERR_IO, self3)
        else let self4 = self3\<lparr>ds_sdl_texture := sd_texture sd\<rparr> in
        if \<not> sd_texture sd then (Some DTERR_IO, self4) else (None, self4))"

text \<open>The calls of the teardown, which leaves the pointers and the mark as they are.\<close>

datatype sdl_release = DestroyTexture | DestroyRenderer | DestroyWindow | QuitSdl

definition display_teardown :: "'r dtdisplay_linux_sdl_t \<Rightarrow> sdl_release list" where
  "display_teardown self =
     (if ds_sdl_texture self then [DestroyTexture] else []) @ (if ds_sdl_renderer self then [DestroyRenderer] else []) @
     (if ds_sdl_window self then [DestroyWindow] else []) @ (if ds_is_sdl_initialized self then [QuitSdl] else [])"

text \<open>
  An event: the type, and whether it is the close event of a window. The numbers are those of SDL.
\<close>

record sdl_event =
  ev_type :: u32
  ev_close :: bool

definition SDL_QUIT :: u32 where "SDL_QUIT = 0x100"
definition SDL_WINDOWEVENT :: u32 where "SDL_WINDOWEVENT = 0x200"

text \<open>The rendering: the answers of its three calls, and whether the raster is shown.\<close>

record render_env =
  re_update :: bool
  re_clear :: bool
  re_copy :: bool

definition render_dirty :: "render_env \<Rightarrow> dterr \<times> bool" where
  "render_dirty env =
     (if \<not> re_update env then (Some DTERR_FAIL, False)
      else if \<not> re_clear env then (Some DTERR_FAIL, False)
      else if \<not> re_copy env then (Some DTERR_FAIL, False)
      else (None, True))"

text \<open>
  \<open>handle_event\<close>: the error, whether to quit, and whether the raster was shown. \<open>message\<close>: SDL has an
  error message. A failed wait with a message is handled as the event left from before.
\<close>

definition handle_event ::
  "render_env \<Rightarrow> 'r dtdisplay_linux_sdl_t \<Rightarrow> int \<Rightarrow> bool \<Rightarrow> sdl_event \<Rightarrow> dterr \<times> bool \<times> bool" where
  "handle_event env self rc message ev =
     (if rc = 0 \<and> \<not> message then (None, False, False)
      else if ev_type ev = SDL_QUIT then (None, True, False)
      else if ev_type ev = SDL_WINDOWEVENT then (None, ev_close ev, False)
      else if ev_type ev = ds_dirty_event_type self then (case render_dirty env of (e, shown) \<Rightarrow> (e, False, shown))
      else (None, False, False))"

text \<open>
  The loop; each turn has the answer of the wait, the quit flag as it then is, and the answers of the
  rendering. The result is the error and how often the raster was shown; \<open>None\<close>: it still runs.
\<close>

record loop_turn =
  lt_rc :: int
  lt_message :: bool
  lt_event :: sdl_event
  lt_quit :: bool
  lt_render :: render_env

fun event_loop :: "'r dtdisplay_linux_sdl_t \<Rightarrow> loop_turn list \<Rightarrow> (dterr \<times> nat) option" where
  "event_loop self [] = None"
| "event_loop self (t # ts) =
     (if lt_quit t then Some (None, 0)
      else (case handle_event (lt_render t) self (lt_rc t) (lt_message t) (lt_event t) of
              (Some e, _, shown) \<Rightarrow> Some (Some e, 0)
            | (None, quit, shown) \<Rightarrow>
                if quit then Some (None, 0)
                else map_option (\<lambda>(e, n). (e, (if shown then 1 else 0) + n)) (event_loop self ts)))"

text \<open>
  The entry point: the error, the object with its semaphore, and the calls of the teardown. The
  semaphore is posted before them, and an error of the post is dropped when there is no other.
\<close>

definition display_entrypoint ::
  "sdl_setup \<Rightarrow> dterr \<Rightarrow> loop_turn list \<Rightarrow> errno option \<Rightarrow> 'r dtdisplay_linux_sdl_t
     \<Rightarrow> (dterr \<times> 'r dtdisplay_linux_sdl_t \<times> sdl_release list) option" where
  "display_entrypoint sd ready turns post_rc self =
     (let cleanup = (\<lambda>e s.
            let s1 = (case dc_join_semaphore (ds_configuration s) of
                        None \<Rightarrow> s
                      | Some sem \<Rightarrow> s\<lparr>ds_configuration := (ds_configuration s)\<lparr>dc_join_semaphore :=
                                       Some (fst (snd (dtsemaphore_post post_rc sem)))\<rparr>\<rparr>)
            in (if e \<noteq> None then Some DTERR_FAIL else None, s1, display_teardown s1)) in
      (case display_setup sd self of
         (Some e, s) \<Rightarrow> Some (cleanup (Some e) s)
       | (None, s) \<Rightarrow>
           if ready \<noteq> None then Some (cleanup ready s)
           else map_option (\<lambda>(e, _). cleanup e s) (event_loop s turns)))"

section \<open>The buffer\<close>

text \<open>The argument of \<open>dtbuffer_create\<close> is the size of the raster only below 2^31.\<close>

lemma buffer_bytes_mod: "buffer_bytes w h = signed_take_bit 31 (4 * uint w * uint h)"
proof -
  have "buffer_bytes w h = sint (word_of_int (4 * uint w * uint h) :: u32)"
    unfolding buffer_bytes_def by (rule arg_cong [of _ _ sint]) (simp add: ac_simps)
  then show ?thesis unfolding sint_sbintrunc' by simp
qed

lemma buffer_bytes_exact: "buffer_bytes w h = 4 * uint w * uint h \<longleftrightarrow> 4 * uint w * uint h < 2 ^ 31"
proof -
  have n: "0 \<le> 4 * uint w * uint h" by simp
  show ?thesis
  proof
    assume "buffer_bytes w h = 4 * uint w * uint h"
    moreover have "buffer_bytes w h < 2 ^ 31" unfolding buffer_bytes_def by (rule less_le_trans [OF sint_lt]) simp
    ultimately show "4 * uint w * uint h < 2 ^ 31" by simp
  next
    assume le: "4 * uint w * uint h < 2 ^ 31"
    have "- (2 ^ 31) \<le> 4 * uint w * uint h" by (rule order_trans [OF _ n]) simp
    then show "buffer_bytes w h = 4 * uint w * uint h"
      unfolding buffer_bytes_mod using le by (rule signed_take_bit_int_eq_self)
  qed
qed

lemma display_configure_buffer:
  assumes "display_configure ra buffer task pr self cfg = (None, s)"
  shows "ds_backing_buffer s = Some (buffer_bytes (dc_window_width cfg) (dc_window_height cfg)) \<and>
    ds_backing_raster s \<noteq> None"
  using assms
  by (auto simp: display_configure_def Let_def split: if_splits sum.splits prod.splits option.splits)

text \<open>A raster that is the list of the pictures drawn on it.\<close>

definition raster_example :: "nat list raster_api" where
  "raster_example = \<lparr>ra_create = Inr [], ra_config = (\<lambda>w h b r. (None, r)), ra_use_buffer = (\<lambda>r. (None, r)),
     ra_blit = (\<lambda>s x y r. (None, s @ r))\<rparr>"

definition display_example :: "u32 \<Rightarrow> dterr \<times> nat list dtdisplay_linux_sdl_t" where
  "display_example n = display_configure raster_example (\<lambda>_. None) calm_create PRIORITY__START (display_zero 1)
     \<lparr>dc_title = ''t'', dc_window_width = n, dc_window_height = n, dc_join_semaphore = None\<rparr>"

lemmas display_example_simps = display_example_def display_configure_def Let_def raster_example_def display_zero_def
  dttasker_create_def calm_create_def dtsemaphore_create_def calm_sem_env_def dttasker_set_info_def

lemma display_example_ok: "n \<noteq> 0 \<Longrightarrow> fst (display_example n) = None"
  by (simp add: display_example_simps)

text \<open>
  A configured display has a raster of width * height pixels with rows of width * 4 bytes. Its
  buffer holds exactly these 4 * width * height bytes, for the sizes for which this is less than
  2^31; for every other size the product wraps, and the buffer that the raster writes into has a
  smaller size.
\<close>

theorem display_buffer_holds_raster:
  assumes "display_configure ra buffer task pr self cfg = (None, s)"
  shows "\<exists>n. ds_backing_buffer s = Some n \<and>
    (n = 4 * uint (dc_window_width cfg) * uint (dc_window_height cfg) \<longleftrightarrow>
       4 * uint (dc_window_width cfg) * uint (dc_window_height cfg) < 2 ^ 31) \<and>
    n \<le> 4 * uint (dc_window_width cfg) * uint (dc_window_height cfg)"
proof -
  let ?w = "dc_window_width cfg" let ?h = "dc_window_height cfg"
  have "buffer_bytes ?w ?h \<le> 4 * uint ?w * uint ?h"
  proof (cases "4 * uint ?w * uint ?h < 2 ^ 31")
    case True
    then show ?thesis using buffer_bytes_exact [of ?w ?h] by simp
  next
    case False
    have "buffer_bytes ?w ?h < 2 ^ 31" unfolding buffer_bytes_def by (rule less_le_trans [OF sint_lt]) simp
    with False show ?thesis by linarith
  qed
  then show ?thesis using display_configure_buffer [OF assms] buffer_bytes_exact [of ?w ?h] by auto
qed

text \<open>A square of 32768 pixels has an empty buffer.\<close>

theorem display_buffer_holds_raster_witness:
  "\<exists>n. ds_backing_buffer (snd (display_example 32768)) = Some n \<and> n \<noteq> 4 * 32768 * 32768 \<and> n \<le> 4 * 32768 * 32768"
proof -
  have "display_example 32768 = (None, snd (display_example 32768))"
    using display_example_ok [of 32768] by (simp add: prod_eq_iff)
  from display_buffer_holds_raster [OF this [unfolded display_example_def]] show ?thesis
    unfolding display_example_def by simp
qed

section \<open>Threads that draw, and the task that shows\<close>

text \<open>
  The display with the queue of SDL's events, the pushes of threads that have drawn and not pushed yet,
  and the picture on the screen. \<open>dy_drawn\<close>: the last blit succeeded.
\<close>

record 'r display_sys =
  dy_self :: "'r dtdisplay_linux_sdl_t"
  dy_events :: "sdl_event list"
  dy_last :: sdl_event
  dy_pushing :: "u32 list"
  dy_screen :: "'r option"
  dy_drawn :: bool
  dy_running :: bool

text \<open>What a wait finds: the first event, or at a timeout the event left from before.\<close>

definition wait_event :: "'r display_sys \<Rightarrow> int \<times> sdl_event \<times> sdl_event list" where
  "wait_event d = (case dy_events d of [] \<Rightarrow> (0, dy_last d, []) | ev # evs \<Rightarrow> (1, ev, evs))"

definition display_turn :: "render_env \<Rightarrow> bool \<Rightarrow> 'r display_sys \<Rightarrow> 'r display_sys" where
  "display_turn env message d =
     (case wait_event d of (rc, ev, evs) \<Rightarrow>
        let d1 = d\<lparr>dy_events := evs, dy_last := ev\<rparr> in
        if ds_event_loop_should_quit (dy_self d) then d1\<lparr>dy_running := False\<rparr>
        else (case handle_event env (dy_self d) rc message ev of
                (e, quit, shown) \<Rightarrow>
                  d1\<lparr>dy_screen := if shown then ds_backing_raster (dy_self d) else dy_screen d,
                     dy_running := e = None \<and> \<not> quit\<rparr>))"

inductive display_step :: "'r raster_api \<Rightarrow> 'r display_sys \<Rightarrow> 'r display_sys \<Rightarrow> bool" for ra where
  blit: "display_blit ra src x y (dy_self d) = (e, self1, p) \<Longrightarrow>
    display_step ra d (d\<lparr>dy_self := self1, dy_drawn := e = None,
      dy_pushing := dy_pushing d @ (case p of None \<Rightarrow> [] | Some t \<Rightarrow> [t])\<rparr>)"
| push: "dy_pushing d = ts @ t # us \<Longrightarrow>
    display_step ra d (d\<lparr>dy_pushing := ts @ us, dy_events := dy_events d @ [\<lparr>ev_type = t, ev_close = False\<rparr>]\<rparr>)"
| arrive: "display_step ra d (d\<lparr>dy_events := dy_events d @ [ev]\<rparr>)"
| detach: "display_step ra d (d\<lparr>dy_self := fst (display_detach (dy_self d))\<rparr>)"
| turn: "dy_running d \<Longrightarrow> display_step ra d (display_turn env message d)"

definition display_start :: "'r dtdisplay_linux_sdl_t \<Rightarrow> sdl_event \<Rightarrow> u32 list \<Rightarrow> 'r display_sys" where
  "display_start self ev ts = \<lparr>dy_self = self, dy_events = [], dy_last = ev, dy_pushing = ts, dy_screen = None,
     dy_drawn = False, dy_running = True\<rparr>"

definition dirty_pending :: "'r display_sys \<Rightarrow> bool" where
  "dirty_pending d \<longleftrightarrow> ds_dirty_event_type (dy_self d) \<in> ev_type ` set (dy_events d) \<union> set (dy_pushing d)"

definition display_inv :: "u32 \<Rightarrow> 'r display_sys \<Rightarrow> bool" where
  "display_inv dirty d \<longleftrightarrow> ds_dirty_event_type (dy_self d) = dirty \<and>
     (dy_running d \<longrightarrow> dy_drawn d \<longrightarrow> dy_screen d = ds_backing_raster (dy_self d) \<or> dirty_pending d)"

lemma render_dirty_error: "fst (render_dirty env) = None \<Longrightarrow> snd (render_dirty env)"
  by (auto simp: render_dirty_def split: if_splits)

lemma handle_dirty:
  assumes "0x8000 \<le> ds_dirty_event_type self"
  shows "handle_event env self 1 message \<lparr>ev_type = ds_dirty_event_type self, ev_close = c\<rparr> =
    (fst (render_dirty env), False, snd (render_dirty env))"
proof -
  have "ds_dirty_event_type self \<noteq> SDL_QUIT" "ds_dirty_event_type self \<noteq> SDL_WINDOWEVENT"
    using assms by (auto simp: SDL_QUIT_def SDL_WINDOWEVENT_def)
  then show ?thesis by (simp add: handle_event_def split: prod.splits)
qed

lemma blit_keeps:
  assumes "display_blit ra src x y self = (e, self1, p)"
  shows "ds_dirty_event_type self1 = ds_dirty_event_type self"
    "e = None \<Longrightarrow> p = Some (ds_dirty_event_type self)"
  using assms by (auto simp: display_blit_def Let_def split: option.splits prod.splits if_splits)

lemma turn_keeps_inv:
  assumes "display_inv dirty d" "0x8000 \<le> dirty" "dy_running d"
  shows "display_inv dirty (display_turn env message d)"
proof (cases "ds_event_loop_should_quit (dy_self d)")
  case True
  with assms(1) show ?thesis by (simp add: display_inv_def display_turn_def split: prod.splits)
next
  case run: False
  note defs = display_inv_def display_turn_def wait_event_def dirty_pending_def
  show ?thesis
  proof (cases "dy_events d")
    case Nil
    with assms run show ?thesis by (auto simp: defs Let_def split: prod.splits)
  next
    case (Cons ev evs)
    show ?thesis
    proof (cases "ev_type ev = dirty")
      case True
      then have ev: "ev = \<lparr>ev_type = dirty, ev_close = ev_close ev\<rparr>" by (cases ev) simp
      have dirty: "ds_dirty_event_type (dy_self d) = dirty" using assms(1) by (simp add: display_inv_def)
      have "handle_event env (dy_self d) 1 message ev = (fst (render_dirty env), False, snd (render_dirty env))"
        by (subst ev) (use handle_dirty [of "dy_self d"] dirty assms(2) in simp)
      with Cons run dirty show ?thesis using render_dirty_error [of env] by (auto simp: defs Let_def)
    next
      case False
      with Cons run assms show ?thesis by (auto simp: defs Let_def split: prod.splits)
    qed
  qed
qed

lemma display_step_inv:
  assumes "display_step ra d d1" "display_inv dirty d" "0x8000 \<le> dirty"
  shows "display_inv dirty d1"
  using assms
proof cases
  case blit
  with assms(2) blit_keeps [OF blit(2)] show ?thesis
    by (auto simp: display_inv_def dirty_pending_def)
next
  case (turn env message)
  with turn_keeps_inv [OF assms(2,3)] show ?thesis by simp
qed (auto simp: display_inv_def dirty_pending_def display_detach_def)

lemma display_reachable_inv:
  assumes "(display_step ra)\<^sup>*\<^sup>* d d1" "display_inv dirty d" "0x8000 \<le> dirty"
  shows "display_inv dirty d1"
  using assms(1,2) by (induction rule: rtranclp_induct) (auto intro: display_step_inv [OF _ _ assms(3)])

text \<open>
  C36: Whatever the order in which threads draw, push their events and the task shows: while the task
  runs, once no event is in the queue and no thread is about to push one, the screen shows the raster
  as the last blit left it, if that blit succeeded. It rests on SDL taking every event (the code does not
  look at the result of the push) and on the numbers that SDL gives to registered events.
\<close>

theorem display_shows_last_blit:
  assumes "display_setup sd self0 = (None, self)" "0x8000 \<le> sd_events sd"
    and "(display_step ra)\<^sup>*\<^sup>* (display_start self ev ts) d"
    and "dy_running d" "dy_drawn d" "dy_events d = []" "dy_pushing d = []"
  shows "dy_screen d = ds_backing_raster (dy_self d)"
proof -
  have "ds_dirty_event_type self = sd_events sd"
    using assms(1) by (auto simp: display_setup_def Let_def split: if_splits)
  then have "display_inv (sd_events sd) (display_start self ev ts)" by (simp add: display_inv_def display_start_def)
  from display_reachable_inv [OF assms(3) this assms(2)] assms(4-7) show ?thesis
    by (simp add: display_inv_def dirty_pending_def)
qed

theorem display_shows_last_blit_witness:
  "let self0 = (display_zero 1 :: nat list dtdisplay_linux_sdl_t)\<lparr>ds_backing_raster := Some []\<rparr>;
       self = snd (display_setup \<lparr>sd_events = 0x8000, sd_window = True, sd_renderer = True, sd_texture = True\<rparr> self0);
       d = (display_start self \<lparr>ev_type = 0, ev_close = False\<rparr> [])\<lparr>dy_self := self\<lparr>ds_backing_raster := Some [7]\<rparr>,
             dy_last := \<lparr>ev_type = 0x8000, ev_close = False\<rparr>, dy_screen := Some [7], dy_drawn := True\<rparr>
   in dy_screen d = ds_backing_raster (dy_self d)"
proof -
  let ?sd = "\<lparr>sd_events = 0x8000, sd_window = True, sd_renderer = True, sd_texture = True\<rparr>"
  let ?ev = "\<lparr>ev_type = 0, ev_close = False\<rparr>"
  define self0 where "self0 = (display_zero 1 :: nat list dtdisplay_linux_sdl_t)\<lparr>ds_backing_raster := Some []\<rparr>"
  define self where "self = snd (display_setup ?sd self0)"
  have ready: "display_setup ?sd self0 = (None, self)"
    by (simp add: self_def self0_def display_setup_def display_zero_def SDL_INIT_VIDEO_def Let_def)
  have self: "ds_backing_raster self = Some []" "ds_dirty_event_type self = 0x8000" "\<not> ds_event_loop_should_quit self"
    by (simp_all add: self_def self0_def display_setup_def display_zero_def SDL_INIT_VIDEO_def Let_def)
  let ?d0 = "display_start self ?ev []"
  let ?d1 = "?d0\<lparr>dy_self := self\<lparr>ds_backing_raster := Some [7]\<rparr>, dy_drawn := True, dy_pushing := [0x8000]\<rparr>"
  let ?d2 = "?d1\<lparr>dy_pushing := [], dy_events := [\<lparr>ev_type = 0x8000, ev_close = False\<rparr>]\<rparr>"
  let ?d3 = "?d0\<lparr>dy_self := self\<lparr>ds_backing_raster := Some [7]\<rparr>,
             dy_last := \<lparr>ev_type = 0x8000, ev_close = False\<rparr>, dy_screen := Some [7], dy_drawn := True\<rparr>"
  have "display_blit raster_example (Some [7]) 0 0 (dy_self ?d0) = (None, self\<lparr>ds_backing_raster := Some [7]\<rparr>, Some 0x8000)"
    using self by (simp add: display_start_def display_blit_def raster_example_def Let_def)
  from display_step.blit [OF this] have 1: "display_step raster_example ?d0 ?d1" by (simp add: display_start_def)
  have 2: "display_step raster_example ?d1 ?d2"
    using display_step.push [of ?d1 "[]" "0x8000" "[]" raster_example] by (simp add: display_start_def)
  have "display_turn \<lparr>re_update = True, re_clear = True, re_copy = True\<rparr> False ?d2 = ?d3"
    using self by (simp add: display_turn_def wait_event_def display_start_def handle_event_def render_dirty_def
        SDL_QUIT_def SDL_WINDOWEVENT_def)
  then have 3: "display_step raster_example ?d2 ?d3"
    using display_step.turn [of ?d2 raster_example "\<lparr>re_update = True, re_clear = True, re_copy = True\<rparr>" False]
    by (simp add: display_start_def)
  from 1 2 3 have "(display_step raster_example)\<^sup>*\<^sup>* ?d0 ?d3"
    by (meson converse_rtranclp_into_rtranclp rtranclp.rtrancl_refl)
  from display_shows_last_blit [OF ready _ this] show ?thesis
    unfolding self0_def [symmetric] self_def [symmetric] Let_def by (simp add: display_start_def)
qed

text \<open>
  A blit before the display is attached pushes an event of type 0, which the task does not show.
\<close>

lemma display_early_blit_not_shown:
  assumes "ds_dirty_event_type self = 0" "display_blit ra src x y self = (None, self1, p)"
    and "display_setup sd self1 = (None, self2)" "0x8000 \<le> sd_events sd"
  shows "p = Some 0" "handle_event env self2 1 message \<lparr>ev_type = 0, ev_close = False\<rparr> = (None, False, False)"
proof -
  show "p = Some 0" using blit_keeps [OF assms(2)] assms(1) by simp
  have "ds_dirty_event_type self2 = sd_events sd"
    using assms(3) by (auto simp: display_setup_def Let_def split: if_splits)
  then show "handle_event env self2 1 message \<lparr>ev_type = 0, ev_close = False\<rparr> = (None, False, False)"
    using assms(4) by (auto simp: handle_event_def SDL_QUIT_def SDL_WINDOWEVENT_def)
qed

end
