(* ===== verification/Startup.thy ===== *)
theory Startup
  imports Clock Tasker DeviceTexts
begin

text \<open>
  Start-up and the registry of tasks: \<open>dtmc_linux.c\<close>, and the functions of \<open>dtruntime_linux.c\<close>,
  \<open>dtcpu_linux.c\<close> and \<open>dttasker_linux.c\<close> that the other theories leave out. The registry of tasks is
  dtmc_base's; it is the parameter \<open>rg\<close>.
\<close>

section \<open>The registry of tasks\<close>

text \<open>\<open>rg_items\<close> are the places of its pool, which can be empty; \<open>'i\<close> is a handle.\<close>

record ('r, 'i) registry_api =
  rg_is_initialized :: "'r \<Rightarrow> bool"
  rg_init :: "'r \<Rightarrow> dterr \<times> 'r"
  rg_insert :: "'r \<Rightarrow> 'i \<Rightarrow> dterr \<times> 'r"
  rg_remove :: "'r \<Rightarrow> 'i \<Rightarrow> 'r"
  rg_items :: "'r \<Rightarrow> 'i option list"
  rg_table :: "'r \<Rightarrow> errcode + string"

fun insert_items :: "('r, 'i) registry_api \<Rightarrow> 'i option list \<Rightarrow> 'r \<Rightarrow> dterr \<times> 'r" where
  "insert_items rg [] r = (None, r)"
| "insert_items rg (None # is) r = insert_items rg is r"
| "insert_items rg (Some i # is) r =
     (case rg_insert rg r i of
        (Some e, r1) \<Rightarrow> (Some e, r1)
      | (None, r1) \<Rightarrow> insert_items rg is r1)"

definition runtime_register_tasks :: "('r, 'i) registry_api \<Rightarrow> 'r \<Rightarrow> 'r option \<Rightarrow> dterr \<times> 'r option" where
  "runtime_register_tasks rg global registry =
     (case registry of
        None \<Rightarrow> (Some DTERR_ASSERT, None)
      | Some r \<Rightarrow>
          (case (if rg_is_initialized rg r then (None, r) else rg_init rg r) of
             (Some e, r1) \<Rightarrow> (Some e, Some r1)
           | (None, r1) \<Rightarrow>
               if \<not> rg_is_initialized rg global then (None, Some r1)
               else (case insert_items rg (rg_items rg global) r1 of (e, r2) \<Rightarrow> (e, Some r2))))"

definition dtmc_register_tasks :: "'r option \<Rightarrow> dterr" where
  "dtmc_register_tasks registry = (if registry = None then Some DTERR_BADARG else None)"

text \<open>The code from the label \<open>cleanup\<close> on, which goes back to the label.\<close>

partial_function (option) printf_cleanup :: "dterr \<Rightarrow> dterr option" where
  "printf_cleanup e = (if e \<noteq> None then printf_cleanup (Some DTERR_FAIL) else Some None)"

text \<open>The error, the registry and what is printed; \<open>None\<close>: it does not return.\<close>

definition dtmc_printf_tasks :: "('r, 'i) registry_api \<Rightarrow> 'r \<Rightarrow> (dterr \<times> 'r \<times> string) option" where
  "dtmc_printf_tasks rg global =
     (case (if rg_is_initialized rg global then (None, global) else rg_init rg global) of
        (Some e, g) \<Rightarrow> map_option (\<lambda>e. (e, g, [])) (printf_cleanup (Some e))
      | (None, g) \<Rightarrow>
          if dtmc_register_tasks (Some g) \<noteq> None
          then map_option (\<lambda>e. (e, g, [])) (printf_cleanup (dtmc_register_tasks (Some g)))
          else (case rg_table rg g of
                  Inl e \<Rightarrow> map_option (\<lambda>e. (e, g, [])) (printf_cleanup (Some e))
                | Inr table \<Rightarrow> map_option (\<lambda>e. (e, g, table @ [LF])) (printf_cleanup None)))"

section \<open>The environment\<close>

definition dtmc_linux_version :: string where "dtmc_linux_version = ''1.3.0''"

text \<open>\<open>"%-40s"\<close>.\<close>

definition pad :: "nat \<Rightarrow> string \<Rightarrow> string" where
  "pad n s = s @ replicate (n - length s) CHR '' ''"

definition dtruntime_flavor :: string where "dtruntime_flavor = ''dtmc_linux''"

text \<open>\<open>clock_id\<close> is the number of the monotonic clock of the system.\<close>

definition format_environment :: "joiner \<Rightarrow> nat \<Rightarrow> string" where
  "format_environment join clock_id =
     (let item = (\<lambda>s name v. join s (Some [LF]) (''    '' @ pad 40 name @ '' '' @ v));
          s1 = item None ''Flavor'' (pad 24 dtruntime_flavor);
          s2 = item (Some s1) ''Version'' (pad 24 dtmc_linux_version);
          s3 = item (Some s2) ''Is QEMU'' (pad 24 ''No'')
      in item (Some s3) ''Clock ID'' (show_nat clock_id))"

definition printf_environment :: string where
  "printf_environment = ''*dtmc_linux_printf_environment: System:'' @ [LF] @ ''*    dtmc_linux version: '' @ dtmc_linux_version @ [LF]"

definition dtcpu_sysinit :: "bool \<Rightarrow> bool \<Rightarrow> dterr \<times> bool" where
  "dtcpu_sysinit getres_ok initialized =
     (if initialized then (None, True) else if \<not> getres_ok then (Some DTERR_FAIL, False) else (None, True))"

section \<open>Tasks\<close>

text \<open>The members of a task that do not change what it does: its entry point with argument, and its guid.\<close>

record ('e, 'g) dttasker_full_t = dttasker_t +
  tk_entry_point :: 'e
  tk_guid :: 'g

definition dttasker_set_entry_point ::
  "dterr \<Rightarrow> dterr \<Rightarrow> ('e, 'g) dttasker_full_t option \<Rightarrow> 'e \<Rightarrow> dterr \<times> ('e, 'g) dttasker_full_t option" where
  "dttasker_set_entry_point acquire release self entry =
     (case self of
        None \<Rightarrow> (Some DTERR_ASSERT, None)
      | Some s \<Rightarrow> if acquire \<noteq> None then (acquire, Some s) else (release, Some (s\<lparr>tk_entry_point := entry\<rparr>)))"

definition dttasker_get_guid :: "('e, 'g) dttasker_full_t option \<Rightarrow> errcode + 'g" where
  "dttasker_get_guid self = (case self of None \<Rightarrow> Inl DTERR_ASSERT | Some s \<Rightarrow> Inr (tk_guid s))"

text \<open>\<open>dispose\<close> takes the task from the registry and frees it; a running thread goes on with it.\<close>

definition dttasker_dispose :: "('r, 'i) registry_api \<Rightarrow> 'i option \<Rightarrow> 'r \<Rightarrow> 'r" where
  "dttasker_dispose rg self global = (case self of None \<Rightarrow> global | Some i \<Rightarrow> rg_remove rg global i)"

section \<open>Properties\<close>

lemma printf_cleanup_None [simp]: "printf_cleanup None = Some None"
  by (subst printf_cleanup.simps) simp

text \<open>A fixed point of the loop with the least one below it: it does not end.\<close>

lemma printf_cleanup_loops: "printf_cleanup e = Some r \<Longrightarrow> e = None"
  by (rule printf_cleanup.raw_induct [of "\<lambda>e r. e = None"]) (auto split: if_splits)

lemma printf_cleanup_error [simp]: "printf_cleanup (Some e) = None"
  using printf_cleanup_loops [of "Some e"] by (cases "printf_cleanup (Some e)") auto

text \<open>
  When printing the tasks returns. It returns exactly when the registry is there or can be
  set up and its table can be made, and then without an error and with the table printed: after an
  error it goes round its own cleanup for ever, so no caller sees one.
\<close>

theorem printf_tasks_returns:
  "dtmc_printf_tasks rg global = Some (e, g, out) \<longleftrightarrow>
     e = None \<and> (rg_is_initialized rg global \<and> g = global \<or> \<not> rg_is_initialized rg global \<and> rg_init rg global = (None, g)) \<and>
     (\<exists>table. rg_table rg g = Inr table \<and> out = table @ [LF])"
  by (auto simp: dtmc_printf_tasks_def dtmc_register_tasks_def split: prod.splits option.splits sum.splits)

text \<open>
  The copy of the registry takes the occupied places in their order and stops at the first that is
  refused; when all are taken the copy is what inserting them one by one gives.
\<close>

lemma register_tasks_result:
  assumes "rg_is_initialized rg r" "rg_is_initialized rg global"
    and "\<And>r i. fst (rg_insert rg r i) = None"
  shows "runtime_register_tasks rg global (Some r) =
    (None, Some (fold (\<lambda>i r. snd (rg_insert rg r i)) (List.map_filter id (rg_items rg global)) r))"
proof -
  have "insert_items rg ps r = (None, fold (\<lambda>i r. snd (rg_insert rg r i)) (List.map_filter id ps) r)" for ps
  proof (induction ps arbitrary: r)
    case (Cons p ps)
    show ?case
    proof (cases p)
      case (Some i)
      obtain r1 where "rg_insert rg r i = (None, r1)" using assms(3) by (metis prod.collapse)
      with Some Cons.IH [of r1] show ?thesis by (simp add: List.map_filter_simps)
    qed (use Cons.IH in \<open>simp add: List.map_filter_simps\<close>)
  qed (simp add: List.map_filter_simps)
  then show ?thesis using assms(1,2) by (simp add: runtime_register_tasks_def)
qed

lemma set_entry_point_keeps:
  "dttasker_set_entry_point a b (Some s) entry = (None, Some s1) \<Longrightarrow>
     tk_entry_point s1 = entry \<and> dttasker_t.truncate s1 = dttasker_t.truncate s"
  by (auto simp: dttasker_set_entry_point_def dttasker_t.truncate_def split: if_splits)

end
