(* ===== verification/Demos.thy ===== *)
theory Demos
  imports BenchModbus Canbus Tty Coap Mosquitto Display Nvblob
begin

text \<open>
  What the \<open>main\<close> functions of the demos make of their first argument: the configuration of the device
  or portal that the demo then runs with. The demos themselves (\<open>demo_start\<close>) are not in the
  repository.
\<close>

section \<open>The Modbus demos\<close>

text \<open>
  \<open>demo_iox_modbus\<close>, \<open>demo_netportal_modbus\<close> and \<open>benchmark_netportal_duplex_modbus\<close>: a device path is an
  RTU master, one word a slave, everything else the address of a slave. They differ in the word
  and in the id of the RTU slave.
\<close>

definition first_argument :: "string \<Rightarrow> string list \<Rightarrow> string" where
  "first_argument fallback args = (case args of [] \<Rightarrow> fallback | a # _ \<Rightarrow> a)"

definition modbus_demo_device ::
  "string \<Rightarrow> int \<Rightarrow> dtuart_helper_config_t \<Rightarrow> string list \<Rightarrow> bench_device" where
  "modbus_demo_device word slave_id uart args =
     (let device = first_argument ''/dev/serial0'' args in
      if take 5 device = ''/dev/'' then
        BenchRtu \<lparr>rm_device = Some device, rm_uart_config = uart, rm_slave_id = slave_id, rm_poll_interval_ms = 0,
          rm_response_timeout_ms = 0, rm_byte_timeout_ms = 0, rm_max_blob_bytes = 0, rm_permit_retry_partial_writes = False,
          rm_rx_ring_capacity = 0, rm_rs485_mode = False, rm_rts_toggle = False\<rparr>
      else if device = word then
        BenchSlave \<lparr>sc_port = 1502, sc_max_blob_bytes = 0, sc_rx_ring_capacity = 0, sc_response_timeout_ms = 0\<rparr>
      else
        BenchMaster \<lparr>tm_ip = Some device, tm_port = 1502, tm_unit_id = 0, tm_poll_interval_ms = 0,
          tm_response_timeout_ms = 0, tm_max_blob_bytes = 0, tm_rx_ring_capacity = 0\<rparr>)"

definition demo_iox_modbus :: "dtuart_helper_config_t \<Rightarrow> string list \<Rightarrow> bench_device \<times> string \<times> bool" where
  "demo_iox_modbus uart args =
     (let d = modbus_demo_device ''slave'' 13 uart args in
      (d, (case d of BenchRtu _ \<Rightarrow> ''dtiox_linux/modbus_rtu_master'' | BenchSlave _ \<Rightarrow> ''dtiox_linux/modbus_tcp_slave''
                   | BenchMaster _ \<Rightarrow> ''dtiox_linux/modbus_tcp_master''),
       (case d of BenchSlave _ \<Rightarrow> True | _ \<Rightarrow> False)))"

definition demo_netportal_modbus :: "dtuart_helper_config_t \<Rightarrow> string list \<Rightarrow> bench_device \<times> bool" where
  "demo_netportal_modbus uart args =
     (let d = modbus_demo_device ''slave'' 13 uart args in
      (d, (case d of BenchSlave _ \<Rightarrow> True | _ \<Rightarrow> False)))"

definition benchmark_duplex_modbus :: "dtuart_helper_config_t \<Rightarrow> string list \<Rightarrow> bench_device" where
  "benchmark_duplex_modbus uart args = modbus_demo_device ''server'' 1 uart args"

text \<open>
  The two ends of a demo meet: started with the word, and with a host, the configured slave listens
  at the port to which the configured master connects.
\<close>

lemma modbus_demo_ends_meet:
  assumes "modbus_demo_device word i uart [word] = BenchSlave s" "modbus_demo_device word i uart [host] = BenchMaster m"
  shows "sl_port (snd (slv_configure c rf env slave s)) = mt_port (snd (mtcp_configure c rf env tcp m))"
    "mt_ip (snd (mtcp_configure c rf env tcp m)) = Some host"
  using assms
  by (auto simp: modbus_demo_device_def first_argument_def slv_configure_port mtcp_configure_def mm_resources_keep
      mm_defaults_keep Let_def split: if_splits)

text \<open>The two words name different ends in different demos: to one the other's word is a host.\<close>

lemma modbus_words_differ:
  "fst (demo_netportal_modbus uart [''slave'']) = BenchSlave s \<Longrightarrow>
     \<exists>m. benchmark_duplex_modbus uart [''slave''] = BenchMaster m \<and> tm_ip m = Some ''slave''"
  by (simp add: benchmark_duplex_modbus_def modbus_demo_device_def first_argument_def)

section \<open>The other devices\<close>

definition demo_iox_canbus :: "string list \<Rightarrow> can_config \<times> string" where
  "demo_iox_canbus args =
     (let name = first_argument ''can0'' args in
      (\<lparr>cc_interface_name = Some name, cc_txid = 0x100, cc_rx_ring_capacity = 0\<rparr>, name))"

definition demo_iox_tty :: "dtuart_helper_config_t \<Rightarrow> string list \<Rightarrow> tty_config \<times> string" where
  "demo_iox_tty uart args =
     (let path = first_argument ''/dev/ttyUSB0'' args in
      (\<lparr>tc_device_path = Some path, tc_uart_config = uart, tc_rx_fifo_capacity = 0\<rparr>, fit 64 (''dtmc_linux:'' @ path)))"

definition demo_netportal_tty :: "string list \<Rightarrow> tty_config" where
  "demo_netportal_tty args =
     \<lparr>tc_device_path = Some (first_argument ''/dev/ttyUSB0'' args),
      tc_uart_config = \<lparr>uc_baudrate = 115200, uc_parity = DTUART_PARITY_NONE, uc_data_bits = DTUART_DATA_BITS_8,
        uc_stop_bits = DTUART_STOPBITS_1, uc_flow = DTUART_FLOW_NONE\<rparr>,
      tc_rx_fifo_capacity = 0\<rparr>"

definition demo_write_kvp :: "string list \<Rightarrow> (string \<times> string) list \<times> string" where
  "demo_write_kvp args =
     ([(''signature'', ''dtradioconfig_t mark 1''), (''self_node_name'', ''RadiconfigNode''), (''wifi_ssid'', ''MyWiFiSSID''),
       (''wifi_password'', ''MyWiFiPassword''), (''mqtt_host'', ''mqtt://broker.example.com''), (''mqtt_port'', ''1883''),
       (''mqtt_wsport'', ''9001''), (''mqtt_user'', ''mqttuser''), (''mqtt_password'', ''mqttpassword'')],
      first_argument ''kvp.nvblob'' args)"

text \<open>Every CAN and TTY device of a demo is one that its \<open>configure\<close> takes.\<close>

lemma demo_can_configures: "fst (can_configure self (fst (demo_iox_canbus args))) = None"
  by (simp add: can_configure_def demo_iox_canbus_def Let_def)

lemma demo_tty_configures:
  "fst (tty_configure rf None self (demo_netportal_tty args)) = fst (rf_configure rf 4096 (tty_rx_fifo self))"
  "fst (tty_configure rf None self (fst (demo_iox_tty uart args))) = fst (rf_configure rf 4096 (tty_rx_fifo self))"
  by (simp_all add: tty_configure_def demo_netportal_tty_def demo_iox_tty_def Let_def split: prod.splits)

section \<open>The portals\<close>

text \<open>The argument of the CoAP demo is read and not used.\<close>

definition coap_config_zero :: coap_config where
  "coap_config_zero = \<lparr>cc_publish_to_host = None, cc_publish_to_port = 0, cc_keepalive = 0, cc_client_id = None,
     cc_username = None, cc_password = None, cc_clean_start = False, cc_use_tls = False, cc_tls_ca_file = None,
     cc_tls_certfile = None, cc_tls_keyfile = None, cc_listen_host = None, cc_listen_port = 0, cc_io_process_timeout_ms = 0\<rparr>"

definition demo_netportal_coap :: "string list \<Rightarrow> coap_config" where
  "demo_netportal_coap args = coap_config_zero\<lparr>cc_publish_to_host := Some ''127.0.0.1'', cc_publish_to_port := 5683\<rparr>"

text \<open>
  The CoAP demo cannot start its portal: \<open>configure\<close> takes the configuration, which has no host to
  listen on, and \<open>activate\<close> then searches that host for a colon: a NULL pointer.
\<close>

lemma create_sessions_config: "create_sessions env self = Some (e, s) \<Longrightarrow> cp_config s = cp_config self"
  by (auto simp: create_sessions_def Let_def split: if_splits option.splits)

lemma coap_demo_faults:
  assumes "coap_configure self (Some (demo_netportal_coap args)) = (None, self1, c)"
    and "create_sessions env (self1\<lparr>cp_context := True\<rparr>) = Some (None, s1)" "cp_context s1"
    and "global \<noteq> None"
  shows "coap_activate env global self1 = None"
proof -
  have "cc_listen_host (cp_config self1) = None"
    using assms(1) by (auto simp: coap_configure_def demo_netportal_coap_def coap_config_zero_def Let_def)
  with create_sessions_config [OF assms(2)] have "create_endpoints env s1 = None"
    using assms(3) by (simp add: create_endpoints_def Let_def)
  with assms(2,4) show ?thesis by (cases global) (simp_all add: coap_activate_def Let_def)
qed

text \<open>The broker of the MQTT demo, without the account, which is a parameter here.\<close>

definition demo_netportal_mosquitto :: "string \<Rightarrow> string \<Rightarrow> string \<Rightarrow> string list \<Rightarrow> mosquitto_config \<times> bool" where
  "demo_netportal_mosquitto host user password args =
     (\<lparr>mc_host = Some host, mc_port = 8883, mc_keepalive = 0, mc_client_id = None, mc_username = Some user,
       mc_password = Some password, mc_clean_start = False, mc_use_tls = True, mc_tls_ca_file = None,
       mc_tls_certfile = None, mc_tls_keyfile = None\<rparr>, args \<noteq> [] \<and> hd args = ''server'')"

lemma mqtt_demo_configures:
  "fst (mq_configure guid self (Some (fst (demo_netportal_mosquitto host user password args)))) = None"
  by (simp add: mq_configure_def demo_netportal_mosquitto_def)

section \<open>The display demo\<close>

definition demo_display_hello :: "dtsemaphore_linux_t \<Rightarrow> display_config" where
  "demo_display_hello join = \<lparr>dc_title = [], dc_window_width = 320, dc_window_height = 240, dc_join_semaphore = Some join\<rparr>"

text \<open>The loop that waits for the end of the display's task: each answer is the error and the timeout.\<close>

fun hello_wait :: "(dterr \<times> bool) list \<Rightarrow> dterr option" where
  "hello_wait [] = None"
| "hello_wait ((e, was_timeout) # rounds) =
     (if e \<noteq> None then Some e else if \<not> was_timeout then Some None else hello_wait rounds)"

text \<open>The window of the demo has its whole buffer, and a title with its size.\<close>

lemma hello_display:
  assumes "display_configure ra buffer task pr self (demo_display_hello join) = (None, s)"
  shows "ds_backing_buffer s = Some 307200" "dc_title (ds_configuration s) = ''dtdisplay_linux_sdl [320x240]''"
proof -
  have b: "buffer_bytes 320 240 = 307200" by (simp add: buffer_bytes_def)
  show "ds_backing_buffer s = Some 307200"
    using display_configure_buffer [OF assms] b by (simp add: demo_display_hello_def)
  have t: "display_title (demo_display_hello join) = ''dtdisplay_linux_sdl [320x240]''"
    by (simp add: display_title_def demo_display_hello_def show_int_def show_nat.simps fit_def) code_simp
  show "dc_title (ds_configuration s) = ''dtdisplay_linux_sdl [320x240]''"
    using assms t by (auto simp: display_configure_def Let_def split: if_splits sum.splits prod.splits option.splits)
qed

end
