(* ===== verification/AdcwsPool.thy ===== *)
theory AdcwsPool
  imports SvcAdcws "HOL-Library.Multiset"
begin

text \<open>
  The two queues of \<open>apps/svc_adcws/src/main.c\<close> and the buffers that go round between them. The services
  that move them (dtmc_services) are any threads that get buffers from a queue, and put only what they
  have got and not given back.
\<close>

section \<open>A pool in bounded queues\<close>

context bounded_queue begin

text \<open>
  The members of a pool are in one of several queues, or held by someone; every queue has a place for
  each of them.
\<close>

definition pooled :: "'b multiset \<Rightarrow> 'q list \<Rightarrow> 'b multiset \<Rightarrow> bool" where
  "pooled pool qs held \<longleftrightarrow>
     (\<forall>q \<in> set qs. valid q \<and> size pool \<le> capacity q) \<and>
     sum_list (map (\<lambda>q. mset (items q)) qs) + held = pool"

lemma sum_list_update_mset:
  fixes f :: "'c \<Rightarrow> 'd multiset"
  shows "i < length qs \<Longrightarrow> sum_list (map f (qs[i := q])) + f (qs ! i) = sum_list (map f qs) + f q"
  by (induction qs arbitrary: i) (auto simp: ac_simps split: nat.splits)

lemma sum_list_member_mset:
  fixes f :: "'c \<Rightarrow> 'd multiset"
  shows "i < length qs \<Longrightarrow> f (qs ! i) \<subseteq># sum_list (map f qs)"
  by (induction qs arbitrary: i)
    (auto simp: less_Suc_eq_0_disj intro: subset_mset.add_increasing subset_mset.add_increasing2)

lemma pooled_queue:
  assumes "pooled pool qs held" "i < length qs"
  shows "valid (qs ! i)" "size pool \<le> capacity (qs ! i)" "mset (items (qs ! i)) + held \<subseteq># pool"
proof -
  show "valid (qs ! i)" "size pool \<le> capacity (qs ! i)" using assms nth_mem by (auto simp: pooled_def)
  have "mset (items (qs ! i)) \<subseteq># sum_list (map (\<lambda>q. mset (items q)) qs)"
    using sum_list_member_mset [OF assms(2), of "\<lambda>q. mset (items q)"] .
  then show "mset (items (qs ! i)) + held \<subseteq># pool" using assms(1) by (auto simp: pooled_def)
qed

text \<open>Whoever holds a member finds a place for it in every queue.\<close>

lemma pooled_place:
  assumes "pooled pool qs held" "i < length qs" "b \<in># held"
  shows "length (items (qs ! i)) < capacity (qs ! i)"
proof -
  from assms(3) have "0 < size held" by (auto simp: nonempty_has_size [symmetric])
  moreover have "length (items (qs ! i)) + size held \<le> size pool"
    using size_mset_mono [OF pooled_queue(3) [OF assms(1,2)]] by simp
  ultimately show ?thesis using pooled_queue(2) [OF assms(1,2)] by linarith
qed

lemma pooled_put:
  assumes "pooled pool qs held" "i < length qs" "b \<in># held" "put b (qs ! i) = Some q'"
  shows "pooled pool (qs[i := q']) (held - {#b#})"
proof -
  note q' = put_items [OF pooled_queue(1) [OF assms(1,2)] pooled_place [OF assms(1-3)] assms(4)]
  let ?sum = "\<lambda>qs. sum_list (map (\<lambda>q. mset (items q)) qs)"
  have "?sum (qs[i := q']) = ?sum qs + {#b#}"
    using sum_list_update_mset [OF assms(2), of "\<lambda>q. mset (items q)" q'] q'(2) by simp
  then have "?sum (qs[i := q']) + (held - {#b#}) = ?sum qs + held"
    using insert_DiffM [OF assms(3)] by (simp del: insert_DiffM)
  also have "\<dots> = pool" using assms(1) by (simp add: pooled_def)
  finally show ?thesis
    using assms(1) q'(1,3) pooled_queue(2) [OF assms(1,2)] by (auto simp: pooled_def dest!: set_update_subset_insert [THEN subsetD])
qed

lemma pooled_get:
  assumes "pooled pool qs held" "i < length qs" "items (qs ! i) \<noteq> []" "get (qs ! i) = Some (b, q')"
  shows "pooled pool (qs[i := q']) (add_mset b held)"
proof -
  note q' = get_items [OF pooled_queue(1) [OF assms(1,2)] assms(3,4)]
  let ?sum = "\<lambda>qs. sum_list (map (\<lambda>q. mset (items q)) qs)"
  have sum: "?sum qs = ?sum (qs[i := q']) + {#b#}"
    using sum_list_update_mset [OF assms(2), of "\<lambda>q. mset (items q)" q'] q'(2) by simp
  have "?sum (qs[i := q']) + add_mset b held = ?sum qs + held" unfolding sum by simp
  also have "\<dots> = pool" using assms(1) by (simp add: pooled_def)
  finally show ?thesis
    using assms(1) q'(1,3) pooled_queue(2) [OF assms(1,2)] by (auto simp: pooled_def dest!: set_update_subset_insert [THEN subsetD])
qed

end

section \<open>The queues of the service\<close>

text \<open>The queues (0 the free buffers, 1 the full ones) and the buffers that the threads hold.\<close>

record pool_system =
  ps_queues :: "dtbufferqueue_t list"
  ps_held :: "buffer option multiset"

definition moved :: "bq_result \<Rightarrow> buffer option multiset" where
  "moved r = (case r of BqMoved fl b \<Rightarrow> {#b#} | _ \<Rightarrow> {#})"

inductive pool_step :: "pool_system \<Rightarrow> pool_system \<Rightarrow> bool" where
  get: "i < length (ps_queues y) \<Longrightarrow>
     (r, q) = dtbufferqueue_get rc m f (ps_queues y ! i) \<or> (r, q) = dtbufferqueue_get_resume rc m f (ps_queues y ! i) \<Longrightarrow>
     pool_step y (y\<lparr>ps_queues := (ps_queues y)[i := q], ps_held := ps_held y + moved r\<rparr>)"
| put: "i < length (ps_queues y) \<Longrightarrow> Some b \<in># ps_held y \<Longrightarrow>
     (r, q) = dtbufferqueue_put rc m f (Some b) (ps_queues y ! i) \<Longrightarrow>
     pool_step y (y\<lparr>ps_queues := (ps_queues y)[i := q], ps_held := ps_held y - moved r\<rparr>)"

abbreviation pool_inv :: "buffer option multiset \<Rightarrow> pool_system \<Rightarrow> bool" where
  "pool_inv pool y \<equiv> bq.pooled pool (ps_queues y) (ps_held y)"

lemma put_moves_buffer: "dtbufferqueue_put rc m f (Some b) q = (BqMoved fl x, q') \<Longrightarrow> x = Some b"
  by (auto simp: dtbufferqueue_put_def bq_do_put_def split: option.splits wait_mode.splits if_splits)

lemma pool_get_inv:
  assumes "pool_inv pool y" "i < length (ps_queues y)" "get_outcome (ps_queues y ! i) (r, q)"
  shows "bq.pooled pool ((ps_queues y)[i := q]) (ps_held y + moved r)"
  using assms bq.pooled_get [OF assms(1,2)]
  by (cases r) (auto simp: get_outcome_def moved_def)

lemma pool_put_inv:
  assumes "pool_inv pool y" "i < length (ps_queues y)" "Some b \<in># ps_held y"
    and "(r, q) = dtbufferqueue_put rc m f (Some b) (ps_queues y ! i)"
  shows "bq.pooled pool ((ps_queues y)[i := q]) (ps_held y - moved r)"
proof -
  have out: "put_outcome (ps_queues y ! i) (r, q)"
    unfolding assms(4) by (rule put_outcomes(1) [OF bq.pooled_queue(1) [OF assms(1,2)]])
  show ?thesis
  proof (cases r)
    case (BqMoved fl x)
    with put_moves_buffer assms(4) have "x = Some b" by metis
    with out BqMoved bq.pooled_put [OF assms(1-3)] show ?thesis by (simp add: put_outcome_def moved_def)
  qed (use out assms(1) in \<open>auto simp: put_outcome_def moved_def\<close>)
qed

lemma pool_step_inv:
  assumes "pool_step y z" "pool_inv pool y"
  shows "pool_inv pool z \<and> length (ps_queues z) = length (ps_queues y)"
  using assms(1)
proof cases
  case (get i r q rc m f)
  note v = bq.pooled_queue(1) [OF assms(2) get(2)]
  from get(3) have "get_outcome (ps_queues y ! i) (r, q)" using get_outcomes [OF v] by metis
  from pool_get_inv [OF assms(2) get(2) this] get(1) show ?thesis by simp
next
  case (put i b r q rc m f)
  from pool_put_inv [OF assms(2) put(2-4)] put(1) show ?thesis by simp
qed

lemma pool_steps_inv:
  "pool_step\<^sup>*\<^sup>* y z \<Longrightarrow> pool_inv pool y \<Longrightarrow> pool_inv pool z \<and> length (ps_queues z) = length (ps_queues y)"
  by (induction rule: rtranclp_induct) (auto dest: pool_step_inv)

text \<open>The state after the start-up of \<open>main\<close>: both queues made for \<open>BQ_POOL_SIZE\<close> buffers, the first filled.\<close>

definition pool_started :: "bq_env \<Rightarrow> bq_env \<Rightarrow> buffer list \<Rightarrow> pool_system option" where
  "pool_started env1 env2 bs =
     (case dtbufferqueue_create env1 4 True of
        (None, Some free) \<Rightarrow>
          (case fill_pool (map Inr bs) free of
             Some (None, free1) \<Rightarrow>
               (case dtbufferqueue_create env2 4 True of
                  (None, Some full) \<Rightarrow> Some \<lparr>ps_queues = [free1, full], ps_held = {#}\<rparr>
                | _ \<Rightarrow> None)
           | _ \<Rightarrow> None)
      | _ \<Rightarrow> None)"

lemma pool_started_inv:
  assumes "pool_started env1 env2 bs = Some y" "length bs = 4"
  shows "pool_inv (mset (map Some bs)) y \<and> length (ps_queues y) = 2"
proof -
  from assms(1) obtain free free1 full
    where c: "dtbufferqueue_create env1 4 True = (None, Some free)" "fill_pool (map Inr bs) free = Some (None, free1)"
      "dtbufferqueue_create env2 4 True = (None, Some full)" "y = \<lparr>ps_queues = [free1, full], ps_held = {#}\<rparr>"
    by (auto simp: pool_started_def split: prod.splits option.splits)
  note free = bq_create_ok [OF c(1)] and full = bq_create_ok [OF c(3)]
  have "length (bq_items free) + length bs \<le> nat (bq_max_count free)" using free assms(2) by (simp del: length_bq_items)
  from fill_pool_result [OF _ this] free c(2) have "bq_valid free1" "bq_items free1 = map Some bs" "bq_max_count free1 = 4"
    by (auto simp del: length_bq_items)
  with full assms(2) c(4) show ?thesis by (simp add: bq.pooled_def del: length_bq_items)
qed


section \<open>Witness\<close>

text \<open>A start with four buffers, and a thread that takes the first free one.\<close>

definition calm_start :: pool_system where
  "calm_start = the (pool_started calm_bq_env calm_bq_env [0, 1, 2, 3])"

lemma pool_started_eq:
  "dtbufferqueue_create env1 4 True = (None, Some q) \<Longrightarrow> fill_pool (map Inr bs) q = Some (None, q1) \<Longrightarrow>
     dtbufferqueue_create env2 4 True = (None, Some q2) \<Longrightarrow>
     pool_started env1 env2 bs = Some \<lparr>ps_queues = [q1, q2], ps_held = {#}\<rparr>"
  by (simp add: pool_started_def)

lemma calm_start_step:
  "pool_started calm_bq_env calm_bq_env [0, 1, 2, 3] = Some calm_start"
  "\<exists>y. pool_step calm_start y \<and> ps_held y = {#Some 0#}"
proof -
  obtain q where c: "dtbufferqueue_create calm_bq_env 4 True = (None, Some q)"
    by (simp add: dtbufferqueue_create_def calm_bq_env_def)
  note q = bq_create_ok [OF c]
  have "length (bq_items q) + length [0, 1, 2, 3 :: buffer] \<le> nat (bq_max_count q)" using q by (simp del: length_bq_items)
  from fill_pool_result [OF _ this] q obtain q1 where f: "fill_pool (map Inr [0, 1, 2, 3]) q = Some (None, q1)"
    "bq_valid q1" "bq_items q1 = Some 0 # map Some [1, 2, 3]"
    by (auto simp del: length_bq_items fill_pool.simps)
  note started = pool_started_eq [OF c f(1) c]
  show "pool_started calm_bq_env calm_bq_env [0, 1, 2, 3] = Some calm_start"
    by (simp only: calm_start_def started option.sel)
  have s: "calm_start = \<lparr>ps_queues = [q1, q], ps_held = {#}\<rparr>"
    by (simp only: calm_start_def started option.sel)
  from f(3) have "bq_items q1 \<noteq> []" "bq_count q1 \<noteq> 0" by (simp_all flip: bq_items_empty)
  with bq_dequeue_valid [OF f(2)] f(3) obtain q2 where "bq_dequeue q1 = Some (Some 0, q2)" by auto
  with \<open>bq_count q1 \<noteq> 0\<close> have "dtbufferqueue_get None WaitNot False q1 = (BqMoved None (Some 0), q2)"
    by (simp add: dtbufferqueue_get_def bq_do_get_def set_flag_def word_gt_0)
  then have "pool_step calm_start (calm_start\<lparr>ps_queues := (ps_queues calm_start)[0 := q2],
      ps_held := ps_held calm_start + moved (BqMoved None (Some 0))\<rparr>)"
    by (intro pool_step.get [where rc = None and m = WaitNot and f = False]) (simp_all add: s)
  then show "\<exists>y. pool_step calm_start y \<and> ps_held y = {#Some 0#}"
    by (intro exI) (auto simp: s moved_def)
qed


end
