(* ===== verification/MainFlow.thy ===== *)
theory MainFlow
  imports Prelude
begin

text \<open>
  The shape of the \<open>main\<close> functions under \<open>apps\<close>: a chain of calls, each under \<open>DTERR_C\<close>, that make
  objects and hand their handles on; and the code behind the label \<open>cleanup\<close>, which every way out
  passes: it makes the exit code of the error and disposes the objects.
\<close>

section \<open>Objects, calls and exits\<close>

datatype main_object =
    Iox | RxIox | TxIox | Framer | RxTasker | Netportal | Nvblob | KvpList | Display | JoinSemaphore
  | PongSemaphore | FreeQueue | FullQueue | Buffer nat | Iox2bq | Bq2framed | Service | Demo | Benchmark

text \<open>
  A call makes an object, configures one with the handles of others, prepares the configuration of
  one, stores the item with a number in one (an entry of a list, a buffer of a queue: the disposal of
  the container does not touch it), or starts one.
\<close>

datatype main_call =
    Create main_object
  | Prepare main_object
  | Configure main_object "main_object list"
  | Fill main_object nat
  | Start main_object

text \<open>
  \<open>mr_made\<close> are the objects whose variable is not NULL. Not part of the code: \<open>mr_uses\<close>, which object
  was given the handle of which, and \<open>mr_nulls\<close>, which was given a NULL instead. An object that
  is not made leaves its variable NULL.
\<close>

record main_run =
  mr_error :: dterr
  mr_made :: "main_object list"
  mr_uses :: "(main_object \<times> main_object) list"
  mr_nulls :: "(main_object \<times> main_object) list"

definition main_fresh :: "dterr \<Rightarrow> main_run" where
  "main_fresh e = \<lparr>mr_error = e, mr_made = [], mr_uses = [], mr_nulls = []\<rparr>"

definition do_call :: "dterr \<Rightarrow> main_call \<Rightarrow> main_run \<Rightarrow> main_run" where
  "do_call e c r =
     (case c of
        Create x \<Rightarrow> if e = None then r\<lparr>mr_made := x # mr_made r\<rparr> else r\<lparr>mr_error := e\<rparr>
      | Configure x us \<Rightarrow>
          r\<lparr>mr_uses := map (Pair x) (filter (\<lambda>u. u \<in> set (mr_made r)) us) @ mr_uses r,
            mr_nulls := map (Pair x) (filter (\<lambda>u. u \<notin> set (mr_made r)) us) @ mr_nulls r, mr_error := e\<rparr>
      | _ \<Rightarrow> r\<lparr>mr_error := e\<rparr>)"

fun run_calls :: "(main_call \<Rightarrow> dterr) \<Rightarrow> main_call list \<Rightarrow> main_run \<Rightarrow> main_run" where
  "run_calls ans [] r = r"
| "run_calls ans (c # cs) r =
     (let r1 = do_call (ans c) c r in if ans c \<noteq> None then r1 else run_calls ans cs r1)"

record main_exit =
  mx_rc :: int
  mx_disposed :: "main_object list"
  mx_run :: main_run

text \<open>The code behind \<open>cleanup\<close>: the disposal of a NULL does nothing.\<close>

definition leave_main :: "main_object list \<Rightarrow> main_run \<Rightarrow> main_exit" where
  "leave_main cleanup r =
     \<lparr>mx_rc = (if mr_error r \<noteq> None then - 1 else 0),
      mx_disposed = filter (\<lambda>x. x \<in> set (mr_made r)) cleanup, mx_run = r\<rparr>"

text \<open>
  A \<open>main\<close>: \<open>early\<close> is the error with which it leaves before it makes anything (\<open>Some None\<close>: after the help),
  \<open>tail\<close> the error with which what follows the calls ends; \<open>None\<close>: it does not end.
\<close>

definition run_main ::
  "dterr option \<Rightarrow> (main_call \<Rightarrow> dterr) \<Rightarrow> main_call list \<Rightarrow> dterr option \<Rightarrow> main_object list \<Rightarrow> main_exit option" where
  "run_main early ans calls tail cleanup =
     (case early of
        Some e \<Rightarrow> Some (leave_main cleanup (main_fresh e))
      | None \<Rightarrow>
          (let r = run_calls ans calls (main_fresh None) in
           if mr_error r \<noteq> None then Some (leave_main cleanup r)
           else map_option (\<lambda>e. leave_main cleanup (r\<lparr>mr_error := e\<rparr>)) tail))"

section \<open>Orderly programs\<close>

text \<open>\<open>b\<close> comes after \<open>a\<close>.\<close>

fun later :: "'a \<Rightarrow> 'a \<Rightarrow> 'a list \<Rightarrow> bool" where
  "later a b [] = False"
| "later a b (x # xs) = (if x = a then b \<in> set xs else later a b xs)"

lemma later_filter: "later a b xs \<Longrightarrow> P a \<Longrightarrow> P b \<Longrightarrow> later a b (filter P xs)"
  by (induction xs) (auto split: if_splits)

text \<open>The calls work on objects that are made, and make each once.\<close>

fun ordered_calls :: "main_object list \<Rightarrow> main_call list \<Rightarrow> bool" where
  "ordered_calls made [] = True"
| "ordered_calls made (Create x # cs) = (x \<notin> set made \<and> ordered_calls (x # made) cs)"
| "ordered_calls made (Prepare x # cs) = (x \<in> set made \<and> ordered_calls made cs)"
| "ordered_calls made (Configure x us # cs) = (x \<in> set made \<and> set us \<subseteq> set made \<and> ordered_calls made cs)"
| "ordered_calls made (Fill x n # cs) = (x \<in> set made \<and> ordered_calls made cs)"
| "ordered_calls made (Start x # cs) = (x \<in> set made \<and> ordered_calls made cs)"

text \<open>The cleanup disposes what a call makes, and an object before those it was given.\<close>

fun call_cleaned :: "main_object list \<Rightarrow> main_call \<Rightarrow> bool" where
  "call_cleaned cleanup (Create x) = (x \<in> set cleanup)"
| "call_cleaned cleanup (Configure x us) = list_all (\<lambda>u. later x u cleanup) us"
| "call_cleaned cleanup _ = True"

definition orderly :: "main_call list \<Rightarrow> main_object list \<Rightarrow> bool" where
  "orderly calls cleanup \<longleftrightarrow> ordered_calls [] calls \<and> distinct cleanup \<and> list_all (call_cleaned cleanup) calls"

definition run_clean :: "main_object list \<Rightarrow> main_run \<Rightarrow> bool" where
  "run_clean cleanup r \<longleftrightarrow>
     distinct (mr_made r) \<and> set (mr_made r) \<subseteq> set cleanup \<and> mr_nulls r = [] \<and>
     (\<forall>(x, u) \<in> set (mr_uses r). x \<in> set (mr_made r) \<and> u \<in> set (mr_made r) \<and> later x u cleanup)"

lemma do_call_clean:
  assumes "ordered_calls (mr_made r) (c # cs)" "call_cleaned cleanup c" "run_clean cleanup r"
  shows "run_clean cleanup (do_call e c r)" "e = None \<Longrightarrow> ordered_calls (mr_made (do_call e c r)) cs"
  using assms by (cases c; force simp: do_call_def run_clean_def list_all_iff filter_empty_conv)+

lemma run_calls_clean:
  "ordered_calls (mr_made r) calls \<Longrightarrow> list_all (call_cleaned cleanup) calls \<Longrightarrow> run_clean cleanup r \<Longrightarrow>
     run_clean cleanup (run_calls ans calls r)"
proof (induction calls arbitrary: r)
  case (Cons c cs)
  then have "call_cleaned cleanup c" by simp
  note step = do_call_clean [OF Cons.prems(1) this Cons.prems(3)]
  show ?case
  proof (cases "ans c")
    case None
    with Cons.IH [OF step(2) _ step(1)] Cons.prems(2) show ?thesis by (simp add: Let_def)
  qed (use step(1) in \<open>simp add: Let_def\<close>)
qed simp

lemma run_calls_error:
  "mr_error r = None \<Longrightarrow> mr_error (run_calls ans calls r) = None \<longleftrightarrow> (\<forall>c \<in> set calls. ans c = None)"
  by (induction calls arbitrary: r) (auto simp: Let_def do_call_def split: main_call.splits)

lemma run_main_cases:
  assumes "run_main early ans calls tail cleanup = Some y"
  obtains (early) e where "early = Some e" "y = leave_main cleanup (main_fresh e)"
  | (failed) r where "early = None" "r = run_calls ans calls (main_fresh None)" "mr_error r \<noteq> None" "y = leave_main cleanup r"
  | (ended) r e where "early = None" "r = run_calls ans calls (main_fresh None)" "mr_error r = None" "tail = Some e"
      "y = leave_main cleanup (r\<lparr>mr_error := e\<rparr>)"
  using assms by (auto simp: run_main_def Let_def split: option.splits if_splits)

lemma leave_main_clean:
  assumes "run_clean cleanup r" "distinct cleanup"
  shows "set (mx_disposed (leave_main cleanup r)) = set (mr_made r)" "distinct (mx_disposed (leave_main cleanup r))"
    "(x, u) \<in> set (mr_uses r) \<Longrightarrow> later x u (mx_disposed (leave_main cleanup r))"
  using assms by (auto simp: leave_main_def run_clean_def intro: later_filter)

text \<open>The exit code of a \<open>main\<close> is 0 exactly when nothing failed.\<close>

lemma run_main_rc:
  assumes "run_main early ans calls tail cleanup = Some y"
  shows "mx_rc y = (if case early of Some e \<Rightarrow> e = None | None \<Rightarrow> (\<forall>c \<in> set calls. ans c = None) \<and> tail = Some None
                    then 0 else - 1)"
  using assms
proof (cases rule: run_main_cases)
  case (early e)
  then show ?thesis by (simp add: leave_main_def main_fresh_def)
next
  case (failed r)
  with run_calls_error [of "main_fresh None" ans calls] show ?thesis by (auto simp: leave_main_def main_fresh_def)
next
  case (ended r e)
  with run_calls_error [of "main_fresh None" ans calls] show ?thesis by (auto simp: leave_main_def main_fresh_def)
qed

text \<open>An orderly \<open>main\<close> disposes, on every way out, exactly what it made, users first.\<close>

lemma orderly_main_clean:
  assumes "orderly calls cleanup" "run_main early ans calls tail cleanup = Some y"
  shows "set (mx_disposed y) = set (mr_made (mx_run y))" "distinct (mx_disposed y)" "mr_nulls (mx_run y) = []"
    "(x, u) \<in> set (mr_uses (mx_run y)) \<Longrightarrow> later x u (mx_disposed y)"
proof -
  have fresh: "run_clean cleanup (main_fresh e)" for e by (simp add: run_clean_def main_fresh_def)
  have "run_clean cleanup (run_calls ans calls (main_fresh None))"
    using assms(1) by (intro run_calls_clean fresh) (simp_all add: orderly_def main_fresh_def)
  then have "run_clean cleanup (run_calls ans calls (main_fresh None))"
    "run_clean cleanup ((run_calls ans calls (main_fresh None))\<lparr>mr_error := e\<rparr>)" for e
    by (simp_all add: run_clean_def)
  with assms(2) fresh have "\<exists>r. y = leave_main cleanup r \<and> run_clean cleanup r"
    by (cases rule: run_main_cases) blast+
  then obtain r where r: "y = leave_main cleanup r" "run_clean cleanup r" by blast
  have "mx_run y = r" using r(1) by (simp add: leave_main_def)
  with r leave_main_clean [OF r(2)] assms(1)
  show "set (mx_disposed y) = set (mr_made (mx_run y))" "distinct (mx_disposed y)" "mr_nulls (mx_run y) = []"
    "(x, u) \<in> set (mr_uses (mx_run y)) \<Longrightarrow> later x u (mx_disposed y)"
    by (auto simp: orderly_def run_clean_def)
qed

end
