(* ===== verification/LvglCard.thy ===== *)
theory LvglCard
  imports Cstring
begin

text \<open>
  \<open>apps/demo_lvgl_card/src/demo_lvgl_card.c\<close>: a screen of LVGL widgets with two readouts that a timer
  changes. LVGL is a tree of widgets here: what a call needs of it is that its widgets exist. The
  arithmetic of the floats and their text are parameters.
\<close>

section \<open>Widgets\<close>

text \<open>The widgets of the screen, by the variables of the code; \<open>Row i\<close> stands for \<open>row1\<close> to \<open>row3\<close>.\<close>

datatype lv_widget =
    Screen | Root | Header | Title | Content | Card | Row nat | RowLabel nat | RowValue nat
  | Footer | BtnOn | LblOn | BtnOff | LblOff

datatype lv_size = Px int | Pct int | SizeContent
datatype lv_align = AlignStart | AlignCenter | AlignBetween | AlignEvenly
datatype lv_flow = FlowColumn | FlowRow
datatype lv_opa = OpaCover | OpaTransp

datatype lv_setting =
    Size lv_size lv_size | Width lv_size | Height lv_size | Center | LayoutFlex | FlexFlow lv_flow
  | FlexAlign lv_align lv_align lv_align | FlexGrow int | PadAll int | PadRow int | BgOpa lv_opa | BgColorGrey int
  | BorderWidth int | ShadowWidth int | TextFont string | RemoveStyleAll

datatype lv_kind = KindObj | KindLabel | KindButton

text \<open>A widget without a text of its own has \<open>None\<close>; its settings are kept in the order of the calls.\<close>

record lv_node =
  ln_kind :: lv_kind
  ln_parent :: "lv_widget option"
  ln_text :: "string option"
  ln_settings :: "lv_setting list"

type_synonym lv_tree = "lv_widget \<Rightarrow> lv_node option"

text \<open>The active screen alone.\<close>

definition lv_start :: lv_tree where
  "lv_start = [Screen \<mapsto> \<lparr>ln_kind = KindObj, ln_parent = None, ln_text = None, ln_settings = []\<rparr>]"

datatype lv_call =
    ObjCreate lv_widget lv_widget
  | LabelCreate lv_widget lv_widget
  | ButtonCreate lv_widget lv_widget
  | SetText lv_widget string
  | Set lv_widget lv_setting

text \<open>\<open>None\<close>: the call is given a widget that does not exist, or is no label.\<close>

definition lv_create :: "lv_kind \<Rightarrow> lv_widget \<Rightarrow> lv_widget \<Rightarrow> lv_tree \<Rightarrow> lv_tree option" where
  "lv_create k w p t =
     (if t p = None \<or> t w \<noteq> None then None
      else Some (t(w \<mapsto> \<lparr>ln_kind = k, ln_parent = Some p, ln_text = None, ln_settings = []\<rparr>)))"

definition set_text :: "lv_widget \<Rightarrow> string \<Rightarrow> lv_tree \<Rightarrow> lv_tree option" where
  "set_text w s t =
     (case t w of
        Some n \<Rightarrow> if ln_kind n = KindLabel then Some (t(w \<mapsto> n\<lparr>ln_text := Some s\<rparr>)) else None
      | None \<Rightarrow> None)"

fun lv_exec :: "lv_call \<Rightarrow> lv_tree \<Rightarrow> lv_tree option" where
  "lv_exec (ObjCreate w p) t = lv_create KindObj w p t"
| "lv_exec (LabelCreate w p) t = lv_create KindLabel w p t"
| "lv_exec (ButtonCreate w p) t = lv_create KindButton w p t"
| "lv_exec (SetText w s) t = set_text w s t"
| "lv_exec (Set w x) t = map_option (\<lambda>n. t(w \<mapsto> n\<lparr>ln_settings := ln_settings n @ [x]\<rparr>)) (t w)"

fun lv_run :: "lv_call list \<Rightarrow> lv_tree \<Rightarrow> lv_tree option" where
  "lv_run [] t = Some t"
| "lv_run (c # cs) t = (case lv_exec c t of None \<Rightarrow> None | Some t1 \<Rightarrow> lv_run cs t1)"

section \<open>The demo\<close>

record card_demo =
  dm_placeholder :: int
  dm_cycle_number :: int
  dm_got_first_read :: bool

definition card_describe ::
  "(string option \<Rightarrow> string option \<Rightarrow> string \<Rightarrow> string) \<Rightarrow> card_demo option \<Rightarrow> string option \<Rightarrow> errcode + string" where
  "card_describe join self out =
     (if self = None then Inl DTERR_ASSERT
      else
        let sep = Some (LF # ''    '');
            d1 = join out sep ''Description of the demo:'';
            d2 = join (Some d1) sep ''This demo shows a simple card with two readouts showing fake fluctuating values.''
        in Inr (join (Some d2) sep ''Two buttons are shown but they are not functional in this demo.''))"

definition card_create :: "bool \<Rightarrow> dterr \<times> card_demo option" where
  "card_create malloc_ok =
     (if \<not> malloc_ok then (Some DTERR_NOMEM, None)
      else (None, Some \<lparr>dm_placeholder = 0, dm_cycle_number = 0, dm_got_first_read = False\<rparr>))"

definition card_configure :: "card_demo option \<Rightarrow> int option \<Rightarrow> dterr \<times> card_demo option" where
  "card_configure self config =
     (case (self, config) of
        (Some s, Some c) \<Rightarrow> (None, Some (s\<lparr>dm_placeholder := c\<rparr>))
      | _ \<Rightarrow> (Some DTERR_ASSERT, self))"

text \<open>The float operations the code uses; a constant is given in hundredths, \<open>fo_text\<close> is the format \<open>%0.2f\<close>.\<close>

record 'f float_ops =
  fo_hundredths :: "int \<Rightarrow> 'f"
  fo_of_int :: "int \<Rightarrow> 'f"
  fo_plus :: "'f \<Rightarrow> 'f \<Rightarrow> 'f"
  fo_times :: "'f \<Rightarrow> 'f \<Rightarrow> 'f"
  fo_sinf :: "'f \<Rightarrow> 'f"
  fo_cosf :: "'f \<Rightarrow> 'f"
  fo_text :: "'f \<Rightarrow> string"

record 'f app_ui_t =
  ui_temperature_value :: "lv_widget option"
  ui_brightness_value :: "lv_widget option"
  ui_temperature :: 'f
  ui_brightness :: 'f
  ui_tick :: int

definition app_ui_zero :: "'f float_ops \<Rightarrow> 'f app_ui_t" where
  "app_ui_zero fo = \<lparr>ui_temperature_value = None, ui_brightness_value = None, ui_temperature = fo_hundredths fo 0,
     ui_brightness = fo_hundredths fo 0, ui_tick = 0\<rparr>"

definition temperature_at :: "'f float_ops \<Rightarrow> int \<Rightarrow> 'f" where
  "temperature_at fo tick =
     fo_plus fo (fo_hundredths fo 2250)
       (fo_times fo (fo_hundredths fo 175) (fo_sinf fo (fo_times fo (fo_of_int fo tick) (fo_hundredths fo 40))))"

definition brightness_at :: "'f float_ops \<Rightarrow> int \<Rightarrow> 'f" where
  "brightness_at fo tick =
     fo_plus fo (fo_hundredths fo 5500)
       (fo_times fo (fo_hundredths fo 825) (fo_cosf fo (fo_times fo (fo_of_int fo tick) (fo_hundredths fo 33))))"

definition show_readout :: "lv_widget option \<Rightarrow> string \<Rightarrow> lv_tree \<Rightarrow> lv_tree option" where
  "show_readout label text t = (case label of None \<Rightarrow> Some t | Some w \<Rightarrow> set_text w text t)"

text \<open>The timer's callback; its texts are in buffers of 32 bytes.\<close>

definition update_readouts :: "'f float_ops \<Rightarrow> 'f app_ui_t option \<Rightarrow> lv_tree \<Rightarrow> ('f app_ui_t option \<times> lv_tree) option" where
  "update_readouts fo ui t =
     (case ui of
        None \<Rightarrow> Some (None, t)
      | Some u \<Rightarrow>
          let tick = ui_tick u + 1;
              u1 = u\<lparr>ui_tick := tick, ui_temperature := temperature_at fo tick, ui_brightness := brightness_at fo tick\<rparr> in
          case show_readout (ui_temperature_value u1) (fit 32 (fo_text fo (ui_temperature u1))) t of
            None \<Rightarrow> None
          | Some t1 \<Rightarrow>
              (case show_readout (ui_brightness_value u1) (fit 32 (fo_text fo (ui_brightness u1))) t1 of
                 None \<Rightarrow> None
               | Some t2 \<Rightarrow> Some (Some u1, t2)))"

text \<open>The calls that make the screen, in the order of the code.\<close>

definition card_calls :: "lv_call list" where
  "card_calls =
    [Set Screen (BgColorGrey 4), Set Screen (BgOpa OpaCover),
     ObjCreate Root Screen, Set Root (Size (Pct 100) (Pct 100)), Set Root Center, Set Root LayoutFlex,
     Set Root (FlexFlow FlowColumn), Set Root (FlexAlign AlignStart AlignCenter AlignCenter),
     Set Root (PadAll 10), Set Root (PadRow 10), Set Root (BgOpa OpaTransp), Set Root (BorderWidth 0),
     Set Root (ShadowWidth 0),
     ObjCreate Header Root, Set Header (Width (Pct 100)), Set Header (Height SizeContent),
     Set Header (BgOpa OpaTransp), Set Header (BorderWidth 0), Set Header (ShadowWidth 0),
     Set Header (PadAll 4),
     LabelCreate Title Header, SetText Title ''Hello LVGL'', Set Title (TextFont ''montserrat_14''),
     Set Title Center,
     ObjCreate Content Root, Set Content (Width (Pct 100)), Set Content (FlexGrow 1), Set Content LayoutFlex,
     Set Content (FlexFlow FlowColumn), Set Content (FlexAlign AlignStart AlignCenter AlignCenter),
     Set Content (PadAll 0), Set Content (PadRow 10), Set Content (BgOpa OpaTransp),
     Set Content (BorderWidth 0), Set Content (ShadowWidth 0),
     ObjCreate Card Content, Set Card (Width (Px 220)), Set Card (Height SizeContent), Set Card LayoutFlex,
     Set Card (FlexFlow FlowColumn), Set Card (FlexAlign AlignStart AlignCenter AlignCenter),
     Set Card (PadAll 10), Set Card (PadRow 8),
     ObjCreate (Row 1) Card, Set (Row 1) RemoveStyleAll, Set (Row 1) (Width (Pct 100)),
     Set (Row 1) (Height SizeContent), Set (Row 1) LayoutFlex, Set (Row 1) (FlexFlow FlowRow),
     Set (Row 1) (FlexAlign AlignBetween AlignCenter AlignCenter),
     LabelCreate (RowLabel 1) (Row 1), SetText (RowLabel 1) ''Temperature'',
     LabelCreate (RowValue 1) (Row 1), SetText (RowValue 1) ''23.68'',
     ObjCreate (Row 2) Card, Set (Row 2) RemoveStyleAll, Set (Row 2) (Width (Pct 100)),
     Set (Row 2) (Height SizeContent), Set (Row 2) LayoutFlex, Set (Row 2) (FlexFlow FlowRow),
     Set (Row 2) (FlexAlign AlignBetween AlignCenter AlignCenter),
     LabelCreate (RowLabel 2) (Row 2), SetText (RowLabel 2) ''Brightness'',
     LabelCreate (RowValue 2) (Row 2), SetText (RowValue 2) ''55.00'',
     ObjCreate (Row 3) Card, Set (Row 3) RemoveStyleAll, Set (Row 3) (Width (Pct 100)),
     Set (Row 3) (Height SizeContent), Set (Row 3) LayoutFlex, Set (Row 3) (FlexFlow FlowRow),
     Set (Row 3) (FlexAlign AlignBetween AlignCenter AlignCenter),
     LabelCreate (RowLabel 3) (Row 3), SetText (RowLabel 3) ''Status'',
     LabelCreate (RowValue 3) (Row 3), SetText (RowValue 3) ''Online'',
     ObjCreate Footer Root, Set Footer (Width (Pct 100)), Set Footer (Height (Px 50)), Set Footer LayoutFlex,
     Set Footer (FlexFlow FlowRow), Set Footer (FlexAlign AlignEvenly AlignCenter AlignCenter),
     Set Footer (BgOpa OpaTransp), Set Footer (BorderWidth 0), Set Footer (ShadowWidth 0),
     Set Footer (PadAll 0),
     ButtonCreate BtnOn Footer, Set BtnOn (Size (Px 90) (Px 36)),
     LabelCreate LblOn BtnOn, SetText LblOn ''On'', Set LblOn Center,
     ButtonCreate BtnOff Footer, Set BtnOff (Size (Px 90) (Px 36)),
     LabelCreate LblOff BtnOff, SetText LblOff ''Off'', Set LblOff Center]"

text \<open>The screen, the data of its timer, and the period of the timer in milliseconds.\<close>

definition create_lvgl_screen :: "'f float_ops \<Rightarrow> lv_tree \<Rightarrow> ('f app_ui_t \<times> lv_tree \<times> int) option" where
  "create_lvgl_screen fo t =
     (case lv_run card_calls t of
        None \<Rightarrow> None
      | Some t1 \<Rightarrow>
          Some ((app_ui_zero fo)\<lparr>ui_temperature_value := Some (RowValue 1), ui_brightness_value := Some (RowValue 2)\<rparr>, t1, 1000))"

text \<open>\<open>decorated\<close> is the answer of the helper that makes the description to be logged.\<close>

definition card_start :: "'f float_ops \<Rightarrow> dterr \<Rightarrow> card_demo option \<Rightarrow> lv_tree \<Rightarrow> (dterr \<times> ('f app_ui_t \<times> lv_tree \<times> int) option) option" where
  "card_start fo decorated self t =
     (if self = None then Some (Some DTERR_ASSERT, None)
      else if decorated \<noteq> None then Some (decorated, None)
      else case create_lvgl_screen fo t of None \<Rightarrow> None | Some r \<Rightarrow> Some (None, Some r))"

text \<open>The rounds of the timer.\<close>

fun card_rounds :: "'f float_ops \<Rightarrow> nat \<Rightarrow> 'f app_ui_t option \<times> lv_tree \<Rightarrow> ('f app_ui_t option \<times> lv_tree) option" where
  "card_rounds fo 0 s = Some s"
| "card_rounds fo (Suc n) s = (case card_rounds fo n s of None \<Rightarrow> None | Some (ui, t) \<Rightarrow> update_readouts fo ui t)"

section \<open>The tree\<close>

text \<open>A widget is shown when its parents lead to the screen.\<close>

inductive under_screen :: "lv_tree \<Rightarrow> lv_widget \<Rightarrow> bool" for t where
  screen: "t Screen \<noteq> None \<Longrightarrow> under_screen t Screen"
| child: "t w = Some n \<Longrightarrow> ln_parent n = Some p \<Longrightarrow> under_screen t p \<Longrightarrow> under_screen t w"

definition lv_ok :: "lv_tree \<Rightarrow> bool" where
  "lv_ok t \<longleftrightarrow> (\<forall>w. t w \<noteq> None \<longrightarrow> under_screen t w)"

definition is_label :: "lv_tree \<Rightarrow> lv_widget \<Rightarrow> bool" where
  "is_label t w \<longleftrightarrow> (\<exists>n. t w = Some n \<and> ln_kind n = KindLabel)"

text \<open>What a call leaves as it is: every widget stays, with its parent.\<close>

definition keeps_widgets :: "lv_tree \<Rightarrow> lv_tree \<Rightarrow> bool" where
  "keeps_widgets t t' \<longleftrightarrow> (\<forall>w n. t w = Some n \<longrightarrow> (\<exists>n'. t' w = Some n' \<and> ln_parent n' = ln_parent n \<and> ln_kind n' = ln_kind n))"

lemma under_screen_mono: "under_screen t w \<Longrightarrow> keeps_widgets t t' \<Longrightarrow> under_screen t' w"
proof (induction rule: under_screen.induct)
  case screen
  then show ?case by (intro under_screen.screen) (auto simp: keeps_widgets_def)
next
  case (child w n p)
  from child.prems child.hyps(1,2) obtain n' where "t' w = Some n'" "ln_parent n' = Some p"
    unfolding keeps_widgets_def by metis
  then show ?case using child.IH [OF child.prems] by (rule under_screen.child)
qed

lemma set_text_result:
  assumes "set_text w s t = Some t'"
  shows "keeps_widgets t t'" "t' w = map_option (\<lambda>n. n\<lparr>ln_text := Some s\<rparr>) (t w)" "t'(w := None) = t(w := None)"
    "\<And>x. t' x = None \<longleftrightarrow> t x = None"
  using assms by (auto simp: set_text_def keeps_widgets_def split: option.splits if_splits)

text \<open>A widget that is new has a parent that is not.\<close>

definition grows :: "lv_tree \<Rightarrow> lv_tree \<Rightarrow> bool" where
  "grows t t' \<longleftrightarrow> keeps_widgets t t' \<and>
     (\<forall>w n. t w = None \<longrightarrow> t' w = Some n \<longrightarrow> (\<exists>p. ln_parent n = Some p \<and> t p \<noteq> None))"

lemma lv_create_grows: "lv_create k w p t = Some t' \<Longrightarrow> grows t t'"
  by (auto simp: lv_create_def grows_def keeps_widgets_def split: if_splits)

lemma set_text_grows: "set_text w s t = Some t' \<Longrightarrow> grows t t'"
  using set_text_result(1,4) [of w s t t'] by (auto simp: grows_def) (metis option.distinct(1))

lemma setting_grows: "map_option (\<lambda>n. t(w \<mapsto> n\<lparr>ln_settings := ln_settings n @ [x]\<rparr>)) (t w) = Some t' \<Longrightarrow> grows t t'"
  by (auto simp: grows_def keeps_widgets_def split: if_splits)

lemma lv_exec_result:
  assumes "lv_exec c t = Some t'"
  shows "keeps_widgets t t'" "t w = None \<Longrightarrow> t' w = Some n \<Longrightarrow> \<exists>p. ln_parent n = Some p \<and> t p \<noteq> None"
proof -
  from assms have "grows t t'" by (cases c) (simp_all only: lv_exec.simps lv_create_grows set_text_grows setting_grows)
  then show "keeps_widgets t t'" "t w = None \<Longrightarrow> t' w = Some n \<Longrightarrow> \<exists>p. ln_parent n = Some p \<and> t p \<noteq> None"
    by (simp_all add: grows_def)
qed

lemma lv_exec_ok: "lv_exec c t = Some t' \<Longrightarrow> lv_ok t \<Longrightarrow> lv_ok t'"
  unfolding lv_ok_def
proof (intro allI impI)
  fix w assume a: "lv_exec c t = Some t'" "\<forall>w. t w \<noteq> None \<longrightarrow> under_screen t w" "t' w \<noteq> None"
  note r = lv_exec_result [OF a(1)]
  show "under_screen t' w"
  proof (cases "t w")
    case None
    from a(3) obtain n where n: "t' w = Some n" by auto
    with r(2) [OF None] obtain p where p: "ln_parent n = Some p" "t p \<noteq> None" by blast
    with a(2) under_screen_mono [OF _ r(1)] have "under_screen t' p" by blast
    with n p(1) show ?thesis by (rule under_screen.child)
  qed (use a(2) under_screen_mono [OF _ r(1)] in auto)
qed

lemma lv_run_ok: "lv_run cs t = Some t' \<Longrightarrow> lv_ok t \<Longrightarrow> lv_ok t'"
  by (induction cs arbitrary: t) (auto dest: lv_exec_ok split: option.splits)

text \<open>A check of calls: \<open>ws\<close> are the widgets that exist, \<open>ls\<close> the labels among them.\<close>

fun calls_ok :: "lv_widget list \<Rightarrow> lv_widget list \<Rightarrow> lv_call list \<Rightarrow> bool" where
  "calls_ok ws ls [] = True"
| "calls_ok ws ls (ObjCreate w p # cs) = (w \<notin> set ws \<and> p \<in> set ws \<and> calls_ok (w # ws) ls cs)"
| "calls_ok ws ls (LabelCreate w p # cs) = (w \<notin> set ws \<and> p \<in> set ws \<and> calls_ok (w # ws) (w # ls) cs)"
| "calls_ok ws ls (ButtonCreate w p # cs) = (w \<notin> set ws \<and> p \<in> set ws \<and> calls_ok (w # ws) ls cs)"
| "calls_ok ws ls (SetText w s # cs) = (w \<in> set ls \<and> calls_ok ws ls cs)"
| "calls_ok ws ls (Set w x # cs) = (w \<in> set ws \<and> calls_ok ws ls cs)"

definition has_widgets :: "lv_widget list \<Rightarrow> lv_widget list \<Rightarrow> lv_tree \<Rightarrow> bool" where
  "has_widgets ws ls t \<longleftrightarrow> (\<forall>w. w \<in> set ws \<longleftrightarrow> t w \<noteq> None) \<and> (\<forall>w \<in> set ls. is_label t w)"

lemma create_widgets:
  assumes "has_widgets ws ls t" "w \<notin> set ws" "p \<in> set ws"
  shows "\<exists>t'. lv_create k w p t = Some t' \<and> has_widgets (w # ws) (if k = KindLabel then w # ls else ls) t'"
  using assms by (auto simp: lv_create_def has_widgets_def is_label_def)

lemma text_widgets:
  assumes "has_widgets ws ls t" "w \<in> set ls"
  shows "\<exists>t'. set_text w s t = Some t' \<and> has_widgets ws ls t'"
proof -
  from assms obtain n where "t w = Some n" "ln_kind n = KindLabel" by (auto simp: has_widgets_def is_label_def)
  with assms show ?thesis by (auto simp: set_text_def has_widgets_def is_label_def)
qed

lemma setting_widgets:
  assumes "has_widgets ws ls t" "w \<in> set ws"
  shows "\<exists>t'. lv_exec (Set w x) t = Some t' \<and> has_widgets ws ls t'"
proof -
  from assms obtain n where "t w = Some n" by (auto simp: has_widgets_def)
  with assms show ?thesis by (auto simp: has_widgets_def is_label_def)
qed

lemma calls_ok_exec:
  assumes "calls_ok ws ls (c # cs)" "has_widgets ws ls t"
  shows "\<exists>t' ws' ls'. lv_exec c t = Some t' \<and> has_widgets ws' ls' t' \<and> calls_ok ws' ls' cs \<and> set ls \<subseteq> set ls' \<and>
    (\<forall>w p. c = LabelCreate w p \<longrightarrow> w \<in> set ls')"
proof (cases c)
  case (ObjCreate w p)
  with assms create_widgets [OF assms(2), of w p KindObj] show ?thesis by fastforce
next
  case (LabelCreate w p)
  with assms create_widgets [OF assms(2), of w p KindLabel] show ?thesis by fastforce
next
  case (ButtonCreate w p)
  with assms create_widgets [OF assms(2), of w p KindButton] show ?thesis by fastforce
next
  case (SetText w s)
  with assms text_widgets [OF assms(2), of w s] show ?thesis by auto
next
  case (Set w x)
  with assms setting_widgets [OF assms(2), of w x] show ?thesis by auto
qed

lemma calls_ok_run:
  "calls_ok ws ls cs \<Longrightarrow> has_widgets ws ls t \<Longrightarrow>
     \<exists>t'. lv_run cs t = Some t' \<and> (\<forall>w. w \<in> set ls \<or> (\<exists>p. LabelCreate w p \<in> set cs) \<longrightarrow> is_label t' w)"
proof (induction cs arbitrary: ws ls t)
  case Nil
  then show ?case by (simp add: has_widgets_def)
next
  case (Cons c cs)
  from calls_ok_exec [OF Cons.prems] obtain t1 ws1 ls1
    where t1: "lv_exec c t = Some t1" "has_widgets ws1 ls1 t1" "calls_ok ws1 ls1 cs" "set ls \<subseteq> set ls1"
      "\<forall>w p. c = LabelCreate w p \<longrightarrow> w \<in> set ls1" by blast
  from Cons.IH [OF t1(3,2)] obtain t' where "lv_run cs t1 = Some t'"
    "\<forall>w. w \<in> set ls1 \<or> (\<exists>p. LabelCreate w p \<in> set cs) \<longrightarrow> is_label t' w" by blast
  then show ?case using t1(1,4,5) by (intro exI [of _ t']) (simp, blast)
qed

lemma card_screen_made:
  "\<exists>t. lv_run card_calls lv_start = Some t \<and> lv_ok t \<and> is_label t (RowValue 1) \<and> is_label t (RowValue 2)"
proof -
  have "calls_ok [Screen] [] card_calls" by (simp add: card_calls_def)
  moreover have "has_widgets [Screen] [] lv_start" by (auto simp: has_widgets_def lv_start_def)
  ultimately obtain t where t: "lv_run card_calls lv_start = Some t"
    "\<forall>w. w \<in> set [] \<or> (\<exists>p. LabelCreate w p \<in> set card_calls) \<longrightarrow> is_label t w" using calls_ok_run by blast
  have "LabelCreate (RowValue 1) (Row 1) \<in> set card_calls" "LabelCreate (RowValue 2) (Row 2) \<in> set card_calls"
    by (simp_all add: card_calls_def)
  with t(2) have "is_label t (RowValue 1)" "is_label t (RowValue 2)" by blast+
  moreover have "lv_ok lv_start" by (auto simp: lv_ok_def lv_start_def intro: under_screen.screen)
  ultimately show ?thesis using t(1) lv_run_ok by blast
qed

section \<open>The readouts\<close>

lemma set_text_label: "is_label t w \<Longrightarrow> \<exists>t'. set_text w s t = Some t'"
  by (auto simp: set_text_def is_label_def)

lemma keeps_label: "keeps_widgets t t' \<Longrightarrow> is_label t w \<Longrightarrow> is_label t' w"
  by (fastforce simp: keeps_widgets_def is_label_def)

text \<open>The text of a widget.\<close>

definition text_of :: "lv_tree \<Rightarrow> lv_widget \<Rightarrow> string option" where
  "text_of t w = (case t w of None \<Rightarrow> None | Some n \<Rightarrow> ln_text n)"

definition others :: "lv_tree \<Rightarrow> lv_tree" where
  "others t = t(RowValue 1 := None, RowValue 2 := None)"

definition readouts_at :: "'f float_ops \<Rightarrow> int \<Rightarrow> lv_tree \<Rightarrow> bool" where
  "readouts_at fo tick t \<longleftrightarrow>
     text_of t (RowValue 1) = Some (fit 32 (fo_text fo (temperature_at fo tick))) \<and>
     text_of t (RowValue 2) = Some (fit 32 (fo_text fo (brightness_at fo tick)))"

lemma update_shows:
  assumes "is_label t (RowValue 1)" "is_label t (RowValue 2)" "lv_ok t"
    and "ui_temperature_value u = Some (RowValue 1)" "ui_brightness_value u = Some (RowValue 2)"
  shows "\<exists>u' t'. update_readouts fo (Some u) t = Some (Some u', t') \<and> ui_tick u' = ui_tick u + 1 \<and>
    ui_temperature_value u' = Some (RowValue 1) \<and> ui_brightness_value u' = Some (RowValue 2) \<and>
    is_label t' (RowValue 1) \<and> is_label t' (RowValue 2) \<and> lv_ok t' \<and> others t' = others t \<and>
    readouts_at fo (ui_tick u') t'"
proof -
  let ?a = "fit 32 (fo_text fo (temperature_at fo (ui_tick u + 1)))"
  let ?b = "fit 32 (fo_text fo (brightness_at fo (ui_tick u + 1)))"
  obtain t1 where t1: "set_text (RowValue 1) ?a t = Some t1" using set_text_label [OF assms(1)] by blast
  note r1 = set_text_result [OF t1]
  obtain t2 where t2: "set_text (RowValue 2) ?b t1 = Some t2"
    using set_text_label [OF keeps_label [OF r1(1) assms(2)]] by blast
  note r2 = set_text_result [OF t2]
  have "update_readouts fo (Some u) t =
      Some (Some (u\<lparr>ui_tick := ui_tick u + 1, ui_temperature := temperature_at fo (ui_tick u + 1),
        ui_brightness := brightness_at fo (ui_tick u + 1)\<rparr>), t2)" (is "_ = Some (Some ?u, _)")
    using t1 t2 assms(4,5) by (simp add: update_readouts_def show_readout_def Let_def)
  moreover have "is_label t2 (RowValue 1)" "is_label t2 (RowValue 2)"
    using assms(1,2) keeps_label r1(1) r2(1) by blast+
  moreover have "lv_ok t2"
    using lv_run_ok [of "[SetText (RowValue 1) ?a, SetText (RowValue 2) ?b]" t t2] t1 t2 assms(3) by simp
  moreover have t1': "t2 (RowValue 1) = t1 (RowValue 1)" using fun_cong [OF r2(3), of "RowValue 1"] by simp
  then have "readouts_at fo (ui_tick u + 1) t2"
    using assms(1,2) keeps_label [OF r1(1) assms(2)] r1(2) r2(2) by (auto simp: readouts_at_def text_of_def is_label_def)
  moreover have "others t2 = others t" unfolding others_def using r1(3) r2(3) by (metis fun_upd_twist)
  ultimately show ?thesis using assms(4,5) by (intro exI [of _ ?u] exI [of _ t2]) simp
qed

lemma card_rounds_show:
  assumes "is_label t (RowValue 1)" "is_label t (RowValue 2)" "lv_ok t"
    and "ui_temperature_value u = Some (RowValue 1)" "ui_brightness_value u = Some (RowValue 2)" "ui_tick u = 0"
  shows "\<exists>u' t'. card_rounds fo n (Some u, t) = Some (Some u', t') \<and> ui_tick u' = int n \<and>
    ui_temperature_value u' = Some (RowValue 1) \<and> ui_brightness_value u' = Some (RowValue 2) \<and>
    is_label t' (RowValue 1) \<and> is_label t' (RowValue 2) \<and> lv_ok t' \<and> others t' = others t \<and>
    (n = 0 \<or> readouts_at fo (int n) t')"
proof (induction n)
  case 0
  then show ?case using assms by simp
next
  case (Suc n)
  then obtain u1 t1 where s: "card_rounds fo n (Some u, t) = Some (Some u1, t1)" "ui_tick u1 = int n"
    "ui_temperature_value u1 = Some (RowValue 1)" "ui_brightness_value u1 = Some (RowValue 2)"
    "is_label t1 (RowValue 1)" "is_label t1 (RowValue 2)" "lv_ok t1" "others t1 = others t" by blast
  from update_shows [OF s(5,6,7,3,4), of fo] s(1,2,8) show ?case by (auto simp: add.commute)
qed

text \<open>
  The card of the LVGL demo. Its start makes every widget in one that exists already, so that all
  lie under the screen, and sets texts of labels only; and after any number of rounds of its timer the
  two readouts show the temperature and the brightness of that round, cut to 31 characters, while
  every other widget is as the start left it.
\<close>

theorem card_shows_readouts:
  "\<exists>ui t u' t'. card_start fo None (Some demo) lv_start = Some (None, Some (ui, t, 1000)) \<and> lv_ok t \<and>
     card_rounds fo (Suc n) (Some ui, t) = Some (Some u', t') \<and> ui_tick u' = int (Suc n) \<and>
     readouts_at fo (int (Suc n)) t' \<and> others t' = others t \<and> lv_ok t'"
proof -
  from card_screen_made obtain t where t: "lv_run card_calls lv_start = Some t" "lv_ok t"
    "is_label t (RowValue 1)" "is_label t (RowValue 2)" by blast
  let ?u = "(app_ui_zero fo)\<lparr>ui_temperature_value := Some (RowValue 1), ui_brightness_value := Some (RowValue 2)\<rparr>"
  have "card_start fo None (Some demo) lv_start = Some (None, Some (?u, t, 1000))"
    using t(1) by (simp add: card_start_def create_lvgl_screen_def)
  moreover have "\<exists>u' t'. card_rounds fo (Suc n) (Some ?u, t) = Some (Some u', t') \<and> ui_tick u' = int (Suc n) \<and>
      readouts_at fo (int (Suc n)) t' \<and> others t' = others t \<and> lv_ok t'"
    using card_rounds_show [OF t(3,4,2), of ?u fo "Suc n"] by (auto simp: app_ui_zero_def simp del: card_rounds.simps)
  ultimately show ?thesis using t(2) by blast
qed

text \<open>A description, or a configuration, of no demo is refused.\<close>

lemma card_null_refused:
  "card_describe join None out = Inl DTERR_ASSERT" "fst (card_configure None c) = Some DTERR_ASSERT"
  "card_start fo d None t = Some (Some DTERR_ASSERT, None)"
  by (simp_all add: card_describe_def card_configure_def card_start_def)

end
