(* ===== verification/Programs.thy ===== *)
theory Programs
  imports MainFlow SvcAdcws DemoTcp Demos LvglCard
begin

text \<open>
  The \<open>main\<close> functions under \<open>apps\<close>, as the calls they make and the disposals behind their label
  \<open>cleanup\<close>. The configurations they hand to the devices are in the theories of the programs. \<open>ans\<close>
  is what the calls answer.
\<close>

section \<open>The service\<close>

definition svc_adcws_calls :: "main_call list" where
  "svc_adcws_calls =
     Create FreeQueue #
     concat (map (\<lambda>i. [Create (Buffer i), Fill FreeQueue i]) [0, 1, 2, 3]) @
     [Create FullQueue,
      Create RxIox, Configure RxIox [],
      Create Iox2bq, Configure Iox2bq [RxIox, FreeQueue, FullQueue],
      Create TxIox, Configure TxIox [],
      Create Bq2framed, Configure Bq2framed [FreeQueue, FullQueue, TxIox],
      Create Service, Configure Service [Iox2bq, Bq2framed],
      Start Service]"

definition svc_adcws_cleanup :: "main_object list" where
  "svc_adcws_cleanup =
     [Service, Bq2framed, Iox2bq, TxIox, RxIox, FullQueue, Buffer 0, Buffer 1, Buffer 2, Buffer 3, FreeQueue]"

text \<open>A command line that fails, and one that asks for help, leave at once.\<close>

definition svc_adcws_early :: "dterr \<times> adcws_config_t \<Rightarrow> dterr option" where
  "svc_adcws_early parsed =
     (case parsed of
        (Some e, _) \<Rightarrow> Some (Some e)
      | (None, cfg) \<Rightarrow> if aw_help_requested cfg then Some None else None)"

definition svc_adcws_main :: "cmd_option list \<Rightarrow> bool \<Rightarrow> (main_call \<Rightarrow> dterr) \<Rightarrow> main_exit option" where
  "svc_adcws_main evs left_over ans =
     run_main (svc_adcws_early (adcws_parse_args evs left_over)) ans svc_adcws_calls (Some None) svc_adcws_cleanup"

section \<open>The TCP demo\<close>

definition demo_iox_tcp_calls :: "main_call list" where
  "demo_iox_tcp_calls =
     [Create Iox, Prepare Iox, Configure Iox [], Create Demo, Configure Demo [Iox], Start Demo]"

definition demo_iox_tcp_early :: "dterr \<times> tcpdemo_config_t \<Rightarrow> dterr option" where
  "demo_iox_tcp_early parsed =
     (case parsed of
        (Some e, _) \<Rightarrow> Some (Some e)
      | (None, cfg) \<Rightarrow>
          if td_help_requested cfg then Some None
          else if td_mode cfg \<noteq> MAIN_MODE_TCP_MASTER \<and> td_mode cfg \<noteq> MAIN_MODE_TCP_SLAVE then Some (Some DTERR_BADARG)
          else None)"

definition demo_iox_tcp_main :: "cmd_option list \<Rightarrow> bool \<Rightarrow> (main_call \<Rightarrow> dterr) \<Rightarrow> main_exit option" where
  "demo_iox_tcp_main evs left_over ans =
     (let parsed = tcpdemo_parse_args evs left_over in
      run_main (demo_iox_tcp_early parsed) (ans(Prepare Iox := fst (build_tcp_config (snd parsed))))
        demo_iox_tcp_calls (Some None) [Demo, Iox])"

section \<open>Programs of one device\<close>

text \<open>The Modbus, CAN and TTY demos: whatever their device is, they make it, and the demo over it.\<close>

definition iox_demo_calls :: "main_call list" where
  "iox_demo_calls = [Create Iox, Configure Iox [], Create Demo, Configure Demo [Iox], Start Demo]"

definition demo_iox_modbus_main :: "(main_call \<Rightarrow> dterr) \<Rightarrow> main_exit option" where
  "demo_iox_modbus_main ans = run_main None ans iox_demo_calls (Some None) [Demo, Iox]"

definition demo_iox_canbus_main :: "(main_call \<Rightarrow> dterr) \<Rightarrow> main_exit option" where
  "demo_iox_canbus_main ans = run_main None ans iox_demo_calls (Some None) [Demo, Iox]"

definition demo_iox_tty_main :: "(main_call \<Rightarrow> dterr) \<Rightarrow> main_exit option" where
  "demo_iox_tty_main ans = run_main None ans iox_demo_calls (Some None) [Demo, Iox]"

section \<open>Programs of a portal over a device\<close>

definition portal_calls :: "main_object \<Rightarrow> main_call list" where
  "portal_calls user =
     [Create Iox, Configure Iox [], Create Framer, Configure Framer [], Create Netportal,
      Configure Netportal [Iox, Framer], Create user, Configure user [Netportal], Start user]"

definition demo_netportal_modbus_main :: "(main_call \<Rightarrow> dterr) \<Rightarrow> main_exit option" where
  "demo_netportal_modbus_main ans = run_main None ans (portal_calls Demo) (Some None) [Demo, Netportal, Framer, Iox]"

definition demo_netportal_tty_main :: "(main_call \<Rightarrow> dterr) \<Rightarrow> main_exit option" where
  "demo_netportal_tty_main ans = run_main None ans (portal_calls Demo) (Some None) [Demo, Netportal, Framer, Iox]"

text \<open>The benchmarks have a variable for a task, which they never set.\<close>

definition benchmark_duplex_main :: "(main_call \<Rightarrow> dterr) \<Rightarrow> main_exit option" where
  "benchmark_duplex_main ans =
     run_main None ans (portal_calls Benchmark) (Some None) [Benchmark, Netportal, RxTasker, Framer, Iox]"

definition benchmark_simplex_main ::
  "dtuart_helper_config_t \<Rightarrow> cmd_option list \<Rightarrow> bool \<Rightarrow> (main_call \<Rightarrow> dterr) \<Rightarrow> main_exit option" where
  "benchmark_simplex_main uart evs left_over ans =
     run_main (case bench_main uart evs left_over of Inl e \<Rightarrow> Some (Some e) | Inr _ \<Rightarrow> None) ans
       (portal_calls Benchmark) (Some None) [Benchmark, Netportal, RxTasker, Framer, Iox]"

section \<open>The other demos\<close>

definition demo_netportal_mosquitto_main :: "(main_call \<Rightarrow> dterr) \<Rightarrow> main_exit option" where
  "demo_netportal_mosquitto_main ans =
     run_main None ans [Create Netportal, Configure Netportal [], Create Demo, Configure Demo [Netportal], Start Demo]
       (Some None) [Demo, Netportal]"

definition demo_write_kvp_calls :: "main_call list" where
  "demo_write_kvp_calls =
     Create KvpList # map (Fill KvpList) [0..<9] @
     [Create Nvblob, Configure Nvblob [], Create Demo, Configure Demo [KvpList, Nvblob], Start Demo]"

definition demo_write_kvp_main :: "(main_call \<Rightarrow> dterr) \<Rightarrow> main_exit option" where
  "demo_write_kvp_main ans = run_main None ans demo_write_kvp_calls (Some None) [Demo, Nvblob, KvpList]"

definition demo_display_hello_calls :: "main_call list" where
  "demo_display_hello_calls =
     [Create JoinSemaphore, Create Display, Configure Display [JoinSemaphore], Create Demo, Configure Demo [Display], Start Demo]"

definition demo_display_hello_main :: "(dterr \<times> bool) list \<Rightarrow> (main_call \<Rightarrow> dterr) \<Rightarrow> main_exit option" where
  "demo_display_hello_main rounds ans =
     run_main None ans demo_display_hello_calls (hello_wait rounds) [Demo, Display, JoinSemaphore]"

definition demo_netportal_coap_main :: "(main_call \<Rightarrow> dterr) \<Rightarrow> main_exit option" where
  "demo_netportal_coap_main ans =
     run_main None ans
       [Create Netportal, Configure Netportal [], Create Demo, Configure Demo [Netportal, PongSemaphore],
        Create PongSemaphore, Configure PongSemaphore [], Start Demo] (Some None) [Demo, Netportal]"

text \<open>
  The LVGL demo: the window stands between the configuration of the demo and its start, and the loop
  over the timers of LVGL never ends. LVGL has no disposal of the window.
\<close>

definition demo_lvgl_card_calls :: "main_call list" where
  "demo_lvgl_card_calls = [Create Demo, Configure Demo [], Prepare Demo, Start Demo]"

definition demo_lvgl_card_main :: "bool \<Rightarrow> (main_call \<Rightarrow> dterr) \<Rightarrow> main_exit option" where
  "demo_lvgl_card_main window ans =
     run_main None (ans(Prepare Demo := if window then None else Some DTERR_FAIL)) demo_lvgl_card_calls None [Demo]"

section \<open>The runners of tests\<close>

text \<open>
  The pattern is the first argument. \<open>test\<close> is the answer of the tests of a runner, \<open>suite\<close> what
  a suite makes of the count of failures.
\<close>

definition runner_pattern :: "string list \<Rightarrow> string option" where
  "runner_pattern args = (case args of [] \<Rightarrow> None | a # _ \<Rightarrow> Some a)"

definition net_runner_main :: "(string option \<Rightarrow> dterr) \<Rightarrow> string list \<Rightarrow> int" where
  "net_runner_main test args = (if test (runner_pattern args) \<noteq> None then 1 else 0)"

definition test_all_main :: "(string \<Rightarrow> string option \<Rightarrow> int \<Rightarrow> int) \<Rightarrow> string list \<Rightarrow> int" where
  "test_all_main suite args =
     (let fails = fold (\<lambda>name. suite name (runner_pattern args))
            [''dtcore'', ''dtmc_base'', ''dtmc_services'', ''dtmc_linux''] 0 in
      if 0 < fails then 1 else 0)"

text \<open>A failure that one suite counts is not lost by those behind it, and makes the exit code 1.\<close>

lemma test_all_fails:
  assumes "\<And>name p n. n \<le> suite name p n"
    and "name \<in> {''dtcore'', ''dtmc_base'', ''dtmc_services'', ''dtmc_linux''}"
    and "\<And>n. n < suite name (runner_pattern args) n"
  shows "test_all_main suite args = 1"
proof -
  let ?s = "\<lambda>name. suite name (runner_pattern args)"
  define a where "a = ?s ''dtcore'' 0"
  define b where "b = ?s ''dtmc_base'' a"
  define c where "c = ?s ''dtmc_services'' b"
  define d where "d = ?s ''dtmc_linux'' c"
  have "0 \<le> a" "a \<le> b" "b \<le> c" "c \<le> d" unfolding a_def b_def c_def d_def by (rule assms(1))+
  moreover have "0 < a \<or> a < b \<or> b < c \<or> c < d"
    using assms(2) assms(3) [of 0] assms(3) [of a] assms(3) [of b] assms(3) [of c] by (auto simp: a_def b_def c_def d_def)
  ultimately have "0 < d" by linarith
  then show ?thesis by (simp add: test_all_main_def a_def b_def c_def d_def)
qed

section \<open>What they leave behind\<close>

text \<open>The programs, but for that of the CoAP demo.\<close>

definition program_mains ::
  "dtuart_helper_config_t \<Rightarrow> cmd_option list \<Rightarrow> bool \<Rightarrow> (dterr \<times> bool) list \<Rightarrow> bool \<Rightarrow>
     ((main_call \<Rightarrow> dterr) \<Rightarrow> main_exit option) list" where
  "program_mains uart evs left_over rounds window =
     [svc_adcws_main evs left_over, demo_iox_tcp_main evs left_over, demo_iox_modbus_main, demo_iox_canbus_main,
      demo_iox_tty_main, demo_netportal_modbus_main, demo_netportal_tty_main, benchmark_duplex_main,
      benchmark_simplex_main uart evs left_over, demo_netportal_mosquitto_main, demo_write_kvp_main,
      demo_display_hello_main rounds, demo_lvgl_card_main window]"

lemma orderly_programs:
  "orderly svc_adcws_calls svc_adcws_cleanup"
  "orderly demo_iox_tcp_calls [Demo, Iox]"
  "orderly iox_demo_calls [Demo, Iox]"
  "orderly (portal_calls Demo) [Demo, Netportal, Framer, Iox]"
  "orderly (portal_calls Benchmark) [Benchmark, Netportal, RxTasker, Framer, Iox]"
  "orderly [Create Netportal, Configure Netportal [], Create Demo, Configure Demo [Netportal], Start Demo] [Demo, Netportal]"
  "orderly demo_write_kvp_calls [Demo, Nvblob, KvpList]"
  "orderly demo_display_hello_calls [Demo, Display, JoinSemaphore]"
  "orderly demo_lvgl_card_calls [Demo]"
  by (simp_all add: orderly_def svc_adcws_calls_def svc_adcws_cleanup_def demo_iox_tcp_calls_def iox_demo_calls_def
      portal_calls_def demo_write_kvp_calls_def demo_display_hello_calls_def
      demo_lvgl_card_calls_def upt_rec)

lemmas program_main_defs = svc_adcws_main_def demo_iox_tcp_main_def demo_iox_modbus_main_def demo_iox_canbus_main_def
  demo_iox_tty_main_def demo_netportal_modbus_main_def demo_netportal_tty_main_def benchmark_duplex_main_def
  benchmark_simplex_main_def demo_netportal_mosquitto_main_def demo_write_kvp_main_def demo_display_hello_main_def
  demo_lvgl_card_main_def

lemma program_runs:
  assumes "p \<in> set (program_mains uart evs left_over rounds window)" "p ans = Some y"
  shows "\<exists>early ans1 calls tail cleanup. orderly calls cleanup \<and> run_main early ans1 calls tail cleanup = Some y"
  using assms orderly_programs by (auto simp: program_mains_def program_main_defs Let_def) blast+


text \<open>
  The CoAP demo is not among them: even when nothing fails, its demo gets a NULL for the semaphore,
  which is made later and never disposed.
\<close>

lemma coap_demo_leaks_semaphore:
  assumes "\<And>c. ans c = None"
  shows "\<exists>y. demo_netportal_coap_main ans = Some y \<and> mx_rc y = 0 \<and> mr_nulls (mx_run y) = [(Demo, PongSemaphore)] \<and>
    PongSemaphore \<in> set (mr_made (mx_run y)) \<and> PongSemaphore \<notin> set (mx_disposed y)"
  using assms by (simp add: demo_netportal_coap_main_def run_main_def main_fresh_def do_call_def leave_main_def)

text \<open>The help of the service exits with 0 before anything is made.\<close>

lemma adcws_help_makes_nothing:
  assumes "adcws_parse_args evs left_over = (None, cfg)" "aw_help_requested cfg"
  shows "\<exists>y. svc_adcws_main evs left_over ans = Some y \<and> mx_rc y = 0 \<and> mr_made (mx_run y) = []"
  using assms by (simp add: svc_adcws_main_def svc_adcws_early_def run_main_def leave_main_def main_fresh_def)

text \<open>The display demo ends only when its wait does.\<close>

lemma hello_wait_endless: "hello_wait rounds = None \<longleftrightarrow> (\<forall>r \<in> set rounds. r = (None, True))"
  by (induction rounds rule: hello_wait.induct) auto

lemma hello_main_ends:
  assumes "\<And>c. ans c = None"
  shows "demo_display_hello_main rounds ans = None \<longleftrightarrow> (\<forall>r \<in> set rounds. r = (None, True))"
proof -
  have "mr_error (run_calls ans demo_display_hello_calls (main_fresh None)) = None"
    using assms by (simp add: run_calls_error main_fresh_def)
  then show ?thesis unfolding hello_wait_endless [symmetric] by (simp add: demo_display_hello_main_def run_main_def)
qed


end
