(* ===== verification/Matter.thy ===== *)
theory Matter
  imports Prelude
begin

unbundle bit_operations_syntax

text \<open>
  The Matter device: \<open>apps/run_test_matter/src/main.cpp\<close>, a counter that a timer increments and that is
  served as an attribute of four bytes, and \<open>dtmc_linux_library/src/dtnetportal_matter.cpp\<close>. The SDK
  is a parameter: its encoder and decoder, its timers, and the results of its start.
\<close>

section \<open>The counter\<close>

text \<open>
  A path is the endpoint, the cluster and the attribute. The state has the counter, the changes told
  to the reporting engine, whether the timer is armed, and whether the SDK knows the object that reads
  and writes the attribute.
\<close>

type_synonym attribute_path = "nat \<times> nat \<times> u32"

record matter_t =
  mt_counter :: u32
  mt_reports :: "attribute_path list"
  mt_timer :: bool
  mt_registered :: bool

definition kDtackClusterId :: nat where "kDtackClusterId = 0xFC00"
definition kCounterAttrId :: u32 where "kCounterAttrId = 0x0001"
definition kEndpointId :: nat where "kEndpointId = 1"

datatype chip_error = UnsupportedAttribute | InvalidArgument | SdkError nat

definition report_counter :: "matter_t \<Rightarrow> matter_t" where
  "report_counter s = s\<lparr>mt_reports := mt_reports s @ [(kEndpointId, kDtackClusterId, kCounterAttrId)]\<rparr>"

definition encode_counter :: "u32 \<Rightarrow> byte list" where
  "encode_counter v =
     [ucast (drop_bit 24 v AND 0xFF), ucast (drop_bit 16 v AND 0xFF), ucast (drop_bit 8 v AND 0xFF), ucast (v AND 0xFF)]"

definition decode_counter :: "byte list \<Rightarrow> u32" where
  "decode_counter p =
     push_bit 24 (ucast (p ! 0)) OR push_bit 16 (ucast (p ! 1)) OR push_bit 8 (ucast (p ! 2)) OR ucast (p ! 3)"

text \<open>\<open>encode\<close> is the answer of the encoder of the SDK to the bytes, \<open>decoded\<close> that of its decoder.\<close>

definition attr_read :: "u32 \<Rightarrow> (byte list \<Rightarrow> chip_error option) \<Rightarrow> matter_t \<Rightarrow> chip_error option" where
  "attr_read attr encode s =
     (if attr \<noteq> kCounterAttrId then Some UnsupportedAttribute else encode (encode_counter (mt_counter s)))"

definition attr_write :: "u32 \<Rightarrow> chip_error + byte list \<Rightarrow> matter_t \<Rightarrow> chip_error option \<times> matter_t" where
  "attr_write attr decoded s =
     (if attr \<noteq> kCounterAttrId then (Some UnsupportedAttribute, s)
      else case decoded of
        Inl e \<Rightarrow> (Some e, s)
      | Inr span \<Rightarrow>
          if length span \<noteq> 4 then (Some InvalidArgument, s)
          else (None, report_counter (s\<lparr>mt_counter := decode_counter span\<rparr>)))"

text \<open>The timer's callback; whether the timer could be armed again is not looked at.\<close>

definition counter_tick :: "bool \<Rightarrow> matter_t \<Rightarrow> matter_t" where
  "counter_tick armed s = (report_counter (s\<lparr>mt_counter := mt_counter s + 1\<rparr>))\<lparr>mt_timer := armed\<rparr>"

text \<open>The ticks of a timer: each happens only when the timer is armed.\<close>

fun counter_ticks :: "bool list \<Rightarrow> matter_t \<Rightarrow> matter_t" where
  "counter_ticks [] s = s"
| "counter_ticks (armed # rest) s = (if mt_timer s then counter_ticks rest (counter_tick armed s) else s)"

text \<open>The start; \<open>None\<close>: the program dies. The registration of the attribute is commented out.\<close>

definition matter_main :: "bool \<Rightarrow> bool \<Rightarrow> bool \<Rightarrow> bool \<Rightarrow> matter_t option" where
  "matter_main memory stack server timer =
     (if \<not> memory then None
      else if \<not> stack then None
      else if \<not> server then None
      else if \<not> timer then None
      else Some \<lparr>mt_counter = 0, mt_reports = [], mt_timer = True, mt_registered = False\<rparr>)"

section \<open>The topics\<close>

text \<open>\<open>dt_topics_publish_from_local\<close>: reports a change of the attribute; the data is not used.\<close>

definition publish_from_local :: "u32 \<Rightarrow> byte list \<Rightarrow> attribute_path list \<Rightarrow> bool \<times> attribute_path list" where
  "publish_from_local attr data reports = (True, reports @ [(1, 0xFFF100, attr)])"

section \<open>Properties\<close>

lemma decode_encode: "decode_counter (encode_counter v) = v"
proof (rule bit_word_eqI)
  fix n assume "n < LENGTH(32)"
  then consider "n < 8" | "8 \<le> n" "n < 16" | "16 \<le> n" "n < 24" | "24 \<le> n" "n < 32" by fastforce
  then show "bit (decode_counter (encode_counter v)) n = bit v n"
    by cases (auto simp: decode_counter_def encode_counter_def bit_simps bit_255)
qed

lemma encode_decode:
  assumes "length p = 4"
  shows "encode_counter (decode_counter p) = p"
proof -
  from assms obtain a b c d where p: "p = [a, b, c, d]" by (auto simp: eval_nat_numeral length_Suc_conv)
  have beyond: "8 \<le> m \<Longrightarrow> \<not> bit (w :: byte) m" for w m using bit_imp_le_length [of w m] by auto
  show ?thesis
    unfolding p
    by (auto simp: encode_counter_def decode_counter_def bit_255 beyond bit_simps intro!: bit_word_eqI)
qed

lemma counter_ticks_armed:
  "list_all id armed \<Longrightarrow> mt_timer s \<Longrightarrow>
     mt_counter (counter_ticks armed s) = mt_counter s + of_nat (length armed) \<and>
     length (mt_reports (counter_ticks armed s)) = length (mt_reports s) + length armed"
  by (induction armed arbitrary: s) (auto simp: counter_tick_def report_counter_def)

text \<open>
  C38: what the attribute serves. A write of four bytes is accepted, and a read gives them back; after
  ticks that each arm the timer again a read gives the number that was written increased by their
  count, modulo $2^{32}$, in big-endian order; the write and every tick are reported. A write of any
  other length, or to another attribute, is refused and changes nothing.
\<close>

theorem matter_counter_served:
  assumes "mt_timer s" "list_all id armed" "length p = 4"
  shows "fst (attr_write kCounterAttrId (Inr p) s) = None \<and>
    attr_read kCounterAttrId encode (snd (attr_write kCounterAttrId (Inr p) s)) = encode p \<and>
    attr_read kCounterAttrId encode (counter_ticks armed (snd (attr_write kCounterAttrId (Inr p) s))) =
      encode (encode_counter (decode_counter p + of_nat (length armed))) \<and>
    length (mt_reports (counter_ticks armed (snd (attr_write kCounterAttrId (Inr p) s)))) =
      length (mt_reports s) + 1 + length armed \<and>
    (length q \<noteq> 4 \<or> attr \<noteq> kCounterAttrId \<longrightarrow>
       fst (attr_write attr (Inr q) s) \<noteq> None \<and> snd (attr_write attr (Inr q) s) = s)"
proof -
  let ?s = "snd (attr_write kCounterAttrId (Inr p) s)"
  have s: "mt_timer ?s" "mt_counter ?s = decode_counter p" "length (mt_reports ?s) = length (mt_reports s) + 1"
    "fst (attr_write kCounterAttrId (Inr p) s) = None"
    using assms by (simp_all add: attr_write_def report_counter_def)
  from counter_ticks_armed [OF assms(2) s(1)] s(2-4) show ?thesis
    by (simp add: attr_read_def encode_decode [OF assms(3)]) (simp add: attr_write_def)
qed

text \<open>A tick that cannot arm the timer again is the last one; its error is dropped.\<close>

lemma counter_stops: "mt_timer s \<Longrightarrow> counter_ticks (False # rest) s = counter_tick False s"
  by (cases rest) (simp_all add: counter_tick_def)

text \<open>The program never lets the SDK know of its attribute: the reads and writes above are never called.\<close>

lemma matter_not_registered: "matter_main memory stack server timer = Some s \<Longrightarrow> \<not> mt_registered s"
  by (auto simp: matter_main_def split: if_splits)

text \<open>A topic is published on another cluster than the counter's.\<close>

lemma topics_other_cluster:
  "publish_from_local attr data [] = (True, [(e, c, a)]) \<Longrightarrow> c \<noteq> kDtackClusterId"
  by (auto simp: publish_from_local_def kDtackClusterId_def)

theorem matter_counter_served_witness:
  "\<exists>s. matter_main True True True True = Some s \<and>
     attr_read kCounterAttrId (\<lambda>b. if b = [0, 0, 0, 1] then None else Some (SdkError 0))
       (counter_ticks [True, True] (snd (attr_write kCounterAttrId (Inr [0xFF, 0xFF, 0xFF, 0xFF]) s))) = None"
proof -
  define s where "s = the (matter_main True True True True)"
  have m: "matter_main True True True True = Some s" "mt_timer s" by (simp_all add: s_def matter_main_def)
  have "encode_counter (decode_counter [0xFF, 0xFF, 0xFF, 0xFF] + of_nat (length [True, True])) = [0, 0, 0, 1]"
    by (simp add: encode_counter_def decode_counter_def)
  with matter_counter_served [OF m(2), of "[True, True]" "[0xFF, 0xFF, 0xFF, 0xFF]"
      "\<lambda>b. if b = [0, 0, 0, 1] then None else Some (SdkError 0)"] m(1)
  show ?thesis by simp
qed

end
