(* ===== verification/Spec2Isabelle.thy ===== *)
theory Spec2Isabelle
  imports Sha1 Websocket HttpdServer Lock Semaphore BufferQueue Nvblob Clock Tasker
    Canbus Tty Tcp ModbusBus Mosquitto CoapSystem HttpClient DemoTcp SvcAdcws BenchModbus Display Startup Demos
    AdcwsPool MainFlow Programs Matter LvglCard
begin

text \<open>
  A verification library for the Linux backend of the dtmc embedded framework
  (\<open>dtmc_linux_library\<close>) and its applications (\<open>apps\<close>). The library gives the platform-independent
  part of dtmc (dtmc_base and dtcore, not part of this repository) its devices and system services on
  Linux: tasks over pthreads, locks, semaphores, queues and clocks; byte stream devices (websocket,
  TCP, TTY, CAN, Modbus); publish-subscribe portals (MQTT, CoAP); an HTTP server and client; a window;
  a blob in a file. Each source file is one component with a record of state and functions that return
  \<open>dterr_t*\<close>, NULL for success.

  Conventions. A C struct is a record, a C function a definition on it; a function that returns
  \<open>dterr_t*\<close> gives a \<open>dterr\<close>, which is \<open>None\<close> or the error code. What the kernel, the C library,
  pthreads, libmodbus, libmosquitto, libcoap, libcurl, SDL and the functions of dtcore and dtmc_base
  answer is an argument: a list of answers that a loop consumes (an operation whose list runs out is
  still blocked, and gives \<open>None\<close>), or a record of answers for an operation. What is relied on from
  these libraries is a named hypothesis (\<open>ringfifo_ok\<close>, \<open>manifold_ok\<close>, \<open>bus_ok\<close>, \<open>curl_contract\<close>,
  \<open>create_ok\<close>), each with a concrete instance in a witness. Open file descriptors are a list that the
  operations extend and shorten. \<open>int32_t\<close> values are \<open>int\<close> with the conversions written out,
  unsigned ones and bit patterns are words. Log output and error message texts are not modelled.

  Theories, from the bottom:

  \<^item> \<open>Prelude\<close>: machine types, error codes, the answers of system calls, lemmas on lists and words.

  \<^item> \<open>Cstring\<close>: the C string functions the code calls, \<open>printf\<close> conversions, and lemmas on
    CRLF-terminated lines.

  \<^item> \<open>Sha1\<close> (\<open>dtsha1.c\<close>): the complete implementation on 32-bit words. The streaming interface is
    equal to a one-shot specification, and the standard's test vector is evaluated.

  \<^item> \<open>Sockets\<close>: descriptors, the bind loop that the servers share, and the locale \<open>byte_sink\<close>: the
    contract of a loop that sends everything. The send loops of the websocket, the HTTP server, the TCP
    and the TTY device interpret it, and the theorems on responses, frames and writes rest on it.

  \<^item> \<open>WsHandshake\<close>, \<open>Websocket\<close> (\<open>dtiox_linux_websocket.c\<close>): the upgrade request, its answer, the
    frames, and attach, detach, read, write. The frames are read back by a decoder written from
    RFC 6455; attach is followed descriptor by descriptor.

  \<^item> \<open>HttpdResponse\<close>, \<open>HttpdRequest\<close>, \<open>HttpdClient\<close>, \<open>HttpdServer\<close> (\<open>dthttpd_linux_socket.c\<close>):
    sending, static files and the path check; the receive loops and the request parser; a client
    task from request to response; the slots, the accept loop and the life cycle. Accept rounds
    and client tasks are a step relation \<open>httpd_step\<close>, whose invariant bounds the clients and
    accounts for every descriptor.

  \<^item> \<open>Lock\<close> (\<open>dtlock_linux.c\<close>): the lock over an error-checking mutex, with the locale \<open>mutex_lock\<close>
    and mutual exclusion for any number of threads.

  \<^item> \<open>Condvar\<close>: deadlines, and condition variables with the property that no wakeup is lost.
    \<open>Semaphore\<close> (\<open>dtsemaphore_linux.c\<close>) and \<open>BufferQueue\<close> (\<open>dtbufferqueue_linux.c\<close>) use it: their
    waits are cut at the points where the mutex is released, and the threads are a step relation over
    the pieces, with spurious wakeups and deadlines at any time. The ring interprets the
    locale \<open>bounded_queue\<close>: it is a first-in first-out queue.

  \<^item> \<open>Tasker\<close> (\<open>dttasker_linux.c\<close>): start, ready, stop, join and the priorities; the starter and the
    task's thread are a step relation. It builds on the semaphore.

  \<^item> \<open>Nvblob\<close> (\<open>dtnvblob_linux_file.c\<close>): the blob in a file, over a disk that maps names to contents.
    \<open>Clock\<close> (\<open>dtruntime_linux.c\<close>, \<open>dtcpu_linux.c\<close>): clocks and sleeps.

  \<^item> \<open>Dtiox\<close>: what the byte stream devices share: the ring of dtcore (\<open>ringfifo\<close>), and the locale
    \<open>rx_stream\<close>: a receive path into which chunks arrive and from which a reader takes bytes, and that
    marks every loss, is a byte stream that reports every loss. \<open>Canbus\<close>, \<open>Tty\<close> and \<open>Tcp\<close>
    (\<open>dtiox_linux_canbus.c\<close>, \<open>dtiox_linux_tty.c\<close>, \<open>dtiox_linux_tcp.c\<close>) interpret it with the rounds of
    their receive tasks, and add writes, attach and detach, counters and the end of the task.

  \<^item> \<open>Modbus\<close>: the register map and libmodbus. \<open>ModbusMaster\<close> (\<open>dtiox_linux_modbus_tcp_master*.c\<close> and
    \<open>dtiox_linux_modbus_rtu_master*.c\<close>, which share their definitions), \<open>ModbusSlave\<close>
    (\<open>dtiox_linux_modbus_tcp_slave*.c\<close>) and \<open>ModbusBus\<close>: a master and a slave joined by libmodbus, whose
    part is the hypothesis \<open>bus_ok\<close>; both directions are shown to deliver, as \<open>rx_stream\<close>s.

  \<^item> \<open>Mosquitto\<close> (\<open>dtnetportal_mosquitto.c\<close>): the callbacks of libmosquitto and the operations are a step
    relation \<open>mq_step\<close>; the waits for an answer are lists of rounds of callbacks.

  \<^item> \<open>Coap\<close> and \<open>CoapSystem\<close> (\<open>dtnetportal_coap*.c\<close>): the portal, its queue of publications and its
    task. \<open>CoapSystem\<close> has the step relation \<open>coap_step\<close> of publishers, task and callbacks, with the order
    of the posts, the wakeups, and the way from a publisher to the recipients of another portal.

  \<^item> \<open>HttpClient\<close> (\<open>dthttpclient_linux.c\<close>): the body, the URL and a request over libcurl.
    \<open>Display\<close> (\<open>dtdisplay_linux_sdl.c\<close>): the object, the event loop, and drawing threads with the task
    as the step relation \<open>display_step\<close>.

  \<^item> \<open>DeviceTexts\<close>: the \<open>concat_format\<close> and \<open>to_string\<close> functions of all devices and of the HTTP
    server. \<open>Startup\<close> (\<open>dtmc_linux.c\<close>, rest of \<open>dtruntime_linux.c\<close> and \<open>dttasker_linux.c\<close>): the registry of
    tasks and the tables that are printed.

  \<^item> \<open>CommandLine\<close>: the part the command line parsers of the applications share. \<open>DemoTcp\<close>
    (\<open>apps/demo_iox_tcp\<close>), \<open>SvcAdcws\<close> (\<open>apps/svc_adcws\<close>) and \<open>BenchModbus\<close>
    (\<open>apps/benchmark_netportal_simplex_modbus\<close>) have their options and what the devices do with
    the configuration, \<open>SvcAdcws\<close> also the service with its tasks and pool of buffers. \<open>Demos\<close>:
    what the other programs make of their argument.

  \<^item> \<open>AdcwsPool\<close>: the buffers of the service between its two queues. In the locale \<open>bounded_queue\<close> a pool
    of members in several queues is conserved; the threads of the service, whatever they do between a
    get and a put, are the step relation \<open>pool_step\<close>, and no put of a buffer they hold can wait.

  \<^item> \<open>MainFlow\<close> and \<open>Programs\<close> (the \<open>main\<close> functions under \<open>apps\<close>): a program is a chain of calls that make
    objects and hand their handles on, and a list of disposals that every way out passes. A check of
    the two lists (\<open>orderly\<close>) is proved sufficient for a clean exit on every error path, and every
    program of this shape but the CoAP demo passes it.

  \<^item> \<open>Matter\<close> (\<open>apps/run_test_matter/src/main.cpp\<close>, \<open>dtnetportal_matter.cpp\<close>): the counter that is an
    attribute of four bytes, its timer, and the publication of topics; the SDK is a parameter.
    \<open>LvglCard\<close> (\<open>apps/demo_lvgl_card\<close>): the calls that build the screen, run on a tree of widgets, and the
    rounds of the timer that changes the readouts.

  Not modelled. The tests of the library, the code that the ZAP tool generates for Matter, and the texts
  of the usage messages and of the errors. The demos, benchmarks, services and flow monitors that the
  programs run are submodules that are not here; LVGL, its settings and the float arithmetic of the
  demo are parameters. Copy functions and class names are constants.

  Bounds and fuel. Most loops recur on their list of answers or on a length. The receive loops of
  the Modbus devices (\<open>mm_rx_loop\<close>, \<open>slv_session_loop\<close>, \<open>slv_server_loop\<close>) take a number of rounds, since they
  end only when told to; \<open>None\<close> means that they still run, and the theorems speak of a round or of every
  number of rounds. \<open>tty_rx_cleanup\<close>, \<open>mrtu_write_loop\<close>, \<open>grow_capacity\<close>, \<open>printf_cleanup\<close> and the loops of
  \<open>Sha1\<close> are partial functions: that they return, or that they do not, is proved. The theorems on the
  buffer queue need a capacity below 2^28, since the code truncates the size of the ring above it;
  a body of the HTTP client is received up to 2^31 - 1 bytes; the buffer of a display is exact below
  2^31 bytes.
\<close>

end
